(* ===== verification/MA2A_Prelude.thy ===== *)
theory MA2A_Prelude
  imports Main "HOL-Library.Word"
begin

text \<open>
  Shared ground of the development: what a C++ call can do (return, throw, run into undefined
  behaviour), the sequencing of such calls, effectful calls over an explicit environment, the
  checked 64-bit signed arithmetic the parser uses, the decimal printing of the output streams,
  and the list lemmas the components share.

  Byte strings (\<open>std::string\<close>) are \<open>char list\<close>s: a \<open>char\<close> of Isabelle is one byte.  Byte vectors
  (\<open>std::vector<std::uint8_t>\<close>) are lists of \<open>8 word\<close>.  \<open>std::size_t\<close> values index or measure
  objects in memory and are modelled as \<open>nat\<close>.
\<close>

named_theorems outcome_simps "equations that run calls to their outcome"
named_theorems reader_simps "equations that run the flat JSON reader"

type_synonym byte = "8 word"
type_synonym int64 = "64 word"
type_synonym uint32 = "32 word"
type_synonym uint16 = "16 word"

section \<open>Outcomes of C++ calls\<close>

text \<open>
  The standard exception classes the headers throw, with their message.  \<open>Undefined\<close> is a run that
  has reached undefined behaviour (a signed overflow, a write past a buffer): unlike an exception
  no handler catches it.
\<close>

datatype exn =
    Invalid_Argument string
  | Length_Error string
  | Runtime_Error string
  | Logic_Error string

datatype 'a outcome = Return 'a | Throw exn | Undefined

fun bind :: "'a outcome \<Rightarrow> ('a \<Rightarrow> 'b outcome) \<Rightarrow> 'b outcome" where
  "bind (Return x) f = f x"
| "bind (Throw e) f = Throw e"
| "bind Undefined f = Undefined"

text \<open>\<open>try_catch_all m h\<close> is \<open>try { m } catch (...) { h }\<close>.\<close>

fun try_catch_all :: "'a outcome \<Rightarrow> 'a outcome \<Rightarrow> 'a outcome" where
  "try_catch_all (Return x) h = Return x"
| "try_catch_all (Throw e) h = h"
| "try_catch_all Undefined h = Undefined"

lemma bind_cong [fundef_cong]:
  "m = m' \<Longrightarrow> (\<And>x. m' = Return x \<Longrightarrow> f x = f' x) \<Longrightarrow> bind m f = bind m' f'"
  by (cases m') auto

lemma bind_assoc [simp]: "bind (bind m f) g = bind m (\<lambda>x. bind (f x) g)"
  by (cases m) auto

lemma bind_case_prod [simp]:
  "bind (case p of (a, b) \<Rightarrow> f a b) g = (case p of (a, b) \<Rightarrow> bind (f a b) g)"
  by (cases p) simp

lemma bind_Return_right [simp]: "bind m Return = m"
  by (cases m) auto

lemma bind_eq_Return:
  "bind m f = Return y \<longleftrightarrow> (\<exists>x. m = Return x \<and> f x = Return y)"
  by (cases m) auto

lemma bind_eq_Throw:
  "bind m f = Throw e \<longleftrightarrow> m = Throw e \<or> (\<exists>x. m = Return x \<and> f x = Throw e)"
  by (cases m) auto

lemma bind_eq_Undefined:
  "bind m f = Undefined \<longleftrightarrow> m = Undefined \<or> (\<exists>x. m = Return x \<and> f x = Undefined)"
  by (cases m) auto

lemma bind_ReturnE [elim]:
  assumes "bind m f = Return y"
  obtains x where "m = Return x" and "f x = Return y"
  using assms by (auto simp: bind_eq_Return)

lemma map_outcome_bind [simp]: "map_outcome g (bind m f) = bind m (\<lambda>x. map_outcome g (f x))"
  by (cases m) auto

lemma bind_map_outcome [simp]: "bind (map_outcome g m) f = bind m (\<lambda>x. f (g x))"
  by (cases m) auto

lemma map_outcome_eq_Return [simp]:
  "map_outcome f m = Return y \<longleftrightarrow> (\<exists>x. m = Return x \<and> y = f x)"
  by (cases m) auto

lemma map_outcome_eq_Throw [simp]: "map_outcome f m = Throw e \<longleftrightarrow> m = Throw e"
  by (cases m) auto

lemma map_outcome_eq_Undefined [simp]: "map_outcome f m = Undefined \<longleftrightarrow> m = Undefined"
  by (cases m) auto

lemma try_catch_all_eq_Return:
  "try_catch_all m h = Return y \<longleftrightarrow> m = Return y \<or> (\<exists>e. m = Throw e \<and> h = Return y)"
  by (cases m) auto

section \<open>Effectful calls\<close>

text \<open>
  A call that talks to the environment (the operating system, an injected callback) takes the
  state of that environment and gives the outcome with the next state; \<open>None\<close> is a call that never
  comes back.
\<close>

type_synonym ('w, 'a) io = "'w \<Rightarrow> ('a outcome \<times> 'w) option"

definition io_outcome :: "'a outcome \<Rightarrow> ('w, 'a) io" where
  "io_outcome x = (\<lambda>w. Some (x, w))"

abbreviation io_return :: "'a \<Rightarrow> ('w, 'a) io" where
  "io_return x \<equiv> io_outcome (Return x)"

abbreviation io_throw :: "exn \<Rightarrow> ('w, 'a) io" where
  "io_throw e \<equiv> io_outcome (Throw e)"

definition io_bind :: "('w, 'a) io \<Rightarrow> ('a \<Rightarrow> ('w, 'b) io) \<Rightarrow> ('w, 'b) io" where
  "io_bind m f = (\<lambda>w. case m w of
     None \<Rightarrow> None
   | Some (Return x, w') \<Rightarrow> f x w'
   | Some (Throw e, w') \<Rightarrow> Some (Throw e, w')
   | Some (Undefined, w') \<Rightarrow> Some (Undefined, w'))"

text \<open>\<open>try { m } catch (...) { h }\<close> for an effectful body.\<close>

definition io_try_catch_all :: "('w, 'a) io \<Rightarrow> ('w, 'a) io \<Rightarrow> ('w, 'a) io" where
  "io_try_catch_all m h = (\<lambda>w. case m w of
     None \<Rightarrow> None
   | Some (Return x, w') \<Rightarrow> Some (Return x, w')
   | Some (Throw e, w') \<Rightarrow> h w'
   | Some (Undefined, w') \<Rightarrow> Some (Undefined, w'))"

lemma io_outcome_apply [simp]: "io_outcome x w = Some (x, w)"
  by (simp add: io_outcome_def)

lemma io_bind_simps [outcome_simps]:
  "m w = None \<Longrightarrow> io_bind m f w = None"
  "m w = Some (Return x, w') \<Longrightarrow> io_bind m f w = f x w'"
  "m w = Some (Throw e, w') \<Longrightarrow> io_bind m f w = Some (Throw e, w')"
  "m w = Some (Undefined, w') \<Longrightarrow> io_bind m f w = Some (Undefined, w')"
  by (simp_all add: io_bind_def)

lemma io_bind_outcome [simp]:
  "io_bind (io_outcome (Return x)) f = f x"
  "io_bind (io_outcome (Throw e)) f = io_outcome (Throw e)"
  "io_bind (io_outcome Undefined) f = io_outcome Undefined"
  by (simp_all add: io_bind_def io_outcome_def fun_eq_iff)

lemma io_bind_eq_Return:
  "io_bind m f w = Some (Return y, w2) \<longleftrightarrow>
     (\<exists>x w1. m w = Some (Return x, w1) \<and> f x w1 = Some (Return y, w2))"
  by (auto simp: io_bind_def split: option.splits outcome.splits)

lemma io_bind_eq_Some:
  "io_bind m f w = Some (r, w2) \<longleftrightarrow>
     (\<exists>x w1. m w = Some (Return x, w1) \<and> f x w1 = Some (r, w2)) \<or>
     (\<exists>e. m w = Some (Throw e, w2) \<and> r = Throw e) \<or>
     (m w = Some (Undefined, w2) \<and> r = Undefined)"
  by (auto simp: io_bind_def split: option.splits outcome.splits)

lemma io_try_catch_all_simps [outcome_simps]:
  "m w = None \<Longrightarrow> io_try_catch_all m h w = None"
  "m w = Some (Return x, w') \<Longrightarrow> io_try_catch_all m h w = Some (Return x, w')"
  "m w = Some (Throw e, w') \<Longrightarrow> io_try_catch_all m h w = h w'"
  "m w = Some (Undefined, w') \<Longrightarrow> io_try_catch_all m h w = Some (Undefined, w')"
  by (simp_all add: io_try_catch_all_def)

lemma io_try_catch_all_eq_Some:
  "io_try_catch_all m h w = Some (r, w2) \<longleftrightarrow>
     (\<exists>x. m w = Some (Return x, w2) \<and> r = Return x) \<or>
     (\<exists>e w1. m w = Some (Throw e, w1) \<and> h w1 = Some (r, w2)) \<or>
     (m w = Some (Undefined, w2) \<and> r = Undefined)"
  by (auto simp: io_try_catch_all_def split: option.splits outcome.splits)

text \<open>
  Two judgements on effectful calls: \<open>returns m\<close>, the call comes back from every state of its
  environment; \<open>io_spec m w R\<close>, if the call comes back from \<open>w\<close> then with an outcome and a state in \<open>R\<close>.
\<close>

definition returns :: "('w, 'a) io \<Rightarrow> bool" where
  "returns m \<longleftrightarrow> (\<forall>w. m w \<noteq> None)"

definition io_spec :: "('w, 'a) io \<Rightarrow> 'w \<Rightarrow> ('a outcome \<Rightarrow> 'w \<Rightarrow> bool) \<Rightarrow> bool" where
  "io_spec m w R \<longleftrightarrow> (\<forall>r w'. m w = Some (r, w') \<longrightarrow> R r w')"

lemma returns_outcome [intro, simp]: "returns (io_outcome x)"
  by (simp add: returns_def)

lemma returns_bind [intro]: "returns m \<Longrightarrow> (\<And>x. returns (f x)) \<Longrightarrow> returns (io_bind m f)"
  unfolding returns_def io_bind_def by (auto split: option.splits outcome.splits; metis option.distinct(1))

lemma returns_try_catch_all [intro]: "returns m \<Longrightarrow> returns h \<Longrightarrow> returns (io_try_catch_all m h)"
  unfolding returns_def io_try_catch_all_def by (auto split: option.splits outcome.splits; metis option.distinct(1))

lemma io_spec_outcome [simp]: "io_spec (io_outcome x) w R \<longleftrightarrow> R x w"
  by (simp add: io_spec_def)

lemma io_spec_bind:
  "io_spec (io_bind m f) w R \<longleftrightarrow>
     io_spec m w (\<lambda>r w1. case r of Return x \<Rightarrow> io_spec (f x) w1 R | Throw e \<Rightarrow> R (Throw e) w1
       | Undefined \<Rightarrow> R Undefined w1)"
  unfolding io_spec_def io_bind_def by (auto split: option.splits outcome.splits prod.splits)

lemma io_spec_try_catch_all:
  "io_spec (io_try_catch_all m h) w R \<longleftrightarrow>
     io_spec m w (\<lambda>r w1. case r of Return x \<Rightarrow> R (Return x) w1 | Throw e \<Rightarrow> io_spec h w1 R
       | Undefined \<Rightarrow> R Undefined w1)"
  unfolding io_spec_def io_try_catch_all_def by (auto split: option.splits outcome.splits prod.splits)

lemma io_spec_mono: "io_spec m w R \<Longrightarrow> (\<And>r w'. R r w' \<Longrightarrow> R' r w') \<Longrightarrow> io_spec m w R'"
  by (auto simp: io_spec_def)

lemma io_specD: "io_spec m w R \<Longrightarrow> m w = Some (r, w') \<Longrightarrow> R r w'"
  by (simp add: io_spec_def)

text \<open>\<open>io_ensures m w R\<close>: the call does come back from \<open>w\<close>, with an outcome and a state in \<open>R\<close>.\<close>

definition io_ensures :: "('w, 'a) io \<Rightarrow> 'w \<Rightarrow> ('a outcome \<Rightarrow> 'w \<Rightarrow> bool) \<Rightarrow> bool" where
  "io_ensures m w R \<longleftrightarrow> (\<exists>r w'. m w = Some (r, w') \<and> R r w')"

lemma io_ensures_outcome [simp]: "io_ensures (io_outcome x) w R \<longleftrightarrow> R x w"
  by (simp add: io_ensures_def)

lemma io_ensures_bind:
  "io_ensures (io_bind m f) w R \<longleftrightarrow>
     io_ensures m w (\<lambda>r w1. case r of Return x \<Rightarrow> io_ensures (f x) w1 R | Throw e \<Rightarrow> R (Throw e) w1
       | Undefined \<Rightarrow> R Undefined w1)"
  unfolding io_ensures_def io_bind_def by (auto split: option.splits outcome.splits prod.splits)

lemma io_ensures_mono: "io_ensures m w R \<Longrightarrow> (\<And>r w'. R r w' \<Longrightarrow> R' r w') \<Longrightarrow> io_ensures m w R'"
  by (auto simp: io_ensures_def)

text \<open>
  A loop: the body is run on the loop variables and asks for another round with new values (\<open>Inl\<close>) or
  leaves the loop with a result (\<open>Inr\<close>).  A loop that never leaves does not come back.
\<close>

partial_function (option) io_loop ::
    "('s \<Rightarrow> ('w, 's + 'a) io) \<Rightarrow> 's \<Rightarrow> 'w \<Rightarrow> ('a outcome \<times> 'w) option" where
  "io_loop body s w =
     (case body s w of
        None \<Rightarrow> None
      | Some (r, w') \<Rightarrow>
          (case r of
             Return x \<Rightarrow> (case x of Inl s' \<Rightarrow> io_loop body s' w' | Inr y \<Rightarrow> Some (Return y, w'))
           | Throw e \<Rightarrow> Some (Throw e, w')
           | Undefined \<Rightarrow> Some (Undefined, w')))"

text \<open>What a round has to establish: the invariant for the next one, or the conclusion.\<close>

fun round_post :: "('s \<Rightarrow> 'w \<Rightarrow> bool) \<Rightarrow> ('a outcome \<Rightarrow> 'w \<Rightarrow> bool) \<Rightarrow> ('s + 'a) outcome \<Rightarrow> 'w \<Rightarrow> bool" where
  "round_post I Q (Return (Inl s)) w = I s w"
| "round_post I Q (Return (Inr y)) w = Q (Return y) w"
| "round_post I Q (Throw e) w = Q (Throw e) w"
| "round_post I Q Undefined w = Q Undefined w"

lemma io_loop_spec:
  assumes "I s w" and "\<And>s w. I s w \<Longrightarrow> io_spec (body s) w (round_post I Q)"
  shows "io_spec (io_loop body s) w Q"
  unfolding io_spec_def
proof (intro allI impI)
  fix r w'
  assume run: "io_loop body s w = Some (r, w')"
  have "(\<forall>s w. I s w \<longrightarrow> io_spec (body s) w (round_post I Q)) \<longrightarrow> I s w \<longrightarrow> (\<lambda>(r, w'). Q r w') (r, w')"
  proof (rule io_loop.raw_induct [OF _ run])
    fix self body s w y
    assume IH: "\<And>body s w y. self body s w = Some y \<Longrightarrow>
        (\<forall>s w. I s w \<longrightarrow> io_spec (body s) w (round_post I Q)) \<longrightarrow> I s w \<longrightarrow> (\<lambda>(r, w'). Q r w') y"
      and body: "(case body s w of None \<Rightarrow> None
        | Some (r, w') \<Rightarrow>
            (case r of Return x \<Rightarrow> (case x of Inl s' \<Rightarrow> self body s' w' | Inr y \<Rightarrow> Some (Return y, w'))
             | Throw e \<Rightarrow> Some (Throw e, w') | Undefined \<Rightarrow> Some (Undefined, w'))) = Some y"
    show "(\<forall>s w. I s w \<longrightarrow> io_spec (body s) w (round_post I Q)) \<longrightarrow> I s w \<longrightarrow> (\<lambda>(r, w'). Q r w') y"
    proof (intro impI)
      assume inv: "\<forall>s w. I s w \<longrightarrow> io_spec (body s) w (round_post I Q)" "I s w"
      then have "\<forall>r w'. body s w = Some (r, w') \<longrightarrow> round_post I Q r w'" by (simp add: io_spec_def)
      then show "(\<lambda>(r, w'). Q r w') y"
        using body IH inv(1) by (auto split: option.splits outcome.splits sum.splits)
    qed
  qed
  with assms show "Q r w'" by auto
qed

lemma io_loop_ensures:
  assumes "I s w"
    and "\<And>s w. I s w \<Longrightarrow> io_ensures (body s) w (round_post (\<lambda>s' w'. I s' w' \<and> m s' w' < (m s w :: nat)) Q)"
  shows "io_ensures (io_loop body s) w Q"
  using assms(1)
proof (induction "m s w" arbitrary: s w rule: less_induct)
  case less
  obtain r w1 where r: "body s w = Some (r, w1)"
      "round_post (\<lambda>s' w'. I s' w' \<and> m s' w' < m s w) Q r w1"
    using assms(2) [OF less.prems] by (auto simp: io_ensures_def)
  show ?case
  proof (cases r)
    case (Return x)
    then show ?thesis
      using r less.hyps by (cases x) (auto simp: io_ensures_def io_loop.simps [of body s w])
  qed (use r in \<open>auto simp: io_ensures_def io_loop.simps [of body s w]\<close>)
qed

text \<open>A call that leaves a view of the environment alone, however it ends.\<close>

definition keeps :: "('w \<Rightarrow> 'v) \<Rightarrow> ('w, 'a) io \<Rightarrow> bool" where
  "keeps view m \<longleftrightarrow> (\<forall>w r w'. m w = Some (r, w') \<longrightarrow> view w' = view w)"

named_theorems keeps_intros "calls that leave a view of the environment alone"

lemma keeps_spec: "keeps view m \<Longrightarrow> io_spec m w (\<lambda>r w'. view w' = view w)"
  by (simp add: keeps_def io_spec_def)

lemma keeps_outcome [keeps_intros]: "keeps view (io_outcome x)"
  by (simp add: keeps_def)

lemma keeps_bind [keeps_intros]: "keeps view m \<Longrightarrow> (\<And>x. keeps view (f x)) \<Longrightarrow> keeps view (io_bind m f)"
  unfolding keeps_def by (auto simp: io_bind_eq_Some)

lemma keeps_if [keeps_intros]: "keeps view m \<Longrightarrow> keeps view m' \<Longrightarrow> keeps view (if b then m else m')"
  by simp

lemma keeps_case_prod [keeps_intros]: "(\<And>x y. keeps view (f x y)) \<Longrightarrow> keeps view (case p of (x, y) \<Rightarrow> f x y)"
  by (cases p) simp

lemma keeps_let [keeps_intros]: "(\<And>x. keeps view (f x)) \<Longrightarrow> keeps view (let x = a in f x)"
  by (simp add: Let_def)

lemma round_post_const: "round_post (\<lambda>s w. P w) (\<lambda>r w. P w) r w = P w"
proof (cases r)
  case (Return x)
  then show ?thesis by (cases x) simp_all
qed simp_all

lemma keeps_loop [keeps_intros]:
  assumes "\<And>s. keeps view (body s)"
  shows "keeps view (io_loop body s)"
proof -
  have "io_spec (io_loop body s) w (\<lambda>r w'. view w' = view w)" for w
  proof (rule io_loop_spec [where I = "\<lambda>s w'. view w' = view w"])
    fix s w1
    assume w1: "view w1 = view w"
    show "io_spec (body s) w1 (round_post (\<lambda>s w'. view w' = view w) (\<lambda>r w'. view w' = view w))"
      unfolding io_spec_def
    proof (intro allI impI)
      fix r w2
      assume "body s w1 = Some (r, w2)"
      then have "view w2 = view w" using assms w1 unfolding keeps_def by metis
      then show "round_post (\<lambda>s w'. view w' = view w) (\<lambda>r w'. view w' = view w) r w2"
        by (simp add: round_post_const)
    qed
  qed simp
  then show ?thesis unfolding keeps_def io_spec_def by blast
qed

section \<open>64-bit signed arithmetic\<close>

text \<open>
  Signed overflow is undefined behaviour in C++: each operation gives a value only when the
  mathematical result is in the range of \<open>std::int64_t\<close>.
\<close>

definition int64_of :: "int \<Rightarrow> int64 outcome" where
  "int64_of i = (if - (2 ^ 63) \<le> i \<and> i < 2 ^ 63 then Return (word_of_int i) else Undefined)"

definition i64_mul :: "int64 \<Rightarrow> int64 \<Rightarrow> int64 outcome" where
  "i64_mul a b = int64_of (sint a * sint b)"

definition i64_add :: "int64 \<Rightarrow> int64 \<Rightarrow> int64 outcome" where
  "i64_add a b = int64_of (sint a + sint b)"

definition i64_neg :: "int64 \<Rightarrow> int64 outcome" where
  "i64_neg a = int64_of (- sint a)"

abbreviation int64_min :: int64 where
  "int64_min \<equiv> 2 ^ 63"

lemma sint_word_of_int_64:
  "- (2 ^ 63) \<le> i \<Longrightarrow> i < 2 ^ 63 \<Longrightarrow> sint (word_of_int i :: int64) = i"
  by (simp add: signed_of_int signed_take_bit_int_eq_self)

lemma sint_int64_bounds: "- (2 ^ 63) \<le> sint (a :: int64)" "sint (a :: int64) < 2 ^ 63"
  using sint_greater_eq [of a] sint_less [of a] by simp_all

lemma sint_int64_min [simp]: "sint int64_min = - (2 ^ 63)"
  by simp

lemma sint_eq_int64_min_iff: "sint (a :: int64) = - (2 ^ 63) \<longleftrightarrow> a = int64_min"
  by (metis sint_int64_min signed_word_eqI)

section \<open>Decimal output of integers\<close>

text \<open>\<open>operator<<\<close> of an output stream prints an integer in decimal, with a minus sign when negative.\<close>

definition digit_char :: "nat \<Rightarrow> char" where
  "digit_char d = char_of (48 + d)"

fun dec_nat :: "nat \<Rightarrow> string" where
  "dec_nat n = (if n < 10 then [digit_char n] else dec_nat (n div 10) @ [digit_char (n mod 10)])"

declare dec_nat.simps [simp del]

definition dec_int :: "int \<Rightarrow> string" where
  "dec_int i = (if i < 0 then CHR ''-'' # dec_nat (nat (- i)) else dec_nat (nat i))"

definition dec_int64 :: "int64 \<Rightarrow> string" where
  "dec_int64 w = dec_int (sint w)"

definition is_digit :: "char \<Rightarrow> bool" where
  "is_digit c \<longleftrightarrow> 48 \<le> (of_char c :: nat) \<and> (of_char c :: nat) \<le> 57"

definition digit_val :: "char \<Rightarrow> nat" where
  "digit_val c = of_char c - 48"

lemma of_digit_char [simp]: "d < 10 \<Longrightarrow> (of_char (digit_char d) :: nat) = 48 + d"
  by (simp add: digit_char_def)

lemma is_digit_digit_char [simp]: "d < 10 \<Longrightarrow> is_digit (digit_char d)"
  by (simp add: is_digit_def)

lemma digit_val_digit_char [simp]: "d < 10 \<Longrightarrow> digit_val (digit_char d) = d"
  by (simp add: digit_val_def)

lemma dec_nat_digits: "\<forall>c \<in> set (dec_nat n). is_digit c"
proof (induction n rule: dec_nat.induct)
  case (1 n)
  then show ?case by (subst dec_nat.simps) auto
qed

lemma dec_nat_nonempty [simp]: "dec_nat n \<noteq> []"
  by (subst dec_nat.simps) simp

text \<open>The value of a digit string, most significant digit first.\<close>

definition digits_value :: "nat \<Rightarrow> string \<Rightarrow> nat" where
  "digits_value v ds = foldl (\<lambda>a c. a * 10 + digit_val c) v ds"

lemma digits_value_simps [simp]:
  "digits_value v [] = v"
  "digits_value v (c # cs) = digits_value (v * 10 + digit_val c) cs"
  "digits_value v (xs @ ys) = digits_value (digits_value v xs) ys"
  by (simp_all add: digits_value_def)

lemma digits_value_dec_nat [simp]: "digits_value 0 (dec_nat n) = n"
proof (induction n rule: dec_nat.induct)
  case (1 n)
  show ?case
  proof (cases "n < 10")
    case True
    then show ?thesis by (subst dec_nat.simps) simp
  next
    case False
    then show ?thesis using "1.IH" by (subst dec_nat.simps) simp
  qed
qed

lemma digits_value_ge: "v \<le> digits_value v ds"
proof (induction ds arbitrary: v)
  case (Cons c cs)
  have "v \<le> v * 10 + digit_val c" by simp
  also have "\<dots> \<le> digits_value (v * 10 + digit_val c) cs" by (rule Cons.IH)
  finally show ?case by simp
qed simp

lemma dec_nat_hd: "is_digit (hd (dec_nat n))"
  using dec_nat_digits [of n] by (cases "dec_nat n") auto

section \<open>Strings\<close>

text \<open>\<open>starts_with pre s\<close> is \<open>s.compare(0, pre.size(), pre) == 0\<close> for \<open>pre\<close> no longer than \<open>s\<close>.\<close>

definition starts_with :: "string \<Rightarrow> string \<Rightarrow> bool" where
  "starts_with pre s \<longleftrightarrow> take (length pre) s = pre"

lemma starts_with_append [simp]: "starts_with pre (pre @ s)"
  by (simp add: starts_with_def)

lemma starts_with_iff: "starts_with pre s \<longleftrightarrow> (\<exists>t. s = pre @ t)"
  by (metis append_take_drop_id starts_with_def starts_with_append)

text \<open>\<open>find_from c s i\<close> is \<open>s.find(c, i)\<close>, with \<open>npos\<close> as \<open>None\<close>.\<close>

fun find_char :: "char \<Rightarrow> string \<Rightarrow> nat option" where
  "find_char c [] = None"
| "find_char c (x # xs) = (if x = c then Some 0 else map_option Suc (find_char c xs))"

definition find_from :: "char \<Rightarrow> string \<Rightarrow> nat \<Rightarrow> nat option" where
  "find_from c s i = map_option (\<lambda>k. i + k) (find_char c (drop i s))"

lemma find_char_append: "c \<notin> set xs \<Longrightarrow> find_char c (xs @ c # ys) = Some (length xs)"
  by (induction xs) auto

lemma find_char_SomeD:
  "find_char c s = Some k \<Longrightarrow> k < length s \<and> s ! k = c \<and> c \<notin> set (take k s)"
proof (induction s arbitrary: k)
  case (Cons x xs)
  then show ?case by (auto split: if_splits)
qed simp

lemma drop_eq_Cons: "drop n xs = y # ys \<Longrightarrow> n < length xs \<and> xs ! n = y \<and> drop (Suc n) xs = ys"
  by (metis Cons_nth_drop_Suc drop_all list.inject list.simps(3) not_le_imp_less)

text \<open>The conversions between \<open>char\<close> and \<open>std::uint8_t\<close>, and the copy between the two containers.\<close>

definition byte_of_char :: "char \<Rightarrow> byte" where
  "byte_of_char c = of_char c"

definition char_of_byte :: "byte \<Rightarrow> char" where
  "char_of_byte b = char_of (unat b)"

abbreviation bytes_of_string :: "string \<Rightarrow> byte list" where
  "bytes_of_string s \<equiv> map byte_of_char s"

abbreviation string_of_bytes :: "byte list \<Rightarrow> string" where
  "string_of_bytes bs \<equiv> map char_of_byte bs"

lemma unat_byte_of_char [simp]: "unat (byte_of_char c) = of_char c"
proof -
  have "byte_of_char c = of_nat (of_char c)" by (simp add: byte_of_char_def of_nat_of_char)
  then show ?thesis by (simp add: unat_of_nat)
qed

lemma char_of_byte_of_char [simp]: "char_of_byte (byte_of_char c) = c"
  by (simp add: char_of_byte_def)

lemma byte_of_char_of_byte [simp]: "byte_of_char (char_of_byte b) = b"
proof -
  have "unat b < 256" using unsigned_less [of b, where ?'a = nat] by simp
  then have "unat (byte_of_char (char_of_byte b)) = unat b" by (simp add: char_of_byte_def)
  then show ?thesis by (simp add: word_unat_eq_iff)
qed

lemma byte_char_comp [simp]:
  "char_of_byte \<circ> byte_of_char = id" "byte_of_char \<circ> char_of_byte = id"
  by (simp_all add: fun_eq_iff)

lemma unat_of_nat_eq: "n < 2 ^ LENGTH('a) \<Longrightarrow> unat (word_of_nat n :: 'a :: len word) = n"
  by (simp add: unat_of_nat)

lemma string_of_bytes_of_string [simp]: "string_of_bytes (bytes_of_string s) = s"
  by (induction s) auto

lemma bytes_of_string_of_bytes [simp]: "bytes_of_string (string_of_bytes bs) = bs"
  by (induction bs) auto

section \<open>Containers and conversions\<close>

text \<open>\<open>resize\<close> of a string or a vector: cut, or filled up with zero elements.\<close>

definition resized :: "nat \<Rightarrow> 'a \<Rightarrow> 'a list \<Rightarrow> 'a list" where
  "resized n z xs = take n xs @ replicate (n - length xs) z"

lemma length_resized [simp]: "length (resized n z xs) = n"
  by (simp add: resized_def)

lemma resized_take: "n \<le> length xs \<Longrightarrow> resized n z xs = take n xs"
  by (simp add: resized_def)

text \<open>\<open>static_cast<int>\<close> of a size: the 32-bit two's complement reading.\<close>

definition int_of_size :: "nat \<Rightarrow> int" where
  "int_of_size n = sint (word_of_nat n :: 32 word)"

lemma int_of_size_small: "n < 2 ^ 31 \<Longrightarrow> int_of_size n = int n"
  by (simp add: int_of_size_def signed_of_nat signed_take_bit_int_eq_self)

text \<open>\<open>std::replace\<close> over a whole string.\<close>

definition replace_char :: "char \<Rightarrow> char \<Rightarrow> string \<Rightarrow> string" where
  "replace_char old new s = map (\<lambda>c. if c = old then new else c) s"

lemma length_replace_char [simp]: "length (replace_char old new s) = length s"
  by (simp add: replace_char_def)

lemma replace_char_append [simp]:
  "replace_char old new (s @ t) = replace_char old new s @ replace_char old new t"
  by (simp add: replace_char_def)

lemma replace_char_inverse: "new \<notin> set s \<Longrightarrow> replace_char new old (replace_char old new s) = s"
  by (induction s) (auto simp: replace_char_def)

lemma replace_char_commute:
  "distinct [a, b, c, d] \<Longrightarrow> replace_char a b (replace_char c d s) = replace_char c d (replace_char a b s)"
  by (induction s) (auto simp: replace_char_def)

lemma set_replace_char: "x \<in> set (replace_char old new s) \<Longrightarrow> x = new \<or> (x \<noteq> old \<and> x \<in> set s)"
  by (auto simp: replace_char_def split: if_splits)

end
