(* ===== verification/Contracts.thy ===== *)
theory Contracts
  imports MA2A_Prelude
begin

text \<open>
  The messages of \<open>contracts.hpp\<close>, one record per \<open>struct\<close>, with the fields in the order of the source.
  Time stamps are 64-bit words, read as signed; an empty default-initialised structure is what
  \<open>JobResult result;\<close> declares.  A \<open>double\<close> is its 64-bit pattern: no code of the library computes with the two
  fields of that type.
\<close>

datatype Scope = LocalOnly | Private | Organization | Public

record CapabilityAdvertisement =
  protocol_version :: string
  message_id :: string
  node_id :: string
  organization_id :: string
  sequence :: "64 word"
  issued_at :: int64
  expires_at :: int64
  available :: bool
  compute_capacity :: "64 word"
  current_load :: "64 word"
  models :: "string list"
  memory_domains :: "string list"
  supported_scopes :: "Scope list"
  signature_algorithm :: string
  signature :: string

record JobRequest =
  protocol_version :: string
  message_id :: string
  request_id :: string
  sender_node_id :: string
  target_node_id :: string
  organization_id :: string
  operation :: string
  payload :: string
  issued_at :: int64
  expires_at :: int64
  signature_algorithm :: string
  signature :: string

record JobResult =
  protocol_version :: string
  message_id :: string
  request_id :: string
  responder_node_id :: string
  recipient_node_id :: string
  status :: string
  payload :: string
  completed_at :: int64
  signature_algorithm :: string
  signature :: string

record FailureNotice =
  protocol_version :: string
  message_id :: string
  request_id :: string
  reporting_node_id :: string
  failed_node_id :: string
  reason :: string
  observed_at :: int64
  signature_algorithm :: string
  signature :: string

definition CapabilityAdvertisement_default :: CapabilityAdvertisement where
  "CapabilityAdvertisement_default = \<lparr>CapabilityAdvertisement.protocol_version = [],
     CapabilityAdvertisement.message_id = [], CapabilityAdvertisement.node_id = [],
     CapabilityAdvertisement.organization_id = [], sequence = 0, CapabilityAdvertisement.issued_at = 0,
     CapabilityAdvertisement.expires_at = 0, available = False, compute_capacity = 0, current_load = 0,
     models = [], memory_domains = [], supported_scopes = [],
     CapabilityAdvertisement.signature_algorithm = ''Ed25519'', CapabilityAdvertisement.signature = []\<rparr>"

definition JobRequest_default :: JobRequest where
  "JobRequest_default = \<lparr>JobRequest.protocol_version = [], JobRequest.message_id = [],
     JobRequest.request_id = [], sender_node_id = [], target_node_id = [], JobRequest.organization_id = [],
     operation = [], JobRequest.payload = [], JobRequest.issued_at = 0, JobRequest.expires_at = 0,
     JobRequest.signature_algorithm = ''Ed25519'', JobRequest.signature = []\<rparr>"

definition JobResult_default :: JobResult where
  "JobResult_default = \<lparr>JobResult.protocol_version = [], JobResult.message_id = [],
     JobResult.request_id = [], responder_node_id = [], recipient_node_id = [], status = [],
     JobResult.payload = [], completed_at = 0, JobResult.signature_algorithm = ''Ed25519'',
     JobResult.signature = []\<rparr>"

definition FailureNotice_default :: FailureNotice where
  "FailureNotice_default = \<lparr>FailureNotice.protocol_version = [], FailureNotice.message_id = [],
     FailureNotice.request_id = [], reporting_node_id = [], failed_node_id = [], reason = [],
     observed_at = 0, FailureNotice.signature_algorithm = ''Ed25519'',
     FailureNotice.signature = []\<rparr>"

end
