(* ===== verification/Canonical.thy ===== *)
theory Canonical
  imports Contracts
begin

text \<open>
  The canonical JSON of \<open>canonical.hpp\<close>: the string escaping of \<open>json_string\<close> and the signed payloads
  of a job request and a job result.  The concatenations follow the stream insertions of the source
  piece by piece.
\<close>

section \<open>JSON strings\<close>

text \<open>
  \<open>std::hex << std::setw(4) << std::setfill('0') << n\<close> for a byte \<open>n\<close>: lower-case hexadecimal, padded
  to four digits.
\<close>

definition hex_char :: "nat \<Rightarrow> char" where
  "hex_char d = (if d < 10 then char_of (48 + d) else char_of (87 + d))"

definition hex4 :: "nat \<Rightarrow> string" where
  "hex4 n = [hex_char (n div 4096 mod 16), hex_char (n div 256 mod 16),
             hex_char (n div 16 mod 16), hex_char (n mod 16)]"

text \<open>One round of the loop of \<open>json_string\<close>: what byte \<open>ch\<close> adds to the stream.\<close>

definition json_escape :: "char \<Rightarrow> string" where
  "json_escape ch =
     (if ch = CHR 0x22 then [CHR 0x5C, CHR 0x22]
      else if ch = CHR 0x5C then [CHR 0x5C, CHR 0x5C]
      else if ch = CHR 0x08 then [CHR 0x5C, CHR ''b'']
      else if ch = CHR 0x0C then [CHR 0x5C, CHR ''f'']
      else if ch = CHR 0x0A then [CHR 0x5C, CHR ''n'']
      else if ch = CHR 0x0D then [CHR 0x5C, CHR ''r'']
      else if ch = CHR 0x09 then [CHR 0x5C, CHR ''t'']
      else if (of_char ch :: nat) < 0x20 then [CHR 0x5C, CHR ''u''] @ hex4 (of_char ch)
      else [ch])"

definition json_string :: "string \<Rightarrow> string" where
  "json_string value = [CHR 0x22] @ concat (map json_escape value) @ [CHR 0x22]"

section \<open>Canonical messages\<close>

definition json_organization :: "string \<Rightarrow> string" where
  "json_organization org = (if org = [] then ''null'' else json_string org)"

definition canonical_job_request_json :: "JobRequest \<Rightarrow> string" where
  \<open>canonical_job_request_json job =
     ''{''
     @ ''"expires_at":'' @ dec_int64 (JobRequest.expires_at job) @ '',''
     @ ''"issued_at":'' @ dec_int64 (JobRequest.issued_at job) @ '',''
     @ ''"message_id":'' @ json_string (JobRequest.message_id job) @ '',''
     @ ''"operation":'' @ json_string (operation job) @ '',''
     @ ''"organization_id":'' @ json_organization (JobRequest.organization_id job) @ '',''
     @ ''"payload":'' @ json_string (JobRequest.payload job) @ '',''
     @ ''"protocol_version":'' @ json_string (JobRequest.protocol_version job) @ '',''
     @ ''"request_id":'' @ json_string (JobRequest.request_id job) @ '',''
     @ ''"sender_node_id":'' @ json_string (sender_node_id job) @ '',''
     @ ''"signature_algorithm":'' @ json_string (JobRequest.signature_algorithm job) @ '',''
     @ ''"target_node_id":'' @ json_string (target_node_id job)
     @ ''}''\<close>

definition canonical_job_result_json :: "JobResult \<Rightarrow> string" where
  \<open>canonical_job_result_json result =
     ''{''
     @ ''"completed_at":'' @ dec_int64 (completed_at result) @ '',''
     @ ''"message_id":'' @ json_string (JobResult.message_id result) @ '',''
     @ ''"payload":'' @ json_string (JobResult.payload result) @ '',''
     @ ''"protocol_version":'' @ json_string (JobResult.protocol_version result) @ '',''
     @ ''"recipient_node_id":'' @ json_string (recipient_node_id result) @ '',''
     @ ''"request_id":'' @ json_string (JobResult.request_id result) @ '',''
     @ ''"responder_node_id":'' @ json_string (responder_node_id result) @ '',''
     @ ''"signature_algorithm":'' @ json_string (JobResult.signature_algorithm result) @ '',''
     @ ''"status":'' @ json_string (status result)
     @ ''}''\<close>

section \<open>Shape of the escapes\<close>

lemma of_hex_char: "d < 16 \<Longrightarrow> (of_char (hex_char d) :: nat) = (if d < 10 then 48 + d else 87 + d)"
  by (simp add: hex_char_def)

lemma json_escape_nonempty [simp]: "json_escape ch \<noteq> []"
  by (simp add: json_escape_def)

text \<open>
  A byte is either copied, when it is neither a control character nor a quote nor a backslash, or
  written as an escape that starts with a backslash.
\<close>

lemma json_escape_cases:
  obtains (plain) "json_escape ch = [ch]" "ch \<noteq> CHR 0x22" "ch \<noteq> CHR 0x5C" "0x20 \<le> (of_char ch :: nat)"
  | (short) e where "json_escape ch = [CHR 0x5C, e]"
      "(e, ch) \<in> {(CHR 0x22, CHR 0x22), (CHR 0x5C, CHR 0x5C), (CHR ''b'', CHR 0x08),
        (CHR ''f'', CHR 0x0C), (CHR ''n'', CHR 0x0A), (CHR ''r'', CHR 0x0D), (CHR ''t'', CHR 0x09)}"
  | (unicode) "json_escape ch = [CHR 0x5C, CHR ''u''] @ hex4 (of_char ch)" "(of_char ch :: nat) < 0x20"
proof (cases "ch \<in> {CHR 0x22, CHR 0x5C, CHR 0x08, CHR 0x0C, CHR 0x0A, CHR 0x0D, CHR 0x09}")
  case True
  then show ?thesis using short by (auto simp: json_escape_def)
next
  case False
  show ?thesis
  proof (cases "(of_char ch :: nat) < 0x20")
    case True
    with False show ?thesis using unicode by (simp add: json_escape_def)
  next
    case big: False
    with False show ?thesis using plain by (simp add: json_escape_def)
  qed
qed

end
