(* ===== verification/Wire.thy ===== *)
theory Wire
  imports Canonical
begin

text \<open>
  The messages as they travel: the signed payloads and the envelopes of \<open>wire.hpp\<close>, and the JSON side
  of \<open>failure_notice.hpp\<close> (canonical payload, signed payload, envelope).
\<close>

section \<open>Job request and job result\<close>

definition signed_job_request_json :: "JobRequest \<Rightarrow> string" where
  \<open>signed_job_request_json job =
     ''{''
     @ ''"expires_at":'' @ dec_int64 (JobRequest.expires_at job) @ '',''
     @ ''"issued_at":'' @ dec_int64 (JobRequest.issued_at job) @ '',''
     @ ''"message_id":'' @ json_string (JobRequest.message_id job) @ '',''
     @ ''"operation":'' @ json_string (operation job) @ '',''
     @ ''"organization_id":'' @ json_organization (JobRequest.organization_id job) @ '',''
     @ ''"payload":'' @ json_string (JobRequest.payload job) @ '',''
     @ ''"protocol_version":'' @ json_string (JobRequest.protocol_version job) @ '',''
     @ ''"request_id":'' @ json_string (JobRequest.request_id job) @ '',''
     @ ''"sender_node_id":'' @ json_string (sender_node_id job) @ '',''
     @ ''"signature":'' @ json_string (JobRequest.signature job) @ '',''
     @ ''"signature_algorithm":'' @ json_string (JobRequest.signature_algorithm job) @ '',''
     @ ''"target_node_id":'' @ json_string (target_node_id job)
     @ ''}''\<close>

definition signed_job_result_json :: "JobResult \<Rightarrow> string" where
  \<open>signed_job_result_json result =
     ''{''
     @ ''"completed_at":'' @ dec_int64 (completed_at result) @ '',''
     @ ''"message_id":'' @ json_string (JobResult.message_id result) @ '',''
     @ ''"payload":'' @ json_string (JobResult.payload result) @ '',''
     @ ''"protocol_version":'' @ json_string (JobResult.protocol_version result) @ '',''
     @ ''"recipient_node_id":'' @ json_string (recipient_node_id result) @ '',''
     @ ''"request_id":'' @ json_string (JobResult.request_id result) @ '',''
     @ ''"responder_node_id":'' @ json_string (responder_node_id result) @ '',''
     @ ''"signature":'' @ json_string (JobResult.signature result) @ '',''
     @ ''"signature_algorithm":'' @ json_string (JobResult.signature_algorithm result) @ '',''
     @ ''"status":'' @ json_string (status result)
     @ ''}''\<close>

definition job_request_envelope_json :: "JobRequest \<Rightarrow> string" where
  \<open>job_request_envelope_json job =
     ''{"payload":'' @ signed_job_request_json job @ '',"type":"JOB_REQUEST"}''\<close>

definition job_result_envelope_json :: "JobResult \<Rightarrow> string" where
  \<open>job_result_envelope_json result =
     ''{"payload":'' @ signed_job_result_json result @ '',"type":"JOB_RESULT"}''\<close>

section \<open>Failure notice\<close>

definition canonical_failure_notice_json :: "FailureNotice \<Rightarrow> string" where
  \<open>canonical_failure_notice_json notice =
     ''{''
     @ ''"failed_node_id":'' @ json_string (failed_node_id notice) @ '',''
     @ ''"message_id":'' @ json_string (FailureNotice.message_id notice) @ '',''
     @ ''"observed_at":'' @ dec_int64 (observed_at notice) @ '',''
     @ ''"protocol_version":'' @ json_string (FailureNotice.protocol_version notice) @ '',''
     @ ''"reason":'' @ json_string (reason notice) @ '',''
     @ ''"reporting_node_id":'' @ json_string (reporting_node_id notice) @ '',''
     @ ''"request_id":'' @ json_string (FailureNotice.request_id notice) @ '',''
     @ ''"signature_algorithm":'' @ json_string (FailureNotice.signature_algorithm notice)
     @ ''}''\<close>

definition signed_failure_notice_json :: "FailureNotice \<Rightarrow> string" where
  \<open>signed_failure_notice_json notice =
     ''{''
     @ ''"failed_node_id":'' @ json_string (failed_node_id notice) @ '',''
     @ ''"message_id":'' @ json_string (FailureNotice.message_id notice) @ '',''
     @ ''"observed_at":'' @ dec_int64 (observed_at notice) @ '',''
     @ ''"protocol_version":'' @ json_string (FailureNotice.protocol_version notice) @ '',''
     @ ''"reason":'' @ json_string (reason notice) @ '',''
     @ ''"reporting_node_id":'' @ json_string (reporting_node_id notice) @ '',''
     @ ''"request_id":'' @ json_string (FailureNotice.request_id notice) @ '',''
     @ ''"signature":'' @ json_string (FailureNotice.signature notice) @ '',''
     @ ''"signature_algorithm":'' @ json_string (FailureNotice.signature_algorithm notice)
     @ ''}''\<close>

definition failure_notice_envelope_json :: "FailureNotice \<Rightarrow> string" where
  \<open>failure_notice_envelope_json notice =
     ''{"payload":'' @ signed_failure_notice_json notice @ '',"type":"FAILURE_NOTICE"}''\<close>

end
