(* ===== verification/Wire_Parse.thy ===== *)
theory Wire_Parse
  imports Wire
begin

unbundle bit_operations_syntax

text \<open>
  The receiving side, \<open>wire_parse.hpp\<close>: UTF-8 output, the flat JSON reader (a position in a string),
  the envelope splitter and the two message parsers.  The reader is a record of the string and the
  position, and every method returns the reader it leaves behind.
\<close>

section \<open>Code points and hexadecimal digits\<close>

text \<open>\<open>static_cast<char>\<close> of a 32-bit value keeps the low eight bits, as \<^const>\<open>char_of\<close> does.\<close>

definition push_char :: "string \<Rightarrow> uint32 \<Rightarrow> string" where
  "push_char out w = out @ [char_of (unat w)]"

definition append_utf8 :: "string \<Rightarrow> uint32 \<Rightarrow> string outcome" where
  "append_utf8 out cp =
     (if cp \<le> 0x7f then Return (push_char out cp)
      else if cp \<le> 0x7ff then
        Return (push_char (push_char out (0xc0 OR drop_bit 6 cp)) (0x80 OR (cp AND 0x3f)))
      else if cp \<le> 0xffff then
        Return (push_char (push_char (push_char out (0xe0 OR drop_bit 12 cp))
          (0x80 OR (drop_bit 6 cp AND 0x3f))) (0x80 OR (cp AND 0x3f)))
      else if cp \<le> 0x10ffff then
        Return (push_char (push_char (push_char (push_char out (0xf0 OR drop_bit 18 cp))
          (0x80 OR (drop_bit 12 cp AND 0x3f))) (0x80 OR (drop_bit 6 cp AND 0x3f)))
          (0x80 OR (cp AND 0x3f)))
      else Throw (Invalid_Argument ''invalid unicode code point''))"

text \<open>
  Comparisons with ASCII characters have the same truth value whether \<open>char\<close> is signed or not, so
  they are written on the byte value.
\<close>

definition hex_digit :: "char \<Rightarrow> int outcome" where
  "hex_digit ch = (let c = of_char ch :: int in
     if 48 \<le> c \<and> c \<le> 57 then Return (c - 48)
     else if 97 \<le> c \<and> c \<le> 102 then Return (10 + (c - 97))
     else if 65 \<le> c \<and> c \<le> 70 then Return (10 + (c - 65))
     else Throw (Invalid_Argument ''invalid unicode escape''))"

section \<open>The flat JSON reader\<close>

record FlatJsonReader =
  reader_json :: string
  reader_pos :: nat

definition FlatJsonReader_new :: "string \<Rightarrow> FlatJsonReader" where
  "FlatJsonReader_new json = \<lparr>reader_json = json, reader_pos = 0\<rparr>"

definition at_end :: "FlatJsonReader \<Rightarrow> bool" where
  "at_end r \<longleftrightarrow> reader_pos r \<ge> length (reader_json r)"

definition cur :: "FlatJsonReader \<Rightarrow> char" where
  "cur r = reader_json r ! reader_pos r"

definition advance :: "nat \<Rightarrow> FlatJsonReader \<Rightarrow> FlatJsonReader" where
  "advance n r = r\<lparr>reader_pos := reader_pos r + n\<rparr>"

definition expect :: "char \<Rightarrow> FlatJsonReader \<Rightarrow> FlatJsonReader outcome" where
  "expect ch r =
     (if at_end r \<or> cur r \<noteq> ch then Throw (Invalid_Argument ''unexpected JSON token'')
      else Return (advance 1 r))"

text \<open>The loop of \<open>unicode_unit\<close>, with the number of rounds left.\<close>

fun unicode_digits :: "nat \<Rightarrow> uint32 \<Rightarrow> FlatJsonReader \<Rightarrow> (uint32 \<times> FlatJsonReader) outcome" where
  "unicode_digits 0 val r = Return (val, r)"
| "unicode_digits (Suc n) val r =
     bind (hex_digit (cur r)) (\<lambda>d.
       unicode_digits n (push_bit 4 val OR word_of_int d) (advance 1 r))"

definition unicode_unit :: "FlatJsonReader \<Rightarrow> (uint32 \<times> FlatJsonReader) outcome" where
  "unicode_unit r =
     (if reader_pos r + 4 > length (reader_json r) then Throw (Invalid_Argument ''truncated unicode escape'')
      else unicode_digits 4 0 r)"

text \<open>The case \<open>'u'\<close> of the escape switch: one unit, or a surrogate pair, as UTF-8.\<close>

definition low_surrogate :: "uint32 \<Rightarrow> FlatJsonReader \<Rightarrow> (uint32 \<times> FlatJsonReader) outcome" where
  "low_surrogate first r =
     (if reader_pos r + 2 > length (reader_json r) \<or> reader_json r ! reader_pos r \<noteq> CHR 0x5C
         \<or> reader_json r ! (reader_pos r + 1) \<noteq> CHR ''u''
      then Throw (Invalid_Argument ''missing low surrogate'')
      else bind (unicode_unit (advance 2 r)) (\<lambda>(second, r).
        if second < 0xdc00 \<or> second > 0xdfff
        then Throw (Invalid_Argument ''invalid low surrogate'')
        else Return (0x10000 + push_bit 10 (first - 0xd800) + (second - 0xdc00), r)))"

definition unicode_escape :: "string \<Rightarrow> FlatJsonReader \<Rightarrow> (string \<times> FlatJsonReader) outcome" where
  "unicode_escape out r =
     bind (unicode_unit r) (\<lambda>(first, r).
     bind (if 0xd800 \<le> first \<and> first \<le> 0xdbff then low_surrogate first r
           else if 0xdc00 \<le> first \<and> first \<le> 0xdfff
           then Throw (Invalid_Argument ''unexpected low surrogate'')
           else Return (first, r)) (\<lambda>(cp, r).
     bind (append_utf8 out cp) (\<lambda>out. Return (out, r))))"

text \<open>The switch on the character after a backslash, already consumed.\<close>

definition read_escape :: "char \<Rightarrow> string \<Rightarrow> FlatJsonReader \<Rightarrow> (string \<times> FlatJsonReader) outcome" where
  "read_escape esc out r =
     (if esc = CHR 0x22 then Return (out @ [CHR 0x22], r)
      else if esc = CHR 0x5C then Return (out @ [CHR 0x5C], r)
      else if esc = CHR ''/'' then Return (out @ [CHR ''/''], r)
      else if esc = CHR ''b'' then Return (out @ [CHR 0x08], r)
      else if esc = CHR ''f'' then Return (out @ [CHR 0x0C], r)
      else if esc = CHR ''n'' then Return (out @ [CHR 0x0A], r)
      else if esc = CHR ''r'' then Return (out @ [CHR 0x0D], r)
      else if esc = CHR ''t'' then Return (out @ [CHR 0x09], r)
      else if esc = CHR ''u'' then unicode_escape out r
      else Throw (Invalid_Argument ''unsupported JSON escape''))"

lemma unicode_digits_pos:
  "unicode_digits n v r = Return (x, r') \<Longrightarrow> reader_json r' = reader_json r \<and> reader_pos r' = reader_pos r + n"
proof (induction n arbitrary: v r)
  case (Suc n)
  then show ?case by (auto simp: bind_eq_Return advance_def)
qed simp

lemma unicode_unit_pos:
  "unicode_unit r = Return (x, r') \<Longrightarrow> reader_json r' = reader_json r \<and> reader_pos r' = reader_pos r + 4"
  by (auto simp: unicode_unit_def dest: unicode_digits_pos split: if_splits)

lemma low_surrogate_pos:
  assumes "low_surrogate first r = Return (x, r')"
  shows "reader_json r' = reader_json r \<and> reader_pos r < reader_pos r'"
proof -
  from assms obtain y where "unicode_unit (advance 2 r) = Return (y, r')"
    unfolding low_surrogate_def by (auto split: if_splits elim!: bind_ReturnE)
  from unicode_unit_pos [OF this] show ?thesis by (simp add: advance_def)
qed

lemma unicode_escape_pos:
  assumes "unicode_escape out r = Return (x, r')"
  shows "reader_json r' = reader_json r \<and> reader_pos r < reader_pos r'"
proof -
  from assms obtain first r1 where u: "unicode_unit r = Return (first, r1)"
    and c: "(\<exists>cp. low_surrogate first r1 = Return (cp, r')) \<or> r' = r1"
    unfolding unicode_escape_def by (auto split: if_splits elim!: bind_ReturnE)
  from unicode_unit_pos [OF u] c show ?thesis
    by (auto dest: low_surrogate_pos)
qed

lemma read_escape_pos:
  "read_escape esc out r = Return (x, r') \<Longrightarrow> reader_json r' = reader_json r \<and> reader_pos r \<le> reader_pos r'"
  by (auto simp: read_escape_def dest!: unicode_escape_pos split: if_splits)

text \<open>The \<open>while\<close> loop of \<open>string()\<close>.\<close>

function string_loop :: "string \<Rightarrow> FlatJsonReader \<Rightarrow> (string \<times> FlatJsonReader) outcome" where
  "string_loop out r =
     (if at_end r then Throw (Invalid_Argument ''unterminated JSON string'')
      else let ch = cur r; r = advance 1 r in
        if ch = CHR 0x22 then Return (out, r)
        else if ch \<noteq> CHR 0x5C then
          (if (of_char ch :: nat) < 0x20 then Throw (Invalid_Argument ''invalid control character'')
           else string_loop (out @ [ch]) r)
        else if at_end r then Throw (Invalid_Argument ''truncated JSON escape'')
        else bind (read_escape (cur r) out (advance 1 r)) (\<lambda>(out, r). string_loop out r))"
  by pat_completeness auto
termination
  by (relation "measure (\<lambda>(out, r). length (reader_json r) - reader_pos r)")
    (auto simp: at_end_def advance_def dest!: read_escape_pos)

declare string_loop.simps [simp del]

definition read_string :: "FlatJsonReader \<Rightarrow> (string \<times> FlatJsonReader) outcome" where
  \<open>read_string r = bind (expect (CHR 0x22) r) (\<lambda>r. string_loop [] r)\<close>

definition key :: "string \<Rightarrow> FlatJsonReader \<Rightarrow> FlatJsonReader outcome" where
  "key expected r = bind (read_string r) (\<lambda>(actual, r).
     if actual \<noteq> expected then Throw (Invalid_Argument ''unexpected JSON key'')
     else expect (CHR '':'') r)"

text \<open>The digit loop of \<open>integer()\<close>: \<open>value * 10 + digit\<close> on \<open>std::int64_t\<close>.\<close>

function integer_loop :: "int64 \<Rightarrow> FlatJsonReader \<Rightarrow> (int64 \<times> FlatJsonReader) outcome" where
  "integer_loop val r =
     (if \<not> at_end r \<and> is_digit (cur r) then
        bind (i64_mul val 10) (\<lambda>t. bind (i64_add t (of_nat (digit_val (cur r)))) (\<lambda>val.
          integer_loop val (advance 1 r)))
      else Return (val, r))"
  by pat_completeness auto
termination
  by (relation "measure (\<lambda>(val, r). length (reader_json r) - reader_pos r)") (auto simp: at_end_def advance_def)

declare integer_loop.simps [simp del]

definition integer :: "FlatJsonReader \<Rightarrow> (int64 \<times> FlatJsonReader) outcome" where
  "integer r =
     (if at_end r then Throw (Invalid_Argument ''missing integer'')
      else let negative = (cur r = CHR ''-''); r = (if negative then advance 1 r else r) in
        if at_end r \<or> \<not> is_digit (cur r) then Throw (Invalid_Argument ''invalid integer'')
        else bind (integer_loop 0 r) (\<lambda>(val, r).
          if negative then bind (i64_neg val) (\<lambda>v. Return (v, r)) else Return (val, r)))"

definition reader_done :: "FlatJsonReader \<Rightarrow> bool" where
  "reader_done r \<longleftrightarrow> reader_pos r = length (reader_json r)"

section \<open>Envelopes\<close>

text \<open>
  The scan for the end of the payload object: index, string and escape flags, brace depth.  The
  result is \<open>payload_end\<close>, with \<open>npos\<close> as \<open>None\<close>.
\<close>

function scan_payload :: "string \<Rightarrow> nat \<Rightarrow> bool \<Rightarrow> bool \<Rightarrow> int \<Rightarrow> nat option outcome" where
  "scan_payload json i in_string escaped depth =
     (if i < length json then
        let ch = json ! i in
        if in_string then
          (if escaped then scan_payload json (i + 1) in_string False depth
           else if ch = CHR 0x5C then scan_payload json (i + 1) in_string True depth
           else if ch = CHR 0x22 then scan_payload json (i + 1) False escaped depth
           else scan_payload json (i + 1) in_string escaped depth)
        else if ch = CHR 0x22 then scan_payload json (i + 1) True escaped depth
        else if ch = CHR ''{'' then scan_payload json (i + 1) in_string escaped (depth + 1)
        else if ch = CHR ''}'' then
          (if depth - 1 = 0 then Return (Some i)
           else if depth - 1 < 0 then Throw (Invalid_Argument ''invalid envelope nesting'')
           else scan_payload json (i + 1) in_string escaped (depth - 1))
        else scan_payload json (i + 1) in_string escaped depth
      else Return None)"
  by pat_completeness auto
termination
  by (relation "measure (\<lambda>(json, i, _). length json - i)") auto

declare scan_payload.simps [simp del]

definition envelope_prefix :: string where
  \<open>envelope_prefix = ''{"payload":''\<close>

definition type_prefix :: string where
  \<open>type_prefix = '',"type":"''\<close>

definition split_envelope :: "string \<Rightarrow> (string \<times> string) outcome" where
  "split_envelope json =
     (if length json \<le> length envelope_prefix \<or> \<not> starts_with envelope_prefix json
      then Throw (Invalid_Argument ''invalid MA2A envelope'')
      else let payload_start = length envelope_prefix in
        if json ! payload_start \<noteq> CHR ''{''
        then Throw (Invalid_Argument ''payload must be an object'')
        else bind (scan_payload json payload_start False False 0) (\<lambda>payload_end.
          case payload_end of
            None \<Rightarrow> Throw (Invalid_Argument ''unterminated envelope payload'')
          | Some payload_end \<Rightarrow>
              let suffix = drop (payload_end + 1) json in
              if length suffix < length type_prefix + 2 \<or> \<not> starts_with type_prefix suffix
                 \<or> last suffix \<noteq> CHR ''}''
              then Throw (Invalid_Argument ''invalid envelope type'')
              else (case find_from (CHR 0x22) suffix (length type_prefix) of
                None \<Rightarrow> Throw (Invalid_Argument ''invalid envelope suffix'')
              | Some quote \<Rightarrow>
                  if quote + 2 \<noteq> length suffix
                  then Throw (Invalid_Argument ''invalid envelope suffix'')
                  else Return
                    (take (payload_end - payload_start + 1) (drop payload_start json),
                     take (quote - length type_prefix) (drop (length type_prefix) suffix)))))"

definition wire_envelope_type :: "string \<Rightarrow> string outcome" where
  "wire_envelope_type json = map_outcome snd (split_envelope json)"

section \<open>Messages\<close>

text \<open>\<open>r.key(k); v = r.string();\<close> and \<open>r.key(k); v = r.integer();\<close>\<close>

definition string_field :: "string \<Rightarrow> FlatJsonReader \<Rightarrow> (string \<times> FlatJsonReader) outcome" where
  "string_field k r = bind (key k r) read_string"

definition integer_field :: "string \<Rightarrow> FlatJsonReader \<Rightarrow> (int64 \<times> FlatJsonReader) outcome" where
  "integer_field k r = bind (key k r) integer"

definition read_job_result :: "FlatJsonReader \<Rightarrow> (JobResult \<times> FlatJsonReader) outcome" where
  "read_job_result r =
     (let result = JobResult_default in
      bind (expect (CHR ''{'') r) (\<lambda>r.
      bind (integer_field ''completed_at'' r) (\<lambda>(v, r).
      let result = result\<lparr>completed_at := v\<rparr> in bind (expect (CHR '','') r) (\<lambda>r.
      bind (string_field ''message_id'' r) (\<lambda>(v, r).
      let result = result\<lparr>JobResult.message_id := v\<rparr> in bind (expect (CHR '','') r) (\<lambda>r.
      bind (string_field ''payload'' r) (\<lambda>(v, r).
      let result = result\<lparr>JobResult.payload := v\<rparr> in bind (expect (CHR '','') r) (\<lambda>r.
      bind (string_field ''protocol_version'' r) (\<lambda>(v, r).
      let result = result\<lparr>JobResult.protocol_version := v\<rparr> in bind (expect (CHR '','') r) (\<lambda>r.
      bind (string_field ''recipient_node_id'' r) (\<lambda>(v, r).
      let result = result\<lparr>recipient_node_id := v\<rparr> in bind (expect (CHR '','') r) (\<lambda>r.
      bind (string_field ''request_id'' r) (\<lambda>(v, r).
      let result = result\<lparr>JobResult.request_id := v\<rparr> in bind (expect (CHR '','') r) (\<lambda>r.
      bind (string_field ''responder_node_id'' r) (\<lambda>(v, r).
      let result = result\<lparr>responder_node_id := v\<rparr> in bind (expect (CHR '','') r) (\<lambda>r.
      bind (string_field ''signature'' r) (\<lambda>(v, r).
      let result = result\<lparr>JobResult.signature := v\<rparr> in bind (expect (CHR '','') r) (\<lambda>r.
      bind (string_field ''signature_algorithm'' r) (\<lambda>(v, r).
      let result = result\<lparr>JobResult.signature_algorithm := v\<rparr> in bind (expect (CHR '','') r) (\<lambda>r.
      bind (string_field ''status'' r) (\<lambda>(v, r).
      let result = result\<lparr>status := v\<rparr> in
      bind (expect (CHR ''}'') r) (\<lambda>r. Return (result, r)))))))))))))))))))))))"

definition parse_job_result_envelope_json :: "string \<Rightarrow> JobResult outcome" where
  "parse_job_result_envelope_json json =
     bind (split_envelope json) (\<lambda>(payload, type).
       if type \<noteq> ''JOB_RESULT'' then Throw (Invalid_Argument ''expected JOB_RESULT envelope'')
       else bind (read_job_result (FlatJsonReader_new payload)) (\<lambda>(result, r).
         if \<not> reader_done r then Throw (Invalid_Argument ''trailing JOB_RESULT data'')
         else Return result))"

definition read_failure_notice :: "FlatJsonReader \<Rightarrow> (FailureNotice \<times> FlatJsonReader) outcome" where
  "read_failure_notice r =
     (let notice = FailureNotice_default in
      bind (expect (CHR ''{'') r) (\<lambda>r.
      bind (string_field ''failed_node_id'' r) (\<lambda>(v, r).
      let notice = notice\<lparr>failed_node_id := v\<rparr> in bind (expect (CHR '','') r) (\<lambda>r.
      bind (string_field ''message_id'' r) (\<lambda>(v, r).
      let notice = notice\<lparr>FailureNotice.message_id := v\<rparr> in bind (expect (CHR '','') r) (\<lambda>r.
      bind (integer_field ''observed_at'' r) (\<lambda>(v, r).
      let notice = notice\<lparr>observed_at := v\<rparr> in bind (expect (CHR '','') r) (\<lambda>r.
      bind (string_field ''protocol_version'' r) (\<lambda>(v, r).
      let notice = notice\<lparr>FailureNotice.protocol_version := v\<rparr> in bind (expect (CHR '','') r) (\<lambda>r.
      bind (string_field ''reason'' r) (\<lambda>(v, r).
      let notice = notice\<lparr>reason := v\<rparr> in bind (expect (CHR '','') r) (\<lambda>r.
      bind (string_field ''reporting_node_id'' r) (\<lambda>(v, r).
      let notice = notice\<lparr>reporting_node_id := v\<rparr> in bind (expect (CHR '','') r) (\<lambda>r.
      bind (string_field ''request_id'' r) (\<lambda>(v, r).
      let notice = notice\<lparr>FailureNotice.request_id := v\<rparr> in bind (expect (CHR '','') r) (\<lambda>r.
      bind (string_field ''signature'' r) (\<lambda>(v, r).
      let notice = notice\<lparr>FailureNotice.signature := v\<rparr> in bind (expect (CHR '','') r) (\<lambda>r.
      bind (string_field ''signature_algorithm'' r) (\<lambda>(v, r).
      let notice = notice\<lparr>FailureNotice.signature_algorithm := v\<rparr> in
      bind (expect (CHR ''}'') r) (\<lambda>r. Return (notice, r)))))))))))))))))))))"

definition parse_failure_notice_envelope_json :: "string \<Rightarrow> FailureNotice outcome" where
  "parse_failure_notice_envelope_json json =
     bind (split_envelope json) (\<lambda>(payload, type).
       if type \<noteq> ''FAILURE_NOTICE'' then Throw (Invalid_Argument ''expected FAILURE_NOTICE envelope'')
       else bind (read_failure_notice (FlatJsonReader_new payload)) (\<lambda>(notice, r).
         if \<not> reader_done r then Throw (Invalid_Argument ''trailing FAILURE_NOTICE data'')
         else Return notice))"

end
