(* ===== verification/Reader_Spec.thy ===== *)
theory Reader_Spec
  imports Wire_Parse "HOL-Library.Sublist"
begin

unbundle bit_operations_syntax

text \<open>
  A specification of the flat JSON reader without positions: each operation consumes a prefix of the
  remaining input and returns what is left.  The reader of the source, which moves an index through
  a fixed string, refines it operation by operation, so that everything about parsing can be proved
  on lists.
\<close>

section \<open>The reader on the remaining input\<close>

fun spec_expect :: "char \<Rightarrow> string \<Rightarrow> string outcome" where
  "spec_expect ch [] = Throw (Invalid_Argument ''unexpected JSON token'')"
| "spec_expect ch (c # s) =
     (if c \<noteq> ch then Throw (Invalid_Argument ''unexpected JSON token'') else Return s)"

fun spec_digits :: "nat \<Rightarrow> uint32 \<Rightarrow> string \<Rightarrow> (uint32 \<times> string) outcome" where
  "spec_digits 0 val s = Return (val, s)"
| "spec_digits (Suc n) val [] = Throw (Invalid_Argument ''truncated unicode escape'')"
| "spec_digits (Suc n) val (c # s) =
     bind (hex_digit c) (\<lambda>d. spec_digits n (push_bit 4 val OR word_of_int d) s)"

definition spec_unit :: "string \<Rightarrow> (uint32 \<times> string) outcome" where
  "spec_unit s =
     (if length s < 4 then Throw (Invalid_Argument ''truncated unicode escape'')
      else spec_digits 4 0 s)"

fun spec_low :: "uint32 \<Rightarrow> string \<Rightarrow> (uint32 \<times> string) outcome" where
  "spec_low first (b # u # t) =
     (if b \<noteq> CHR 0x5C \<or> u \<noteq> CHR ''u'' then Throw (Invalid_Argument ''missing low surrogate'')
      else bind (spec_unit t) (\<lambda>(second, s).
        if second < 0xdc00 \<or> second > 0xdfff
        then Throw (Invalid_Argument ''invalid low surrogate'')
        else Return (0x10000 + push_bit 10 (first - 0xd800) + (second - 0xdc00), s)))"
| "spec_low first s = Throw (Invalid_Argument ''missing low surrogate'')"

definition spec_unicode :: "string \<Rightarrow> string \<Rightarrow> (string \<times> string) outcome" where
  "spec_unicode out s =
     bind (spec_unit s) (\<lambda>(first, s).
     bind (if 0xd800 \<le> first \<and> first \<le> 0xdbff then spec_low first s
           else if 0xdc00 \<le> first \<and> first \<le> 0xdfff
           then Throw (Invalid_Argument ''unexpected low surrogate'')
           else Return (first, s)) (\<lambda>(cp, s).
     bind (append_utf8 out cp) (\<lambda>out. Return (out, s))))"

definition spec_escape :: "char \<Rightarrow> string \<Rightarrow> string \<Rightarrow> (string \<times> string) outcome" where
  "spec_escape esc out s =
     (if esc = CHR 0x22 then Return (out @ [CHR 0x22], s)
      else if esc = CHR 0x5C then Return (out @ [CHR 0x5C], s)
      else if esc = CHR ''/'' then Return (out @ [CHR ''/''], s)
      else if esc = CHR ''b'' then Return (out @ [CHR 0x08], s)
      else if esc = CHR ''f'' then Return (out @ [CHR 0x0C], s)
      else if esc = CHR ''n'' then Return (out @ [CHR 0x0A], s)
      else if esc = CHR ''r'' then Return (out @ [CHR 0x0D], s)
      else if esc = CHR ''t'' then Return (out @ [CHR 0x09], s)
      else if esc = CHR ''u'' then spec_unicode out s
      else Throw (Invalid_Argument ''unsupported JSON escape''))"

section \<open>Every operation leaves a suffix of its input\<close>

lemma spec_expect_suffix: "spec_expect ch s = Return s' \<Longrightarrow> strict_suffix s' s"
  by (cases s) (auto simp: strict_suffix_def suffix_Cons split: if_splits)

lemma spec_digits_suffix: "spec_digits n v s = Return (x, s') \<Longrightarrow> suffix s' s"
proof (induction n v s rule: spec_digits.induct)
  case (3 n v c s)
  then show ?case by (auto elim!: bind_ReturnE intro: suffix_ConsI)
qed auto

lemma spec_unit_suffix: "spec_unit s = Return (x, s') \<Longrightarrow> suffix s' s"
  by (auto simp: spec_unit_def dest: spec_digits_suffix split: if_splits)

lemma suffix_consumed: "suffix s' s1 \<Longrightarrow> suffix s1 s \<Longrightarrow> suffix s' s"
  by (rule suffix_order.trans)

lemma strict_suffix_suffix: "strict_suffix s' s \<Longrightarrow> suffix s' s"
  by (simp add: strict_suffix_def)

lemma spec_low_suffix: "spec_low first s = Return (x, s') \<Longrightarrow> suffix s' s"
proof (induction first s rule: spec_low.induct)
  case (1 first b u t)
  then have "\<exists>y. spec_unit t = Return (y, s')"
    by (auto split: if_splits elim!: bind_ReturnE)
  then have "suffix s' t" by (auto dest: spec_unit_suffix)
  then show ?case by (simp add: suffix_ConsI)
qed simp_all

lemma spec_unicode_suffix:
  assumes "spec_unicode out s = Return (x, s')"
  shows "suffix s' s"
proof -
  from assms obtain first s1 where u: "spec_unit s = Return (first, s1)"
    and c: "(\<exists>cp. spec_low first s1 = Return (cp, s')) \<or> s' = s1"
    unfolding spec_unicode_def by (auto split: if_splits elim!: bind_ReturnE)
  from c have "suffix s' s1" by (auto dest: spec_low_suffix)
  then show ?thesis using spec_unit_suffix [OF u] by (rule suffix_consumed)
qed

lemma spec_escape_suffix: "spec_escape esc out s = Return (x, s') \<Longrightarrow> suffix s' s"
  by (auto simp: spec_escape_def dest: spec_unicode_suffix split: if_splits)

lemma suffix_length_less_Suc [termination_simp]: "suffix s' s \<Longrightarrow> length s' < Suc (length s)"
  by (simp add: suffix_length_le le_imp_less_Suc)

section \<open>Strings, keys, integers\<close>

function spec_string :: "string \<Rightarrow> string \<Rightarrow> (string \<times> string) outcome" where
  "spec_string out [] = Throw (Invalid_Argument ''unterminated JSON string'')"
| "spec_string out (c # s) =
     (if c = CHR 0x22 then Return (out, s)
      else if c \<noteq> CHR 0x5C then
        (if (of_char c :: nat) < 0x20 then Throw (Invalid_Argument ''invalid control character'')
         else spec_string (out @ [c]) s)
      else case s of
          [] \<Rightarrow> Throw (Invalid_Argument ''truncated JSON escape'')
        | e # t \<Rightarrow> bind (spec_escape e out t) (\<lambda>(out, s). spec_string out s))"
  by pat_completeness auto
termination
  by (relation "measure (\<lambda>(out, s). length s)")
    (auto dest!: spec_escape_suffix suffix_length_le)

definition spec_read_string :: "string \<Rightarrow> (string \<times> string) outcome" where
  "spec_read_string s = bind (spec_expect (CHR 0x22) s) (\<lambda>s. spec_string [] s)"

definition spec_key :: "string \<Rightarrow> string \<Rightarrow> string outcome" where
  "spec_key expected s = bind (spec_read_string s) (\<lambda>(actual, s).
     if actual \<noteq> expected then Throw (Invalid_Argument ''unexpected JSON key'')
     else spec_expect (CHR '':'') s)"

fun spec_integer_loop :: "int64 \<Rightarrow> string \<Rightarrow> (int64 \<times> string) outcome" where
  "spec_integer_loop val [] = Return (val, [])"
| "spec_integer_loop val (c # s) =
     (if is_digit c then
        bind (i64_mul val 10) (\<lambda>t. bind (i64_add t (of_nat (digit_val c))) (\<lambda>val.
          spec_integer_loop val s))
      else Return (val, c # s))"

text \<open>The integer after the optional sign.\<close>

definition spec_unsigned :: "bool \<Rightarrow> string \<Rightarrow> (int64 \<times> string) outcome" where
  "spec_unsigned negative s =
     (case s of
        [] \<Rightarrow> Throw (Invalid_Argument ''invalid integer'')
      | c # t \<Rightarrow>
          if \<not> is_digit c then Throw (Invalid_Argument ''invalid integer'')
          else bind (spec_integer_loop 0 s) (\<lambda>(val, s).
            if negative then bind (i64_neg val) (\<lambda>v. Return (v, s)) else Return (val, s)))"

definition spec_integer :: "string \<Rightarrow> (int64 \<times> string) outcome" where
  "spec_integer s =
     (case s of
        [] \<Rightarrow> Throw (Invalid_Argument ''missing integer'')
      | c # t \<Rightarrow> if c = CHR ''-'' then spec_unsigned True t else spec_unsigned False s)"

lemma spec_string_suffix: "spec_string out s = Return (x, s') \<Longrightarrow> suffix s' s"
proof (induction out s rule: spec_string.induct)
  case (2 out c s)
  show ?case
  proof (cases "c = CHR 0x5C")
    case False
    with 2 show ?thesis by (auto split: if_splits intro: suffix_ConsI)
  next
    case True
    with "2.prems" obtain e t out1 s1 where s: "s = e # t"
      and e: "spec_escape e out t = Return (out1, s1)" and r: "spec_string out1 s1 = Return (x, s')"
      by (auto split: list.splits elim!: bind_ReturnE)
    have "suffix s' s1" using "2.IH"(2) True s e r by simp
    then have "suffix s' t" using spec_escape_suffix [OF e] by (rule suffix_consumed)
    then show ?thesis by (simp add: s suffix_ConsI)
  qed
qed simp

lemma spec_read_string_suffix:
  assumes "spec_read_string s = Return (x, s')"
  shows "suffix s' s"
proof -
  from assms obtain s1 where "spec_expect (CHR 0x22) s = Return s1" "spec_string [] s1 = Return (x, s')"
    unfolding spec_read_string_def by (auto elim!: bind_ReturnE)
  then show ?thesis
    by (blast intro: suffix_consumed strict_suffix_suffix dest: spec_expect_suffix spec_string_suffix)
qed

lemma spec_key_suffix:
  assumes "spec_key k s = Return s'"
  shows "suffix s' s"
proof -
  from assms obtain s1 where "spec_read_string s = Return (k, s1)" "spec_expect (CHR '':'') s1 = Return s'"
    unfolding spec_key_def by (auto elim!: bind_ReturnE split: if_splits)
  then show ?thesis
    by (blast intro: suffix_consumed strict_suffix_suffix dest: spec_expect_suffix spec_read_string_suffix)
qed

lemma spec_integer_loop_suffix: "spec_integer_loop v s = Return (x, s') \<Longrightarrow> suffix s' s"
proof (induction v s rule: spec_integer_loop.induct)
  case (2 v c s)
  then show ?case by (auto split: if_splits elim!: bind_ReturnE intro: suffix_ConsI)
qed simp

lemma spec_unsigned_suffix:
  assumes "spec_unsigned n s = Return (x, s')"
  shows "suffix s' s"
proof -
  from assms have "\<exists>v. spec_integer_loop 0 s = Return (v, s')"
    unfolding spec_unsigned_def
    by (cases s) (auto simp del: spec_integer_loop.simps split: if_splits elim!: bind_ReturnE)
  then show ?thesis by (auto dest: spec_integer_loop_suffix)
qed

lemma spec_integer_suffix: "spec_integer s = Return (x, s') \<Longrightarrow> suffix s' s"
  by (auto simp: spec_integer_def split: list.splits if_splits
      dest!: spec_unsigned_suffix intro: suffix_ConsI)

section \<open>The reader refines the specification\<close>

text \<open>
  \<open>reader_at json s\<close> is the reader of \<open>json\<close> that has \<open>s\<close> left to read; \<open>resume json\<close> turns what a
  specification operation returns into what the reader returns.
\<close>

definition reader_at :: "string \<Rightarrow> string \<Rightarrow> FlatJsonReader" where
  "reader_at json s = \<lparr>reader_json = json, reader_pos = length json - length s\<rparr>"

abbreviation resume :: "string \<Rightarrow> 'a \<times> string \<Rightarrow> 'a \<times> FlatJsonReader" where
  "resume json \<equiv> \<lambda>(v, s). (v, reader_at json s)"

lemma FlatJsonReader_new_at: "FlatJsonReader_new json = reader_at json json"
  by (simp add: FlatJsonReader_new_def reader_at_def)

lemma reader_json_at [simp]: "reader_json (reader_at json s) = json"
  by (simp add: reader_at_def)

lemma reader_pos_at [simp]: "reader_pos (reader_at json s) = length json - length s"
  by (simp add: reader_at_def)

lemma suffix_ConsD: "suffix (c # s) json \<Longrightarrow> suffix s json"
  by (auto simp: suffix_def)

lemma suffix_pos:
  assumes "suffix s json"
  shows "length json - length s \<le> length json" "drop (length json - length s) json = s"
    "length json - length s + length s = length json"
  using assms by (auto simp: suffix_def)

lemma at_end_reader_at [simp]:
  "at_end (reader_at json s) \<longleftrightarrow> s = []" if "suffix s json"
  using suffix_length_le [OF that] that
  by (cases s) (auto simp: at_end_def reader_at_def suffix_def)

lemma nth_reader_at:
  assumes "suffix (xs @ c # t) json"
  shows "json ! (length json - length (xs @ c # t) + length xs) = c"
  using assms by (auto simp: suffix_def nth_append)

lemma cur_reader_at [simp]: "suffix (c # t) json \<Longrightarrow> cur (reader_at json (c # t)) = c"
  using nth_reader_at [of "[]" c t json] by (simp add: cur_def reader_at_def)

lemma advance_reader_at:
  "suffix (xs @ t) json \<Longrightarrow> advance (length xs) (reader_at json (xs @ t)) = reader_at json t"
  by (auto simp: advance_def reader_at_def suffix_def)

lemma advance_1_reader_at [simp]:
  "suffix (c # t) json \<Longrightarrow> advance (Suc 0) (reader_at json (c # t)) = reader_at json t"
  using advance_reader_at [of "[c]" t json] by simp

lemma advance_2_reader_at [simp]:
  "suffix (b # c # t) json \<Longrightarrow> advance 2 (reader_at json (b # c # t)) = reader_at json t"
  using advance_reader_at [of "[b, c]" t json] by (simp add: numeral_2_eq_2)

lemma expect_refines [reader_simps]:
  "suffix s json \<Longrightarrow> expect ch (reader_at json s) = map_outcome (reader_at json) (spec_expect ch s)"
  by (cases s) (auto simp: expect_def)

lemma unicode_digits_refines:
  "suffix s json \<Longrightarrow> n \<le> length s \<Longrightarrow>
     unicode_digits n v (reader_at json s) = map_outcome (resume json) (spec_digits n v s)"
proof (induction n v s rule: spec_digits.induct)
  case (3 n v c s)
  then show ?case by (cases "hex_digit c") (auto dest: suffix_ConsD)
qed auto

lemma unicode_unit_refines [reader_simps]:
  assumes "suffix s json"
  shows "unicode_unit (reader_at json s) = map_outcome (resume json) (spec_unit s)"
proof -
  have "length json < length json - length s + 4 \<longleftrightarrow> length s < 4"
    using suffix_length_le [OF assms] by linarith
  then show ?thesis using assms
    by (simp add: unicode_unit_def spec_unit_def unicode_digits_refines)
qed

lemma low_surrogate_refines [reader_simps]:
  assumes "suffix s json"
  shows "low_surrogate first (reader_at json s) = map_outcome (resume json) (spec_low first s)"
proof (cases "\<exists>b u t. s = b # u # t")
  case True
  then obtain b u t where s: "s = b # u # t" by blast
  have n: "json ! (length json - length (b # u # t)) = b"
    "json ! Suc (length json - length (b # u # t)) = u"
    using nth_reader_at [of "[]" b "u # t" json] nth_reader_at [of "[b]" u t json] assms s by simp_all
  have l: "\<not> length json < length json - length (b # u # t) + 2"
    using suffix_length_le [OF assms] s by simp
  have t: "suffix t json" using assms s by (blast dest: suffix_ConsD)
  have "advance 2 (reader_at json (b # u # t)) = reader_at json t" using assms s by simp
  with n l show ?thesis unfolding s
    by (cases "spec_unit t") (auto simp: low_surrogate_def unicode_unit_refines [OF t])
next
  case False
  then have l: "length s < 2" by (cases s; cases "tl s") auto
  then have "length json < length json - length s + 2"
    using suffix_length_le [OF assms] by linarith
  moreover have "spec_low first s = Throw (Invalid_Argument ''missing low surrogate'')"
    using l by (cases s; cases "tl s") auto
  ultimately show ?thesis by (simp add: low_surrogate_def)
qed

lemma unicode_escape_refines [reader_simps]:
  assumes "suffix s json"
  shows "unicode_escape out (reader_at json s) = map_outcome (resume json) (spec_unicode out s)"
proof (cases "spec_unit s")
  case (Return p)
  obtain first t where p: "p = (first, t)" by (cases p)
  with Return have t: "suffix t json"
    using assms by (blast intro: suffix_consumed dest: spec_unit_suffix)
  have step: "bind (map_outcome (resume json) m) (\<lambda>(cp, r). bind (append_utf8 out cp) (\<lambda>out. Return (out, r)))
      = map_outcome (resume json) (bind m (\<lambda>(cp, s). bind (append_utf8 out cp) (\<lambda>out. Return (out, s))))"
    for m :: "(uint32 \<times> string) outcome"
    by (cases m) auto
  show ?thesis
    using step [of "spec_low first t"] step [of "Return (first, t)"]
    by (auto simp: unicode_escape_def spec_unicode_def unicode_unit_refines [OF assms] Return p
        low_surrogate_refines [OF t])
qed (simp_all add: unicode_escape_def spec_unicode_def unicode_unit_refines [OF assms])

lemma read_escape_refines [reader_simps]:
  "suffix s json \<Longrightarrow> read_escape e out (reader_at json s) = map_outcome (resume json) (spec_escape e out s)"
  by (simp add: read_escape_def spec_escape_def unicode_escape_refines)

lemma string_loop_refines [reader_simps]:
  "suffix s json \<Longrightarrow> string_loop out (reader_at json s) = map_outcome (resume json) (spec_string out s)"
proof (induction out s rule: spec_string.induct)
  case (1 out)
  then show ?case by (simp add: string_loop.simps [of out "reader_at json []"])
next
  case (2 out c s)
  have s: "suffix s json" using "2.prems" by (rule suffix_ConsD)
  note unf = string_loop.simps [of out "reader_at json (c # s)"]
  show ?case
  proof (cases "c = CHR 0x5C")
    case False
    then show ?thesis using 2 s by (simp add: unf)
  next
    case bs: True
    show ?thesis
    proof (cases s)
      case Nil
      then show ?thesis
        using bs "2.prems" string_loop.simps [of out "reader_at json [CHR 0x5C]"] by simp
    next
      case (Cons e t)
      then have t: "suffix t json" using s by (blast dest: suffix_ConsD)
      have unf2: "string_loop out (reader_at json (c # s)) =
          bind (map_outcome (resume json) (spec_escape e out t)) (\<lambda>(out, r). string_loop out r)"
        using bs Cons "2.prems" s t string_loop.simps [of out "reader_at json (CHR 0x5C # e # t)"]
        by (simp add: read_escape_refines)
      show ?thesis
      proof (cases "spec_escape e out t")
        case (Return p)
        then have "suffix (snd p) json"
          using t by (cases p) (auto intro: suffix_consumed dest: spec_escape_suffix)
        then show ?thesis
          unfolding unf2 using bs Cons Return "2.IH"(2) [OF _ _ Cons, of p "fst p" "snd p"]
          by (simp add: split_def)
      qed (unfold unf2, use bs Cons in simp_all)
    qed
  qed
qed

lemma bind_resume:
  assumes "\<And>v s'. m = Return (v, s') \<Longrightarrow> suffix s' json"
    and "\<And>v s'. suffix s' json \<Longrightarrow> f (v, reader_at json s') = map_outcome (resume json) (g (v, s'))"
  shows "bind (map_outcome (resume json) m) f = map_outcome (resume json) (bind m g)"
  using assms by (cases m) auto

lemma bind_reader_at:
  assumes "\<And>s'. m = Return s' \<Longrightarrow> suffix s' json"
    and "\<And>s'. suffix s' json \<Longrightarrow> f (reader_at json s') = map_outcome h (g s')"
  shows "bind (map_outcome (reader_at json) m) f = map_outcome h (bind m g)"
  using assms by (cases m) auto

lemma spec_expect_suffix_json:
  "suffix s json \<Longrightarrow> spec_expect ch s = Return s' \<Longrightarrow> suffix s' json"
  by (blast intro: suffix_consumed strict_suffix_suffix dest: spec_expect_suffix)

lemma read_string_refines [reader_simps]:
  "suffix s json \<Longrightarrow> read_string (reader_at json s) = map_outcome (resume json) (spec_read_string s)"
  unfolding read_string_def spec_read_string_def
  by (simp only: expect_refines)
    (rule bind_reader_at, erule (1) spec_expect_suffix_json, rule string_loop_refines)

lemma key_refines [reader_simps]:
  assumes "suffix s json"
  shows "key k (reader_at json s) = map_outcome (reader_at json) (spec_key k s)"
proof (cases "spec_read_string s")
  case (Return p)
  then have "suffix (snd p) json"
    using assms by (cases p) (auto intro: suffix_consumed dest: spec_read_string_suffix)
  then show ?thesis
    using Return by (auto simp: key_def spec_key_def read_string_refines [OF assms] expect_refines split_def)
qed (simp_all add: key_def spec_key_def read_string_refines [OF assms])

lemma integer_loop_refines [reader_simps]:
  "suffix s json \<Longrightarrow> integer_loop v (reader_at json s) = map_outcome (resume json) (spec_integer_loop v s)"
proof (induction v s rule: spec_integer_loop.induct)
  case (1 v)
  then show ?case by (simp add: integer_loop.simps [of v "reader_at json []"])
next
  case (2 v c s)
  have s: "suffix s json" using "2.prems" by (rule suffix_ConsD)
  show ?case
    using "2.prems" "2.IH" [OF _ _ _ s] integer_loop.simps [of v "reader_at json (c # s)"]
    by (auto intro!: bind_cong)
qed

lemma unsigned_refines:
  assumes "suffix s json"
  shows "(if at_end (reader_at json s) \<or> \<not> is_digit (cur (reader_at json s))
      then Throw (Invalid_Argument ''invalid integer'')
      else bind (integer_loop 0 (reader_at json s)) (\<lambda>(val, r).
        if negative then bind (i64_neg val) (\<lambda>v. Return (v, r)) else Return (val, r)))
    = map_outcome (resume json) (spec_unsigned negative s)"
proof (cases s)
  case Nil
  then show ?thesis using assms by (simp add: spec_unsigned_def)
next
  case (Cons c t)
  have "bind (map_outcome (resume json) (spec_integer_loop 0 s)) (\<lambda>(val, r).
        if negative then bind (i64_neg val) (\<lambda>v. Return (v, r)) else Return (val, r))
    = map_outcome (resume json) (bind (spec_integer_loop 0 s) (\<lambda>(val, s).
        if negative then bind (i64_neg val) (\<lambda>v. Return (v, s)) else Return (val, s)))"
    by (cases "spec_integer_loop 0 s") auto
  with assms Cons show ?thesis
    unfolding integer_loop_refines [OF assms]
    by (simp add: spec_unsigned_def del: spec_integer_loop.simps bind_map_outcome map_outcome_bind)
qed

lemma integer_refines [reader_simps]:
  assumes "suffix s json"
  shows "integer (reader_at json s) = map_outcome (resume json) (spec_integer s)"
proof (cases s)
  case Nil
  then show ?thesis using assms by (simp add: integer_def spec_integer_def)
next
  case (Cons c t)
  have t: "suffix t json" using assms Cons by (blast dest: suffix_ConsD)
  show ?thesis
  proof (cases "c = CHR ''-''")
    case True
    then have "advance 1 (reader_at json (CHR ''-'' # t)) = reader_at json t"
      using assms Cons by simp
    then show ?thesis
      using assms Cons True unsigned_refines [OF t, of True]
      by (auto simp: integer_def spec_integer_def Let_def split: if_splits)
  next
    case False
    then show ?thesis
      using assms Cons unsigned_refines [OF assms, of False]
      by (auto simp: integer_def spec_integer_def Let_def split: if_splits)
  qed
qed

definition spec_string_field :: "string \<Rightarrow> string \<Rightarrow> (string \<times> string) outcome" where
  "spec_string_field k s = bind (spec_key k s) spec_read_string"

definition spec_integer_field :: "string \<Rightarrow> string \<Rightarrow> (int64 \<times> string) outcome" where
  "spec_integer_field k s = bind (spec_key k s) spec_integer"

lemma spec_key_suffix_json: "suffix s json \<Longrightarrow> spec_key k s = Return s' \<Longrightarrow> suffix s' json"
  by (blast intro: suffix_consumed dest: spec_key_suffix)

lemma string_field_refines [reader_simps]:
  "suffix s json \<Longrightarrow> string_field k (reader_at json s) = map_outcome (resume json) (spec_string_field k s)"
  unfolding string_field_def spec_string_field_def
  by (simp only: key_refines)
    (rule bind_reader_at, erule (1) spec_key_suffix_json, rule read_string_refines)

lemma integer_field_refines [reader_simps]:
  "suffix s json \<Longrightarrow> integer_field k (reader_at json s) = map_outcome (resume json) (spec_integer_field k s)"
  unfolding integer_field_def spec_integer_field_def
  by (simp only: key_refines)
    (rule bind_reader_at, erule (1) spec_key_suffix_json, rule integer_refines)

lemma spec_string_field_suffix: "spec_string_field k s = Return (x, s') \<Longrightarrow> suffix s' s"
  unfolding spec_string_field_def
  by (blast intro: suffix_consumed dest: spec_key_suffix spec_read_string_suffix elim!: bind_ReturnE)

lemma spec_integer_field_suffix: "spec_integer_field k s = Return (x, s') \<Longrightarrow> suffix s' s"
  unfolding spec_integer_field_def
  by (blast intro: suffix_consumed dest: spec_key_suffix spec_integer_suffix elim!: bind_ReturnE)

end
