(* ===== verification/Codec.thy ===== *)
theory Codec
  imports Reader_Spec
begin

unbundle bit_operations_syntax

text \<open>
  Printing and reading back.  The locales state what the wire format relies on: a prefix code can be
  told from what follows it, and a codec is a printer with a reader that undoes it.  They are
  interpreted on the JSON strings and the decimal integers of the source.
\<close>

section \<open>Prefix codes and codecs\<close>

locale prefix_code =
  fixes enc :: "'a \<Rightarrow> string" and follow :: "string \<Rightarrow> bool"
  assumes unique: "enc x @ u = enc y @ v \<Longrightarrow> follow u \<Longrightarrow> follow v \<Longrightarrow> x = y \<and> u = v"
begin

lemma append_eq_iff: "follow u \<Longrightarrow> follow v \<Longrightarrow> enc x @ u = enc y @ v \<longleftrightarrow> x = y \<and> u = v"
  using unique by blast

lemma enc_inj: "follow [] \<Longrightarrow> inj enc"
  using unique [where u = "[]" and v = "[]"] by (auto intro: injI)

end

locale codec =
  fixes enc :: "'a \<Rightarrow> string" and dec :: "string \<Rightarrow> ('a \<times> string) outcome"
    and encodable :: "'a \<Rightarrow> bool" and follow :: "string \<Rightarrow> bool"
  assumes decode: "encodable x \<Longrightarrow> follow u \<Longrightarrow> dec (enc x @ u) = Return (x, u)"
begin

lemma decode_unique:
  assumes "encodable x" "encodable y" "follow u" "follow v" "enc x @ u = enc y @ v"
  shows "x = y \<and> u = v"
proof -
  have "Return (x, u) = Return (y, v)" using decode assms by metis
  then show ?thesis by simp
qed

lemma enc_inj_on: "follow [] \<Longrightarrow> inj_on enc {x. encodable x}"
  using decode_unique [where u = "[]" and v = "[]"] by (auto intro!: inj_onI)

end

locale total_codec = codec +
  assumes all_encodable: "encodable x"

sublocale total_codec \<subseteq> prefix_code enc follow
  by unfold_locales (rule decode_unique [OF all_encodable all_encodable])

section \<open>JSON strings\<close>

lemma hex_digit_hex_char: "d < 16 \<Longrightarrow> hex_digit (hex_char d) = Return (int d)"
proof -
  assume d: "d < 16"
  have "(of_char (hex_char d) :: int) = int (of_char (hex_char d))" by (simp add: of_nat_of_char)
  also have "\<dots> = int (if d < 10 then 48 + d else 87 + d)" by (simp only: of_hex_char [OF d])
  finally show ?thesis using d by (auto simp: hex_digit_def Let_def)
qed

text \<open>Four hexadecimal digits read back as the number they were printed from.\<close>

lemma push_bit_or_low:
  fixes a b :: "'a::len word"
  assumes "take_bit n b = b"
  shows "push_bit n a OR b = push_bit n a + b"
proof -
  have "push_bit n a AND take_bit n b = 0" by (auto simp: bit_eq_iff bit_simps)
  then show ?thesis using assms by (simp add: disjunctive_add_eq_or)
qed

lemma push_digit:
  assumes "d < 16"
  shows "push_bit 4 (of_nat a) OR (word_of_int (int d) :: uint32) = of_nat (16 * a + d)"
proof -
  have "take_bit 4 (of_nat d :: uint32) = of_nat (take_bit 4 d)" by (simp add: take_bit_of_nat)
  moreover have "take_bit 4 d = d" using assms by (simp add: take_bit_nat_eq_self)
  ultimately have "take_bit 4 (of_nat d :: uint32) = of_nat d" by (simp only:)
  then show ?thesis using push_bit_or_low [of 4 "of_nat d" "of_nat a :: uint32"]
    by (simp add: push_bit_eq_mult mult.commute)
qed

lemma spec_unit_four:
  "spec_unit (a # b # c # d # s) =
     bind (hex_digit a) (\<lambda>x1. bind (hex_digit b) (\<lambda>x2. bind (hex_digit c) (\<lambda>x3. bind (hex_digit d) (\<lambda>x4.
       Return (push_bit 4 (push_bit 4 (push_bit 4 (push_bit 4 0 OR word_of_int x1) OR word_of_int x2)
         OR word_of_int x3) OR word_of_int x4, s)))))"
proof -
  have "spec_unit (a # b # c # d # s) = spec_digits (Suc (Suc (Suc (Suc 0)))) 0 (a # b # c # d # s)"
    by (simp add: spec_unit_def eval_nat_numeral del: spec_digits.simps)
  then show ?thesis by simp
qed

lemma hex_value:
  assumes "n < 2 ^ 16"
  shows "16 * (16 * (16 * (n div 4096 mod 16) + n div 256 mod 16) + n div 16 mod 16) + n mod 16
    = (n :: nat)"
proof -
  have e: "n div 4096 = n div 16 div 16 div 16" "n div 256 = n div 16 div 16"
    by (simp_all add: div_mult2_eq [symmetric])
  have "n div 16 div 16 div 16 < 16" using assms by (simp add: div_mult2_eq [symmetric])
  then show ?thesis
    using div_mult_mod_eq [of n 16] div_mult_mod_eq [of "n div 16" 16]
      div_mult_mod_eq [of "n div 16 div 16" 16]
    unfolding e by simp
qed

lemma spec_unit_hex4: "n < 2 ^ 16 \<Longrightarrow> spec_unit (hex4 n @ s) = Return (of_nat n, s)"
proof -
  assume n: "n < 2 ^ 16"
  let ?a = "n div 4096 mod 16" and ?b = "n div 256 mod 16" and ?c = "n div 16 mod 16"
  have "spec_unit (hex4 n @ s) = Return (push_bit 4 (push_bit 4 (push_bit 4
      (push_bit 4 (of_nat 0) OR word_of_int (int ?a)) OR word_of_int (int ?b))
      OR word_of_int (int ?c)) OR word_of_int (int (n mod 16)), s)"
    by (simp only: hex4_def append.simps spec_unit_four hex_digit_hex_char [OF mod_less_divisor]
        zero_less_numeral bind.simps semiring_1_class.of_nat_0)
  also have "\<dots> = Return (of_nat (16 * (16 * (16 * ?a + ?b) + ?c) + n mod 16), s)"
    by (simp only: push_digit [OF mod_less_divisor] zero_less_numeral mult_0_right add_0)
  finally show ?thesis by (simp only: hex_value [OF n])
qed

text \<open>What one escaped byte reads back as.\<close>

lemma append_utf8_ascii: "n < 0x80 \<Longrightarrow> append_utf8 out (of_nat n) = Return (out @ [char_of n])"
proof -
  assume n: "n < 0x80"
  have "unat (of_nat n :: uint32) = n" using n by (simp add: unat_of_nat)
  moreover from this have "(of_nat n :: uint32) \<le> 0x7f" using n by (simp add: word_le_nat_alt)
  ultimately show ?thesis by (simp add: append_utf8_def push_char_def)
qed

lemma unit_not_surrogate:
  assumes "n < 0xd800"
  shows "\<not> (0xd800 :: uint32) \<le> of_nat n" "\<not> (0xdc00 :: uint32) \<le> of_nat n"
proof -
  have "unat (of_nat n :: uint32) = n" using assms by (simp add: unat_of_nat)
  then show "\<not> (0xd800 :: uint32) \<le> of_nat n" "\<not> (0xdc00 :: uint32) \<le> of_nat n"
    using assms by (simp_all add: word_le_nat_alt)
qed

lemma spec_unicode_ascii:
  "n < 0x80 \<Longrightarrow> spec_unicode out (hex4 n @ s) = Return (out @ [char_of n], s)"
  using unit_not_surrogate [of n]
  by (simp add: spec_unicode_def spec_unit_hex4 append_utf8_ascii)

lemma spec_string_escape: "spec_string out (json_escape c @ s) = spec_string (out @ [c]) s"
proof (cases c rule: json_escape_cases)
  case plain
  then show ?thesis by simp
next
  case (short e)
  then show ?thesis by (auto simp: spec_escape_def)
next
  case unicode
  then show ?thesis by (simp add: spec_escape_def spec_unicode_ascii)
qed

lemma spec_string_body:
  "spec_string out (concat (map json_escape v) @ CHR 0x22 # s) = Return (out @ v, s)"
proof (induction v arbitrary: out)
  case (Cons c v)
  then show ?case by (simp add: spec_string_escape)
qed simp

lemma spec_read_string_json_string [reader_simps]:
  "spec_read_string (json_string v @ s) = Return (v, s)"
  by (simp add: spec_read_string_def json_string_def spec_string_body)

interpretation js: total_codec json_string spec_read_string "\<lambda>_. True" "\<lambda>_. True"
  by unfold_locales (simp_all add: spec_read_string_json_string)

section \<open>Integers\<close>

text \<open>What may follow a number: nothing, or a character that is not a digit.\<close>

definition number_ends :: "string \<Rightarrow> bool" where
  "number_ends u \<longleftrightarrow> (case u of [] \<Rightarrow> True | c # _ \<Rightarrow> \<not> is_digit c)"

lemma sint_of_nat_64 [simp]: "n < 2 ^ 63 \<Longrightarrow> sint (of_nat n :: int64) = int n"
  using sint_word_of_int_64 [of "int n"] by simp

lemma i64_mul_ten:
  "v < 2 ^ 63 \<Longrightarrow> i64_mul (of_nat v) 10 = (if v * 10 < 2 ^ 63 then Return (of_nat (v * 10)) else Undefined)"
  by (simp add: i64_mul_def int64_of_def)

lemma digit_val_less: "is_digit c \<Longrightarrow> digit_val c < 10"
  unfolding is_digit_def digit_val_def by linarith

lemma i64_add_digit:
  assumes "v < 2 ^ 63" "d < 10"
  shows "i64_add (of_nat v) (of_nat d) = (if v + d < 2 ^ 63 then Return (of_nat (v + d)) else Undefined)"
  using assms by (simp add: i64_add_def int64_of_def)

text \<open>
  The digit loop computes the value of the digits when every intermediate result fits, and runs into
  signed overflow as soon as the value reaches \<open>2 ^ 63\<close>.
\<close>

lemma spec_integer_loop_digits:
  assumes "\<forall>c \<in> set ds. is_digit c" and "number_ends u" and "v < 2 ^ 63"
  shows "spec_integer_loop (of_nat v) (ds @ u) =
    (if digits_value v ds < 2 ^ 63 then Return (of_nat (digits_value v ds), u) else Undefined)"
  using assms
proof (induction ds arbitrary: v)
  case Nil
  then show ?case by (cases u) (auto simp: number_ends_def)
next
  case (Cons c ds)
  have d: "digit_val c < 10" using Cons.prems by (simp add: digit_val_less)
  show ?case
  proof (cases "v * 10 + digit_val c < 2 ^ 63")
    case True
    then have "spec_integer_loop (of_nat v) ((c # ds) @ u)
        = spec_integer_loop (of_nat (v * 10 + digit_val c)) (ds @ u)"
      using Cons.prems d by (simp add: i64_mul_ten i64_add_digit del: of_nat_add of_nat_mult)
    then show ?thesis using Cons.IH [of "v * 10 + digit_val c"] Cons.prems True
      by (simp del: of_nat_add of_nat_mult)
  next
    case False
    then have "spec_integer_loop (of_nat v) ((c # ds) @ u) = Undefined"
      using Cons.prems d by (auto simp: i64_mul_ten i64_add_digit simp del: of_nat_add of_nat_mult)
    moreover have "\<not> digits_value v (c # ds) < 2 ^ 63"
      using digits_value_ge [of "v * 10 + digit_val c" ds] False by simp
    ultimately show ?thesis by simp
  qed
qed

lemma i64_neg_of_nat: "v < 2 ^ 63 \<Longrightarrow> i64_neg (of_nat v) = Return (word_of_int (- int v))"
  by (simp add: i64_neg_def int64_of_def)

lemma spec_unsigned_digits:
  assumes "\<forall>c \<in> set ds. is_digit c" and "ds \<noteq> []" and "number_ends u"
  shows "spec_unsigned negative (ds @ u) =
    (if digits_value 0 ds < 2 ^ 63
     then Return (word_of_int (if negative then - int (digits_value 0 ds) else int (digits_value 0 ds)), u)
     else Undefined)"
proof -
  obtain c cs where ds: "ds = c # cs" using assms(2) by (cases ds) auto
  have "spec_unsigned negative (ds @ u) = bind (spec_integer_loop 0 (ds @ u)) (\<lambda>(val, s).
      if negative then bind (i64_neg val) (\<lambda>v. Return (v, s)) else Return (val, s))"
    using assms(1) by (simp add: spec_unsigned_def ds del: spec_integer_loop.simps)
  then show ?thesis
    using spec_integer_loop_digits [OF assms(1,3), of 0] by (simp add: i64_neg_of_nat)
qed

lemma minus_not_digit [simp]: "\<not> is_digit (CHR ''-'')"
  by (simp add: is_digit_def)

lemma spec_integer_digits:
  assumes "\<forall>c \<in> set ds. is_digit c" and "ds \<noteq> []" and "number_ends u"
  shows "spec_integer (ds @ u) =
      (if digits_value 0 ds < 2 ^ 63 then Return (word_of_int (int (digits_value 0 ds)), u) else Undefined)"
    and "spec_integer (CHR ''-'' # ds @ u) =
      (if digits_value 0 ds < 2 ^ 63 then Return (word_of_int (- int (digits_value 0 ds)), u) else Undefined)"
proof -
  obtain c cs where ds: "ds = c # cs" using assms(2) by (cases ds) auto
  then have "c \<noteq> CHR ''-''" using assms(1) by auto
  then have "spec_integer (ds @ u) = spec_unsigned False (ds @ u)"
    by (simp add: spec_integer_def ds)
  then show "spec_integer (ds @ u) =
      (if digits_value 0 ds < 2 ^ 63 then Return (word_of_int (int (digits_value 0 ds)), u) else Undefined)"
    using spec_unsigned_digits [OF assms] by simp
  show "spec_integer (CHR ''-'' # ds @ u) =
      (if digits_value 0 ds < 2 ^ 63 then Return (word_of_int (- int (digits_value 0 ds)), u) else Undefined)"
    using spec_unsigned_digits [OF assms, of True] by (simp add: spec_integer_def)
qed

lemma spec_integer_dec_int64:
  assumes "w \<noteq> int64_min" and "number_ends u"
  shows "spec_integer (dec_int64 w @ u) = Return (w, u)"
proof -
  have lo: "- (2 ^ 63) < sint w"
    using assms(1) sint_int64_bounds(1) [of w] sint_eq_int64_min_iff [of w] by simp
  note digits = spec_integer_digits [OF dec_nat_digits dec_nat_nonempty assms(2)]
  show ?thesis
  proof (cases "sint w < 0")
    case True
    then have "nat (- sint w) < 2 ^ 63" using lo by (simp add: nat_less_iff)
    then show ?thesis using digits(2) [of "nat (- sint w)"] True
      by (simp add: dec_int64_def dec_int_def)
  next
    case False
    then have "nat (sint w) < 2 ^ 63" using sint_int64_bounds(2) [of w] by (simp add: nat_less_iff)
    then show ?thesis using digits(1) [of "nat (sint w)"] False
      by (simp add: dec_int64_def dec_int_def)
  qed
qed

interpretation i64: codec dec_int64 spec_integer "\<lambda>w. w \<noteq> int64_min" number_ends
  by unfold_locales (rule spec_integer_dec_int64)

text \<open>The smallest value prints, but reading it back overflows: its magnitude is \<open>2 ^ 63\<close>.\<close>

lemma spec_integer_int64_min:
  "number_ends u \<Longrightarrow> spec_integer (dec_int64 int64_min @ u) = Undefined"
  using spec_integer_digits(2) [OF dec_nat_digits dec_nat_nonempty, of u "2 ^ 63"]
  by (simp add: dec_int64_def dec_int_def)

text \<open>Printed integers are a prefix code on the whole range, the smallest value included.\<close>

lemma takeWhile_number: "\<forall>c \<in> set ds. is_digit c \<Longrightarrow> number_ends u \<Longrightarrow>
    takeWhile is_digit (ds @ u) = ds \<and> dropWhile is_digit (ds @ u) = u"
  by (cases u) (auto simp: number_ends_def)

lemma dec_nat_unique:
  assumes "dec_nat m @ u = dec_nat n @ v" "number_ends u" "number_ends v"
  shows "m = n \<and> u = v"
proof -
  have e: "dec_nat m = dec_nat n \<and> u = v"
    using takeWhile_number [OF dec_nat_digits assms(2), of m]
      takeWhile_number [OF dec_nat_digits assms(3), of n] unfolding assms(1) by simp
  then have "digits_value 0 (dec_nat m) = digits_value 0 (dec_nat n)" by (simp only:)
  then have "m = n" unfolding digits_value_dec_nat .
  then show ?thesis using e by blast
qed

lemma dec_nat_not_minus: "dec_nat n @ u \<noteq> CHR ''-'' # s"
proof
  assume "dec_nat n @ u = CHR ''-'' # s"
  then have "hd (dec_nat n) = CHR ''-''" by (cases "dec_nat n") auto
  then show False using dec_nat_hd [of n] by simp
qed

lemma dec_int_unique:
  assumes "dec_int i @ u = dec_int j @ v" "number_ends u" "number_ends v"
  shows "i = j \<and> u = v"
proof (cases "i < 0"; cases "j < 0")
  assume ij: "i < 0" "j < 0"
  with assms have "nat (- i) = nat (- j) \<and> u = v" by (intro dec_nat_unique) (simp_all add: dec_int_def)
  with ij show ?thesis by linarith
next
  assume ij: "\<not> i < 0" "\<not> j < 0"
  with assms have "nat i = nat j \<and> u = v" by (intro dec_nat_unique) (simp_all add: dec_int_def)
  with ij show ?thesis by linarith
next
  assume "i < 0" "\<not> j < 0"
  with assms(1) have "dec_nat (nat j) @ v = CHR ''-'' # dec_nat (nat (- i)) @ u"
    by (simp add: dec_int_def)
  then show ?thesis using dec_nat_not_minus by blast
next
  assume "\<not> i < 0" "j < 0"
  with assms(1) show ?thesis using dec_nat_not_minus [of "nat i" u] by (simp add: dec_int_def)
qed

interpretation i64p: prefix_code dec_int64 number_ends
  by unfold_locales (auto simp: dec_int64_def dest!: dec_int_unique intro: signed_word_eqI)

end
