(* ===== verification/Flat_Object.thy ===== *)
theory Flat_Object
  imports Codec
begin

text \<open>
  The shape all MA2A messages share: a flat object with a fixed list of keys, each value an integer,
  a string, or an organisation identifier that prints as \<open>null\<close> when empty.  The serialisers of the
  source are instances of one printer, the message readers of one schema-driven reader; uniqueness
  and the round trip are proved once, on these.
\<close>

section \<open>Printing\<close>

datatype field_value = IntV int64 | StrV string | OrgV string

datatype field_kind = IntK | StrK

fun write_value :: "field_value \<Rightarrow> string" where
  "write_value (IntV w) = dec_int64 w"
| "write_value (StrV s) = json_string s"
| "write_value (OrgV s) = json_organization s"

definition quoted_key :: "string \<Rightarrow> string" where
  "quoted_key k = [CHR 0x22] @ k @ [CHR 0x22, CHR '':'']"

text \<open>The object around a list of fields, for any way to print values.\<close>

fun join_fields :: "('v \<Rightarrow> string) \<Rightarrow> (string \<times> 'v) list \<Rightarrow> string" where
  "join_fields shown [] = []"
| "join_fields shown [(k, v)] = quoted_key k @ shown v"
| "join_fields shown ((k, v) # f # fs) = quoted_key k @ shown v @ [CHR '',''] @ join_fields shown (f # fs)"

definition join_object :: "('v \<Rightarrow> string) \<Rightarrow> (string \<times> 'v) list \<Rightarrow> string" where
  "join_object shown fs = [CHR ''{''] @ join_fields shown fs @ [CHR ''}'']"

abbreviation write_fields :: "(string \<times> field_value) list \<Rightarrow> string" where
  "write_fields \<equiv> join_fields write_value"

abbreviation write_object :: "(string \<times> field_value) list \<Rightarrow> string" where
  "write_object \<equiv> join_object write_value"

section \<open>Printed objects determine their values\<close>

fun same_kind :: "field_value \<Rightarrow> field_value \<Rightarrow> bool" where
  "same_kind (IntV _) (IntV _) = True"
| "same_kind (StrV _) (StrV _) = True"
| "same_kind (OrgV _) (OrgV _) = True"
| "same_kind _ _ = False"

lemma json_string_not_null: "json_string s @ u \<noteq> ''null'' @ v"
  by (simp add: json_string_def)

lemma json_organization_unique:
  assumes "json_organization x @ u = json_organization y @ v"
  shows "x = y \<and> u = v"
  using assms json_string_not_null [of y v u] json_string_not_null [of x u v]
  by (auto simp: json_organization_def js.append_eq_iff split: if_splits simp del: append.simps)

interpretation jorg: prefix_code json_organization "\<lambda>_. True"
  by unfold_locales (rule json_organization_unique)

lemma write_value_unique:
  assumes "same_kind x y" "write_value x @ u = write_value y @ v" "number_ends u" "number_ends v"
  shows "x = y \<and> u = v"
  using assms
  by (induction x y rule: same_kind.induct)
    (auto dest: i64p.unique js.unique jorg.unique)

lemma number_ends_simps [simp]:
  "number_ends (CHR '','' # s)" "number_ends (CHR ''}'' # s)"
  by (simp_all add: number_ends_def is_digit_def)

text \<open>Two field lists with the same keys and kinds, in the same order.\<close>

definition same_schema :: "(string \<times> field_value) list \<Rightarrow> (string \<times> field_value) list \<Rightarrow> bool" where
  "same_schema fs gs \<longleftrightarrow> list_all2 (\<lambda>(k, v) (l, w). k = l \<and> same_kind v w) fs gs"

lemma write_fields_unique:
  assumes "same_schema fs gs" "write_fields fs @ u = write_fields gs @ v" "number_ends u" "number_ends v"
  shows "fs = gs \<and> u = v"
  using assms
proof (induction fs arbitrary: gs rule: induct_list012)
  case 1
  then show ?case by (simp add: same_schema_def)
next
  case (2 e)
  obtain k x where e: "e = (k, x)" by (cases e)
  with 2 obtain y where gs: "gs = [(k, y)]" "same_kind x y"
    by (auto simp: same_schema_def list_all2_Cons1)
  with "2.prems" e show ?case by (auto dest: write_value_unique)
next
  case (3 e f fs)
  obtain k x where e: "e = (k, x)" by (cases e)
  with 3 obtain y g hs where gs: "gs = (k, y) # g # hs" "same_kind x y" "same_schema (f # fs) (g # hs)"
    by (auto simp: same_schema_def list_all2_Cons1)
  with "3.prems"(2) e have "write_value x @ CHR '','' # write_fields (f # fs) @ u
      = write_value y @ CHR '','' # write_fields (g # hs) @ v" by simp
  from write_value_unique [OF gs(2) this] have "x = y"
    and "write_fields (f # fs) @ u = write_fields (g # hs) @ v" by simp_all
  with "3.IH"(2) [OF gs(3)] "3.prems" gs e show ?case by simp
qed

theorem write_object_unique:
  assumes "same_schema fs gs" "write_object fs = write_object gs"
  shows "fs = gs"
  using write_fields_unique [OF assms(1), of "''}''" "''}''"] assms(2) by (simp add: join_object_def)

section \<open>Reading\<close>

fun kind_of :: "field_value \<Rightarrow> field_kind" where
  "kind_of (IntV _) = IntK"
| "kind_of _ = StrK"

fun spec_value :: "field_kind \<Rightarrow> string \<Rightarrow> (field_value \<times> string) outcome" where
  "spec_value IntK s = bind (spec_integer s) (\<lambda>(v, s). Return (IntV v, s))"
| "spec_value StrK s = bind (spec_read_string s) (\<lambda>(v, s). Return (StrV v, s))"

fun spec_fields :: "(string \<times> field_kind) list \<Rightarrow> string \<Rightarrow> (field_value list \<times> string) outcome" where
  "spec_fields [] s = Return ([], s)"
| "spec_fields [(k, t)] s = bind (spec_key k s) (\<lambda>s. bind (spec_value t s) (\<lambda>(v, s). Return ([v], s)))"
| "spec_fields ((k, t) # f # fs) s =
     bind (spec_key k s) (\<lambda>s. bind (spec_value t s) (\<lambda>(v, s).
     bind (spec_expect (CHR '','') s) (\<lambda>s. bind (spec_fields (f # fs) s) (\<lambda>(vs, s).
     Return (v # vs, s)))))"

definition spec_object :: "(string \<times> field_kind) list \<Rightarrow> string \<Rightarrow> (field_value list \<times> string) outcome" where
  "spec_object sch s =
     bind (spec_expect (CHR ''{'') s) (\<lambda>s. bind (spec_fields sch s) (\<lambda>(vs, s).
     bind (spec_expect (CHR ''}'') s) (\<lambda>s. Return (vs, s))))"

text \<open>Keys made of characters that are printed as they are.\<close>

definition plain_key :: "string \<Rightarrow> bool" where
  "plain_key k \<longleftrightarrow> list_all (\<lambda>c. json_escape c = [c]) k"

lemma quoted_key_json_string: "plain_key k \<Longrightarrow> quoted_key k = json_string k @ [CHR '':'']"
  by (induction k) (auto simp: plain_key_def quoted_key_def json_string_def)

lemma spec_key_quoted_key: "plain_key k \<Longrightarrow> spec_key k (quoted_key k @ s) = Return s"
  by (simp add: quoted_key_json_string spec_key_def spec_read_string_json_string)

text \<open>Values whose printed form is read back: each stands for a value of a message.\<close>

locale value_codec =
  fixes shown :: "'v \<Rightarrow> string" and meaning :: "'v \<Rightarrow> field_value" and ok :: "'v \<Rightarrow> bool"
  assumes read_value: "ok v \<Longrightarrow> number_ends u \<Longrightarrow> spec_value (kind_of (meaning v)) (shown v @ u) = Return (meaning v, u)"
begin

abbreviation schema where
  "schema fs \<equiv> map (\<lambda>(k, v). (k, kind_of (meaning v))) fs"

lemma read_fields:
  assumes "\<forall>(k, v) \<in> set fs. plain_key k \<and> ok v" "number_ends u"
  shows "spec_fields (schema fs) (join_fields shown fs @ u) = Return (map (\<lambda>(k, v). meaning v) fs, u)"
  using assms
proof (induction fs rule: induct_list012)
  case (3 e f fs)
  then show ?case
    by (cases e; cases f) (simp add: spec_key_quoted_key read_value)
qed (auto simp: spec_key_quoted_key read_value)

lemma read_object:
  assumes "\<forall>(k, v) \<in> set fs. plain_key k \<and> ok v"
  shows "spec_object (schema fs) (join_object shown fs @ u) = Return (map (\<lambda>(k, v). meaning v) fs, u)"
  using read_fields [OF assms, of "CHR ''}'' # u"]
  by (simp add: spec_object_def join_object_def)

end

text \<open>The values of the C++ serialisers: strings, and integers other than the smallest.\<close>

fun readable :: "field_value \<Rightarrow> bool" where
  "readable (IntV w) \<longleftrightarrow> w \<noteq> int64_min"
| "readable (StrV s) \<longleftrightarrow> True"
| "readable (OrgV s) \<longleftrightarrow> False"

interpretation cpp_value: value_codec write_value "\<lambda>v. v" readable
proof
  fix v u
  assume "readable v" "number_ends u"
  then show "spec_value (kind_of v) (write_value v @ u) = Return (v, u)"
    by (cases v) (simp_all add: i64.decode js.decode)
qed

abbreviation schema_of :: "(string \<times> field_value) list \<Rightarrow> (string \<times> field_kind) list" where
  "schema_of fs \<equiv> map (\<lambda>(k, v). (k, kind_of v)) fs"

end
