(* ===== verification/Envelope.thy ===== *)
theory Envelope
  imports Flat_Object
begin

text \<open>
  The envelope splitter on what the serialisers print: the scan for the end of the payload, as a
  function of the remaining input, steps over strings and numbers without touching the brace depth,
  so that an envelope around a flat object splits into exactly that object and its type.
\<close>

section \<open>The scan on the remaining input\<close>

fun spec_scan :: "bool \<Rightarrow> bool \<Rightarrow> int \<Rightarrow> nat \<Rightarrow> string \<Rightarrow> nat option outcome" where
  "spec_scan in_string escaped depth i [] = Return None"
| "spec_scan in_string escaped depth i (ch # s) =
     (if in_string then
        (if escaped then spec_scan in_string False depth (i + 1) s
         else if ch = CHR 0x5C then spec_scan in_string True depth (i + 1) s
         else if ch = CHR 0x22 then spec_scan False escaped depth (i + 1) s
         else spec_scan in_string escaped depth (i + 1) s)
      else if ch = CHR 0x22 then spec_scan True escaped depth (i + 1) s
      else if ch = CHR ''{'' then spec_scan in_string escaped (depth + 1) (i + 1) s
      else if ch = CHR ''}'' then
        (if depth - 1 = 0 then Return (Some i)
         else if depth - 1 < 0 then Throw (Invalid_Argument ''invalid envelope nesting'')
         else spec_scan in_string escaped (depth - 1) (i + 1) s)
      else spec_scan in_string escaped depth (i + 1) s)"

lemma scan_payload_refines:
  "i \<le> length json \<Longrightarrow> drop i json = s \<Longrightarrow>
     scan_payload json i in_string escaped depth = spec_scan in_string escaped depth i s"
proof (induction s arbitrary: i in_string escaped depth)
  case Nil
  then show ?case by (simp add: scan_payload.simps [of json i])
next
  case (Cons ch s)
  then have s: "i < length json" "json ! i = ch" "drop (Suc i) json = s"
    using drop_eq_Cons [of i json ch s] by auto
  then have "scan_payload json (Suc i) b e d = spec_scan b e d (Suc i) s" for b e d
    by (intro Cons.IH) simp_all
  then show ?case using s by (simp add: scan_payload.simps [of json i] Let_def)
qed

text \<open>What the scan returns is the index of a closing brace inside the input.\<close>

lemma spec_scan_bounds:
  "spec_scan b e d i s = Return (Some n) \<Longrightarrow> i \<le> n \<and> n < i + length s \<and> s ! (n - i) = CHR ''}''"
proof (induction s arbitrary: b e d i)
  case (Cons ch s)
  have step: "i \<le> n \<and> n < i + length (ch # s) \<and> (ch # s) ! (n - i) = CHR ''}''"
    if "spec_scan b' e' d' (i + 1) s = Return (Some n)" for b' e' d'
    using Cons.IH [OF that] by (auto simp: nth_Cons' Suc_diff_Suc [symmetric])
  show ?case
  proof (cases "\<not> b \<and> ch = CHR ''}'' \<and> d = 1")
    case True
    with Cons.prems show ?thesis by simp
  next
    case False
    then have "\<exists>b' e' d'. spec_scan b' e' d' (i + 1) s = Return (Some n)"
      using Cons.prems by (auto split: if_splits)
    then show ?thesis using step by blast
  qed
qed simp

section \<open>Stepping over strings and numbers\<close>

lemma hex_char_quiet: "d < 16 \<Longrightarrow> hex_char d \<noteq> CHR 0x5C \<and> hex_char d \<noteq> CHR 0x22"
proof -
  assume d: "d < 16"
  have "(of_char (hex_char d) :: nat) \<notin> {0x5C, 0x22}" unfolding of_hex_char [OF d] using d by auto
  moreover have "(of_char (CHR 0x5C) :: nat) = 0x5C" "(of_char (CHR 0x22) :: nat) = 0x22" by simp_all
  ultimately show ?thesis by (metis insertCI)
qed

lemma spec_scan_in_string_plain:
  "\<forall>c \<in> set xs. c \<noteq> CHR 0x5C \<and> c \<noteq> CHR 0x22 \<Longrightarrow>
     spec_scan True False d i (xs @ s) = spec_scan True False d (i + length xs) s"
  by (induction xs arbitrary: i) auto

lemma spec_scan_escape:
  "spec_scan True False d i (json_escape c @ s) = spec_scan True False d (i + length (json_escape c)) s"
proof (cases c rule: json_escape_cases)
  case plain
  then show ?thesis by simp
next
  case (short e)
  then show ?thesis by simp
next
  case unicode
  have "\<forall>x \<in> set (hex4 (of_char c)). x \<noteq> CHR 0x5C \<and> x \<noteq> CHR 0x22"
    by (simp add: hex4_def hex_char_quiet)
  then show ?thesis using spec_scan_in_string_plain [of "hex4 (of_char c)" d "i + 2" s] unicode
    by simp
qed

lemma spec_scan_json_string:
  "spec_scan False False d i (json_string v @ s) = spec_scan False False d (i + length (json_string v)) s"
proof -
  have "spec_scan True False d i (concat (map json_escape v) @ CHR 0x22 # s)
      = spec_scan False False d (i + length (concat (map json_escape v)) + 1) s" for i
    by (induction v arbitrary: i) (simp_all add: spec_scan_escape add.assoc)
  from this [of "i + 1"] show ?thesis by (simp add: json_string_def add.commute)
qed

lemma spec_scan_quiet:
  "\<forall>c \<in> set xs. c \<noteq> CHR 0x22 \<and> c \<noteq> CHR ''{'' \<and> c \<noteq> CHR ''}'' \<Longrightarrow>
     spec_scan False False d i (xs @ s) = spec_scan False False d (i + length xs) s"
  by (induction xs arbitrary: i) auto

lemma digit_quiet: "is_digit c \<Longrightarrow> c \<noteq> CHR 0x22 \<and> c \<noteq> CHR ''{'' \<and> c \<noteq> CHR ''}''"
  by (auto simp: is_digit_def)

lemma spec_scan_dec_int64:
  "spec_scan False False d i (dec_int64 w @ s) = spec_scan False False d (i + length (dec_int64 w)) s"
  by (rule spec_scan_quiet) (auto simp: dec_int64_def dec_int_def dest!: bspec [OF dec_nat_digits] digit_quiet)

lemma spec_scan_write_value:
  "spec_scan False False d i (write_value v @ s) = spec_scan False False d (i + length (write_value v)) s"
  by (cases v) (simp_all add: spec_scan_dec_int64 spec_scan_json_string json_organization_def)

lemma spec_scan_quoted_key:
  "plain_key k \<Longrightarrow>
     spec_scan False False d i (quoted_key k @ s) = spec_scan False False d (i + length (quoted_key k)) s"
  by (simp add: quoted_key_json_string spec_scan_json_string)

text \<open>Values the scan steps over, whatever follows.\<close>

locale quiet_values =
  fixes shown :: "'v \<Rightarrow> string" and safe :: "'v \<Rightarrow> bool"
  assumes scan_value: "safe v \<Longrightarrow> spec_scan False False d i (shown v @ s) = spec_scan False False d (i + length (shown v)) s"
begin

lemma scan_fields:
  assumes "\<forall>(k, v) \<in> set fs. plain_key k \<and> safe v"
  shows "spec_scan False False d i (join_fields shown fs @ s)
    = spec_scan False False d (i + length (join_fields shown fs)) s"
  using assms
proof (induction fs arbitrary: i rule: induct_list012)
  case (3 e f fs)
  then show ?case by (cases e) (simp add: spec_scan_quoted_key scan_value add.assoc)
qed (auto simp: spec_scan_quoted_key scan_value add.assoc)

end

interpretation cpp_scan: quiet_values write_value "\<lambda>v. True"
  by unfold_locales (rule spec_scan_write_value)

section \<open>Splitting what was joined\<close>

definition join_envelope :: "string \<Rightarrow> string \<Rightarrow> string" where
  "join_envelope ty object = envelope_prefix @ object @ type_prefix @ ty @ [CHR 0x22, CHR ''}'']"

abbreviation write_envelope :: "string \<Rightarrow> (string \<times> field_value) list \<Rightarrow> string" where
  "write_envelope ty fs \<equiv> join_envelope ty (write_object fs)"

lemma find_from_append: "c \<notin> set xs \<Longrightarrow> find_from c (ys @ xs @ c # zs) (length ys) = Some (length ys + length xs)"
  by (simp add: find_from_def find_char_append)

lemma split_envelope_ReturnI:
  assumes "length envelope_prefix < length json" "starts_with envelope_prefix json"
    "json ! length envelope_prefix = CHR ''{''"
    "scan_payload json (length envelope_prefix) False False 0 = Return (Some n)"
    "drop (n + 1) json = type_prefix @ ty @ [CHR 0x22, CHR ''}'']" "CHR 0x22 \<notin> set ty"
  shows "split_envelope json
    = Return (take (n - length envelope_prefix + 1) (drop (length envelope_prefix) json), ty)"
  using assms(1-4) find_from_append [OF assms(6), of type_prefix "''}''"]
  unfolding split_envelope_def Let_def
  by (simp only: assms(5) bind.simps option.case) simp

text \<open>An object whose inside the scan steps over is split off.\<close>

lemma split_object:
  assumes "\<And>d i s. spec_scan False False d i (t @ s) = spec_scan False False d (i + length t) s" and "CHR 0x22 \<notin> set ty"
  shows "split_envelope (join_envelope ty (''{'' @ t @ ''}'')) = Return (''{'' @ t @ ''}'', ty)"
proof -
  let ?o = "''{'' @ t @ ''}''" and ?suf = "type_prefix @ ty @ [CHR 0x22, CHR ''}'']"
  let ?k = "length envelope_prefix" and ?j = "join_envelope ty (''{'' @ t @ ''}'')"
  let ?n = "?k + length t + 1"
  have "scan_payload ?j ?k False False 0 = Return (Some ?n)"
    using scan_payload_refines [of ?k ?j "?o @ ?suf"] assms(1) [of 1 "?k + 1" "CHR ''}'' # ?suf"]
    by (simp add: join_envelope_def)
  moreover have "drop (?n + 1) ?j = ?suf" "?j ! ?k = CHR ''{''" "?k < length ?j" "starts_with envelope_prefix ?j"
    by (simp_all add: join_envelope_def nth_append)
  ultimately have "split_envelope ?j = Return (take (?n - ?k + 1) (drop ?k ?j), ty)"
    using assms(2) by (intro split_envelope_ReturnI)
  then show ?thesis by (simp add: join_envelope_def)
qed

context quiet_values
begin

lemma split_joined:
  assumes "\<forall>(k, v) \<in> set fs. plain_key k \<and> safe v" and "CHR 0x22 \<notin> set ty"
  shows "split_envelope (join_envelope ty (join_object shown fs)) = Return (join_object shown fs, ty)"
  using split_object [OF scan_fields [OF assms(1)] assms(2)] by (simp add: join_object_def)

end

text \<open>Conversely, every envelope the splitter accepts is the payload and the type it returns, joined.\<close>

lemma find_from_SomeD:
  assumes "find_from c s i = Some q"
  shows "i \<le> q" "q < length s" "s ! q = c" "c \<notin> set (take (q - i) (drop i s))"
proof -
  from assms obtain k where k: "find_char c (drop i s) = Some k" and q: "q = i + k"
    by (auto simp: find_from_def)
  from find_char_SomeD [OF k] show "i \<le> q" "q < length s" "s ! q = c"
    "c \<notin> set (take (q - i) (drop i s))"
    by (auto simp: q)
qed

lemma split_envelope_ReturnD:
  assumes "split_envelope json = Return (p, ty)"
  obtains n q where
    "length envelope_prefix < length json" "starts_with envelope_prefix json"
    "scan_payload json (length envelope_prefix) False False 0 = Return (Some n)"
    "p = take (n - length envelope_prefix + 1) (drop (length envelope_prefix) json)"
    "starts_with type_prefix (drop (n + 1) json)" "last (drop (n + 1) json) = CHR ''}''"
    "find_from (CHR 0x22) (drop (n + 1) json) (length type_prefix) = Some q"
    "q + 2 = length (drop (n + 1) json)"
    "ty = take (q - length type_prefix) (drop (length type_prefix) (drop (n + 1) json))"
  using assms unfolding split_envelope_def Let_def
  by (auto simp del: drop_drop split: if_splits option.splits elim!: bind_ReturnE)

lemma two_left:
  assumes "q + 2 = length s" shows "drop q s = [s ! q, last s]"
proof -
  have "drop q s = s ! q # drop (Suc q) s" using assms by (simp add: Cons_nth_drop_Suc)
  moreover have "drop (Suc q) s = [last s]"
    using assms by (metis Suc_eq_plus1 add_2_eq_Suc' append_butlast_last_id append_eq_conv_conj
        length_butlast diff_Suc_1 list.size(3) nat.simps(3))
  ultimately show ?thesis by simp
qed

theorem split_envelope_sound:
  assumes "split_envelope json = Return (p, ty)"
  shows "json = envelope_prefix @ p @ type_prefix @ ty @ [CHR 0x22, CHR ''}'']"
    and "CHR 0x22 \<notin> set ty"
proof -
  let ?k = "length envelope_prefix"
  from assms obtain n q where pre: "?k < length json" "starts_with envelope_prefix json"
    and scan: "scan_payload json ?k False False 0 = Return (Some n)"
    and p: "p = take (n - ?k + 1) (drop ?k json)"
    and suf: "starts_with type_prefix (drop (n + 1) json)" "last (drop (n + 1) json) = CHR ''}''"
    and find: "find_from (CHR 0x22) (drop (n + 1) json) (length type_prefix) = Some q"
    and q: "q + 2 = length (drop (n + 1) json)"
    and ty: "ty = take (q - length type_prefix) (drop (length type_prefix) (drop (n + 1) json))"
    by (rule split_envelope_ReturnD)
  let ?s = "drop (n + 1) json"
  have "?k \<le> n"
    using scan scan_payload_refines [OF less_imp_le [OF pre(1)] refl] spec_scan_bounds by metis
  then have "drop (n - ?k + 1) (drop ?k json) = ?s" by (simp add: drop_drop)
  then have payload: "drop ?k json = p @ ?s"
    using append_take_drop_id [of "n - ?k + 1" "drop ?k json"] by (simp only: p)
  note f = find_from_SomeD [OF find]
  have "drop (length type_prefix) ?s = ty @ [CHR 0x22, CHR ''}'']"
  proof -
    have "drop (q - length type_prefix) (drop (length type_prefix) ?s) = [CHR 0x22, CHR ''}'']"
      using two_left [OF q] f(1,3) suf(2) by (simp add: drop_drop add.commute)
    then show ?thesis unfolding ty by (metis append_take_drop_id)
  qed
  then have "?s = type_prefix @ ty @ [CHR 0x22, CHR ''}'']"
    using suf(1) by (metis append_take_drop_id starts_with_def)
  with payload pre(2) show "json = envelope_prefix @ p @ type_prefix @ ty @ [CHR 0x22, CHR ''}'']"
    by (metis append_take_drop_id starts_with_def)
  show "CHR 0x22 \<notin> set ty" unfolding ty by (rule f(4))
qed

end
