(* ===== verification/Messages.thy ===== *)
theory Messages
  imports Envelope
begin

text \<open>
  The three execution messages as flat objects: their printed forms determine every field that is
  printed, the parsers of the source return exactly the message that was printed, and the printed
  forms of different messages differ.
\<close>

section \<open>The messages as field lists\<close>

definition job_request_fields :: "JobRequest \<Rightarrow> (string \<times> field_value) list" where
  "job_request_fields job =
     [(''expires_at'', IntV (JobRequest.expires_at job)),
      (''issued_at'', IntV (JobRequest.issued_at job)),
      (''message_id'', StrV (JobRequest.message_id job)),
      (''operation'', StrV (operation job)),
      (''organization_id'', OrgV (JobRequest.organization_id job)),
      (''payload'', StrV (JobRequest.payload job)),
      (''protocol_version'', StrV (JobRequest.protocol_version job)),
      (''request_id'', StrV (JobRequest.request_id job)),
      (''sender_node_id'', StrV (sender_node_id job)),
      (''signature_algorithm'', StrV (JobRequest.signature_algorithm job)),
      (''target_node_id'', StrV (target_node_id job))]"

definition job_result_fields :: "JobResult \<Rightarrow> (string \<times> field_value) list" where
  "job_result_fields result =
     [(''completed_at'', IntV (completed_at result)),
      (''message_id'', StrV (JobResult.message_id result)),
      (''payload'', StrV (JobResult.payload result)),
      (''protocol_version'', StrV (JobResult.protocol_version result)),
      (''recipient_node_id'', StrV (recipient_node_id result)),
      (''request_id'', StrV (JobResult.request_id result)),
      (''responder_node_id'', StrV (responder_node_id result)),
      (''signature_algorithm'', StrV (JobResult.signature_algorithm result)),
      (''status'', StrV (status result))]"

definition failure_notice_fields :: "FailureNotice \<Rightarrow> (string \<times> field_value) list" where
  "failure_notice_fields notice =
     [(''failed_node_id'', StrV (failed_node_id notice)),
      (''message_id'', StrV (FailureNotice.message_id notice)),
      (''observed_at'', IntV (observed_at notice)),
      (''protocol_version'', StrV (FailureNotice.protocol_version notice)),
      (''reason'', StrV (reason notice)),
      (''reporting_node_id'', StrV (reporting_node_id notice)),
      (''request_id'', StrV (FailureNotice.request_id notice)),
      (''signature_algorithm'', StrV (FailureNotice.signature_algorithm notice))]"

text \<open>The signed forms carry the signature just before the signature algorithm.\<close>

definition with_signature :: "string \<Rightarrow> (string \<times> field_value) list \<Rightarrow> (string \<times> field_value) list" where
  "with_signature sig fs =
     takeWhile (\<lambda>f. fst f \<noteq> ''signature_algorithm'') fs @ [(''signature'', StrV sig)]
     @ dropWhile (\<lambda>f. fst f \<noteq> ''signature_algorithm'') fs"

lemmas message_fields = job_request_fields_def job_result_fields_def failure_notice_fields_def

named_theorems printed_forms "the serialisers as flat objects"

lemma canonical_job_request_json_object [printed_forms]:
  "canonical_job_request_json job = write_object (job_request_fields job)"
  by (simp add: canonical_job_request_json_def join_object_def message_fields quoted_key_def)

lemma canonical_job_result_json_object [printed_forms]:
  "canonical_job_result_json result = write_object (job_result_fields result)"
  by (simp add: canonical_job_result_json_def join_object_def message_fields quoted_key_def)

lemma canonical_failure_notice_json_object [printed_forms]:
  "canonical_failure_notice_json notice = write_object (failure_notice_fields notice)"
  by (simp add: canonical_failure_notice_json_def join_object_def message_fields quoted_key_def)

lemma job_request_envelope_object [printed_forms]:
  "job_request_envelope_json job =
     write_envelope ''JOB_REQUEST'' (with_signature (JobRequest.signature job) (job_request_fields job))"
  by (simp add: job_request_envelope_json_def signed_job_request_json_def join_envelope_def
      join_object_def message_fields with_signature_def quoted_key_def envelope_prefix_def type_prefix_def)

lemma job_result_envelope_object [printed_forms]:
  "job_result_envelope_json result =
     write_envelope ''JOB_RESULT'' (with_signature (JobResult.signature result) (job_result_fields result))"
  by (simp add: job_result_envelope_json_def signed_job_result_json_def join_envelope_def
      join_object_def message_fields with_signature_def quoted_key_def envelope_prefix_def type_prefix_def)

lemma failure_notice_envelope_object [printed_forms]:
  "failure_notice_envelope_json notice =
     write_envelope ''FAILURE_NOTICE'' (with_signature (FailureNotice.signature notice) (failure_notice_fields notice))"
  by (simp add: failure_notice_envelope_json_def signed_failure_notice_json_def join_envelope_def
      join_object_def message_fields with_signature_def quoted_key_def envelope_prefix_def type_prefix_def)

section \<open>What is signed determines the message\<close>

lemma same_schema_fields [simp]:
  "same_schema (job_request_fields a) (job_request_fields b)"
  "same_schema (job_result_fields c) (job_result_fields d)"
  "same_schema (failure_notice_fields e) (failure_notice_fields f)"
  by (simp_all add: same_schema_def message_fields)

lemma job_request_fields_eq:
  "job_request_fields a = job_request_fields b \<Longrightarrow>
     a\<lparr>JobRequest.signature := s\<rparr> = b\<lparr>JobRequest.signature := s\<rparr>"
  by (cases a, cases b) (simp add: message_fields)

lemma job_result_fields_eq:
  "job_result_fields a = job_result_fields b \<Longrightarrow>
     a\<lparr>JobResult.signature := s\<rparr> = b\<lparr>JobResult.signature := s\<rparr>"
  by (cases a, cases b) (simp add: message_fields)

lemma failure_notice_fields_eq:
  "failure_notice_fields a = failure_notice_fields b \<Longrightarrow>
     a\<lparr>FailureNotice.signature := s\<rparr> = b\<lparr>FailureNotice.signature := s\<rparr>"
  by (cases a, cases b) (simp add: message_fields)

lemma canonical_job_request_unique:
  "canonical_job_request_json a = canonical_job_request_json b \<Longrightarrow>
     a\<lparr>JobRequest.signature := s\<rparr> = b\<lparr>JobRequest.signature := s\<rparr>"
  by (rule job_request_fields_eq, rule write_object_unique) (simp_all add: printed_forms)

lemma canonical_job_result_unique:
  "canonical_job_result_json a = canonical_job_result_json b \<Longrightarrow>
     a\<lparr>JobResult.signature := s\<rparr> = b\<lparr>JobResult.signature := s\<rparr>"
  by (rule job_result_fields_eq, rule write_object_unique) (simp_all add: printed_forms)

lemma canonical_kinds_differ:
  "canonical_job_request_json q \<noteq> canonical_job_result_json r"
  "canonical_job_request_json q \<noteq> canonical_failure_notice_json n"
  "canonical_job_result_json r \<noteq> canonical_failure_notice_json n"
  by (simp_all add: canonical_job_request_json_def canonical_job_result_json_def
      canonical_failure_notice_json_def)

lemma canonical_failure_notice_unique:
  "canonical_failure_notice_json a = canonical_failure_notice_json b \<Longrightarrow>
     a\<lparr>FailureNotice.signature := s\<rparr> = b\<lparr>FailureNotice.signature := s\<rparr>"
  by (rule failure_notice_fields_eq, rule write_object_unique) (simp_all add: printed_forms)

section \<open>Readability\<close>

lemma plain_keys [simp]:
  "\<forall>(k, v) \<in> set (with_signature s (job_request_fields a)). plain_key k \<and> True"
  "\<forall>(k, v) \<in> set (with_signature s (job_result_fields b)). plain_key k \<and> True"
  "\<forall>(k, v) \<in> set (with_signature s (failure_notice_fields c)). plain_key k \<and> True"
  by (simp_all add: with_signature_def message_fields plain_key_def json_escape_def)

lemma envelope_types [simp]:
  "CHR 0x22 \<notin> set ''JOB_REQUEST''" "CHR 0x22 \<notin> set ''JOB_RESULT''" "CHR 0x22 \<notin> set ''FAILURE_NOTICE''"
  by simp_all

lemma split_job_request_envelope:
  "split_envelope (job_request_envelope_json job) = Return (signed_job_request_json job, ''JOB_REQUEST'')"
  using cpp_scan.split_joined [OF plain_keys(1) envelope_types(1)]
  by (simp add: printed_forms) (simp add: signed_job_request_json_def
      join_object_def message_fields with_signature_def quoted_key_def)

lemma split_job_result_envelope:
  "split_envelope (job_result_envelope_json result) = Return (signed_job_result_json result, ''JOB_RESULT'')"
  using cpp_scan.split_joined [OF plain_keys(2) envelope_types(2)]
  by (simp add: printed_forms) (simp add: signed_job_result_json_def
      join_object_def message_fields with_signature_def quoted_key_def)

lemma split_failure_notice_envelope:
  "split_envelope (failure_notice_envelope_json notice)
     = Return (signed_failure_notice_json notice, ''FAILURE_NOTICE'')"
  using cpp_scan.split_joined [OF plain_keys(3) envelope_types(3)]
  by (simp add: printed_forms) (simp add: signed_failure_notice_json_def
      join_object_def message_fields with_signature_def quoted_key_def)

section \<open>The message readers refine the schema-driven reader\<close>

definition job_result_schema :: "(string \<times> field_kind) list" where
  "job_result_schema = schema_of (with_signature [] (job_result_fields JobResult_default))"

definition failure_notice_schema :: "(string \<times> field_kind) list" where
  "failure_notice_schema = schema_of (with_signature [] (failure_notice_fields FailureNotice_default))"

text \<open>The value of a field, by its place in the schema.\<close>

fun int_of_value :: "field_value \<Rightarrow> int64" where
  "int_of_value (IntV w) = w"
| "int_of_value _ = 0"

fun str_of_value :: "field_value \<Rightarrow> string" where
  "str_of_value (StrV s) = s"
| "str_of_value _ = []"

definition job_result_of :: "field_value list \<Rightarrow> JobResult" where
  "job_result_of vs = \<lparr>JobResult.protocol_version = str_of_value (vs ! 3),
     JobResult.message_id = str_of_value (vs ! 1), JobResult.request_id = str_of_value (vs ! 5),
     responder_node_id = str_of_value (vs ! 6), recipient_node_id = str_of_value (vs ! 4),
     status = str_of_value (vs ! 9), JobResult.payload = str_of_value (vs ! 2),
     completed_at = int_of_value (vs ! 0), JobResult.signature_algorithm = str_of_value (vs ! 8),
     JobResult.signature = str_of_value (vs ! 7)\<rparr>"

definition failure_notice_of :: "field_value list \<Rightarrow> FailureNotice" where
  "failure_notice_of vs = \<lparr>FailureNotice.protocol_version = str_of_value (vs ! 3),
     FailureNotice.message_id = str_of_value (vs ! 1), FailureNotice.request_id = str_of_value (vs ! 6),
     reporting_node_id = str_of_value (vs ! 5), failed_node_id = str_of_value (vs ! 0),
     reason = str_of_value (vs ! 4), observed_at = int_of_value (vs ! 2),
     FailureNotice.signature_algorithm = str_of_value (vs ! 8),
     FailureNotice.signature = str_of_value (vs ! 7)\<rparr>"

text \<open>One field and the separator after it, on both sides of the refinement.\<close>

lemma string_field_step:
  assumes "suffix s json"
    and "\<And>v s'. suffix s' json \<Longrightarrow> F v (reader_at json s') = map_outcome h (G v s')"
  shows "bind (string_field k (reader_at json s)) (\<lambda>(v, r). bind (expect c r) (\<lambda>r. F v r))
    = map_outcome h (bind (spec_string_field k s) (\<lambda>(v, s). bind (spec_expect c s) (\<lambda>s. G v s)))"
proof (cases "spec_string_field k s")
  case (Return p)
  then have "suffix (snd p) json"
    using assms(1) by (cases p) (auto intro: suffix_consumed dest: spec_string_field_suffix)
  moreover from this have "bind (map_outcome (reader_at json) (spec_expect c (snd p))) (F (fst p))
      = map_outcome h (bind (spec_expect c (snd p)) (G (fst p)))"
    by (intro bind_reader_at assms(2)) (erule (1) spec_expect_suffix_json)
  ultimately show ?thesis
    using Return assms(1) by (simp add: string_field_refines expect_refines split_def
        del: bind_map_outcome map_outcome_bind)
qed (use assms(1) in \<open>simp_all add: string_field_refines\<close>)

lemma integer_field_step:
  assumes "suffix s json"
    and "\<And>v s'. suffix s' json \<Longrightarrow> F v (reader_at json s') = map_outcome h (G v s')"
  shows "bind (integer_field k (reader_at json s)) (\<lambda>(v, r). bind (expect c r) (\<lambda>r. F v r))
    = map_outcome h (bind (spec_integer_field k s) (\<lambda>(v, s). bind (spec_expect c s) (\<lambda>s. G v s)))"
proof (cases "spec_integer_field k s")
  case (Return p)
  then have "suffix (snd p) json"
    using assms(1) by (cases p) (auto intro: suffix_consumed dest: spec_integer_field_suffix)
  moreover from this have "bind (map_outcome (reader_at json) (spec_expect c (snd p))) (F (fst p))
      = map_outcome h (bind (spec_expect c (snd p)) (G (fst p)))"
    by (intro bind_reader_at assms(2)) (erule (1) spec_expect_suffix_json)
  ultimately show ?thesis
    using Return assms(1) by (simp add: integer_field_refines expect_refines split_def
        del: bind_map_outcome map_outcome_bind)
qed (use assms(1) in \<open>simp_all add: integer_field_refines\<close>)

lemma expect_step:
  assumes "suffix s json" and "\<And>s'. suffix s' json \<Longrightarrow> F (reader_at json s') = map_outcome h (G s')"
  shows "bind (expect c (reader_at json s)) F = map_outcome h (bind (spec_expect c s) G)"
  unfolding expect_refines [OF assms(1)]
  by (rule bind_reader_at, erule spec_expect_suffix_json [OF assms(1)], erule assms(2))

lemma read_job_result_refines:
  assumes "suffix s json"
  shows "read_job_result (reader_at json s) =
    map_outcome (\<lambda>(vs, s). (job_result_of vs, reader_at json s)) (spec_object job_result_schema s)"
proof -
  have "spec_object job_result_schema s =
      bind (spec_expect (CHR ''{'') s) (\<lambda>s.
      bind (spec_integer_field ''completed_at'' s) (\<lambda>(v0, s). bind (spec_expect (CHR '','') s) (\<lambda>s.
      bind (spec_string_field ''message_id'' s) (\<lambda>(v1, s). bind (spec_expect (CHR '','') s) (\<lambda>s.
      bind (spec_string_field ''payload'' s) (\<lambda>(v2, s). bind (spec_expect (CHR '','') s) (\<lambda>s.
      bind (spec_string_field ''protocol_version'' s) (\<lambda>(v3, s). bind (spec_expect (CHR '','') s) (\<lambda>s.
      bind (spec_string_field ''recipient_node_id'' s) (\<lambda>(v4, s). bind (spec_expect (CHR '','') s) (\<lambda>s.
      bind (spec_string_field ''request_id'' s) (\<lambda>(v5, s). bind (spec_expect (CHR '','') s) (\<lambda>s.
      bind (spec_string_field ''responder_node_id'' s) (\<lambda>(v6, s). bind (spec_expect (CHR '','') s) (\<lambda>s.
      bind (spec_string_field ''signature'' s) (\<lambda>(v7, s). bind (spec_expect (CHR '','') s) (\<lambda>s.
      bind (spec_string_field ''signature_algorithm'' s) (\<lambda>(v8, s). bind (spec_expect (CHR '','') s) (\<lambda>s.
      bind (spec_string_field ''status'' s) (\<lambda>(v9, s). bind (spec_expect (CHR ''}'') s) (\<lambda>s.
      Return ([IntV v0, StrV v1, StrV v2, StrV v3, StrV v4, StrV v5, StrV v6, StrV v7, StrV v8, StrV v9], s)
      )))))))))))))))))))))"
    by (simp add: spec_object_def job_result_schema_def with_signature_def message_fields
        spec_string_field_def spec_integer_field_def split_def)
  then show ?thesis
    unfolding read_job_result_def Let_def
    by (simp only:) (intro expect_step integer_field_step string_field_step assms;
        simp add: job_result_of_def JobResult_default_def)
qed

lemma read_failure_notice_refines:
  assumes "suffix s json"
  shows "read_failure_notice (reader_at json s) =
    map_outcome (\<lambda>(vs, s). (failure_notice_of vs, reader_at json s)) (spec_object failure_notice_schema s)"
proof -
  have "spec_object failure_notice_schema s =
      bind (spec_expect (CHR ''{'') s) (\<lambda>s.
      bind (spec_string_field ''failed_node_id'' s) (\<lambda>(v0, s). bind (spec_expect (CHR '','') s) (\<lambda>s.
      bind (spec_string_field ''message_id'' s) (\<lambda>(v1, s). bind (spec_expect (CHR '','') s) (\<lambda>s.
      bind (spec_integer_field ''observed_at'' s) (\<lambda>(v2, s). bind (spec_expect (CHR '','') s) (\<lambda>s.
      bind (spec_string_field ''protocol_version'' s) (\<lambda>(v3, s). bind (spec_expect (CHR '','') s) (\<lambda>s.
      bind (spec_string_field ''reason'' s) (\<lambda>(v4, s). bind (spec_expect (CHR '','') s) (\<lambda>s.
      bind (spec_string_field ''reporting_node_id'' s) (\<lambda>(v5, s). bind (spec_expect (CHR '','') s) (\<lambda>s.
      bind (spec_string_field ''request_id'' s) (\<lambda>(v6, s). bind (spec_expect (CHR '','') s) (\<lambda>s.
      bind (spec_string_field ''signature'' s) (\<lambda>(v7, s). bind (spec_expect (CHR '','') s) (\<lambda>s.
      bind (spec_string_field ''signature_algorithm'' s) (\<lambda>(v8, s). bind (spec_expect (CHR ''}'') s) (\<lambda>s.
      Return ([StrV v0, StrV v1, IntV v2, StrV v3, StrV v4, StrV v5, StrV v6, StrV v7, StrV v8], s)
      )))))))))))))))))))"
    by (simp add: spec_object_def failure_notice_schema_def with_signature_def message_fields
        spec_string_field_def spec_integer_field_def split_def)
  then show ?thesis
    unfolding read_failure_notice_def Let_def
    by (simp only:) (intro expect_step integer_field_step string_field_step assms;
        simp add: failure_notice_of_def FailureNotice_default_def)
qed

lemma spec_fields_suffix: "spec_fields sch s = Return (vs, s') \<Longrightarrow> suffix s' s"
proof (induction sch s arbitrary: vs s' rule: spec_fields.induct)
  case (2 k t s)
  then show ?case
    by (cases t) (auto elim!: bind_ReturnE
      dest!: spec_key_suffix spec_integer_suffix spec_read_string_suffix intro: suffix_consumed)
next
  case (3 k t f fs s)
  from "3.prems" obtain s1 v s2 s3 ws where e: "spec_key k s = Return s1" "spec_value t s1 = Return (v, s2)"
    "spec_expect (CHR '','') s2 = Return s3" "spec_fields (f # fs) s3 = Return (ws, s')"
    by (auto elim!: bind_ReturnE)
  have "suffix s' s3" using "3.IH" e by blast
  moreover have "suffix s3 s2" using e(3) by (blast dest: spec_expect_suffix intro: strict_suffix_suffix)
  moreover have "suffix s2 s1" using e(2)
    by (cases t) (auto elim!: bind_ReturnE dest: spec_integer_suffix spec_read_string_suffix)
  moreover have "suffix s1 s" using e(1) by (rule spec_key_suffix)
  ultimately show ?case by (blast intro: suffix_consumed)
qed simp

lemma spec_object_suffix:
  assumes "spec_object sch s = Return (vs, s')"
  shows "suffix s' s"
proof -
  from assms obtain s1 s2 where "spec_expect (CHR ''{'') s = Return s1" "spec_fields sch s1 = Return (vs, s2)"
    "spec_expect (CHR ''}'') s2 = Return s'"
    unfolding spec_object_def by (auto elim!: bind_ReturnE)
  then have "suffix s1 s" "suffix s2 s1" "suffix s' s2"
    by (simp_all add: spec_expect_suffix strict_suffix_suffix spec_fields_suffix)
  then show ?thesis by (blast intro: suffix_consumed)
qed

lemma reader_done_at [simp]: "suffix s json \<Longrightarrow> reader_done (reader_at json s) \<longleftrightarrow> s = []"
  using at_end_reader_at [of s json] by (auto simp: reader_done_def at_end_def)

section \<open>The parsers\<close>

text \<open>Both parsers, without positions: split, check the type, read one object to the end.\<close>

definition spec_parse :: "string \<Rightarrow> (string \<times> field_kind) list \<Rightarrow> (field_value list \<Rightarrow> 'a)
    \<Rightarrow> string \<Rightarrow> 'a outcome" where
  "spec_parse ty sch build json =
     bind (split_envelope json) (\<lambda>(p, t).
       if t \<noteq> ty then Throw (Invalid_Argument (''expected '' @ ty @ '' envelope''))
       else bind (spec_object sch p) (\<lambda>(vs, s).
         if s \<noteq> [] then Throw (Invalid_Argument (''trailing '' @ ty @ '' data''))
         else Return (build vs)))"

lemma spec_object_end:
  "bind (map_outcome (\<lambda>(vs, s). (build vs, reader_at p s)) (spec_object sch p))
     (\<lambda>(m, r). if \<not> reader_done r then Throw e else Return m)
   = bind (spec_object sch p) (\<lambda>(vs, s). if s \<noteq> [] then Throw e else Return (build vs))"
  by (cases "spec_object sch p") (auto dest: spec_object_suffix)

lemma parse_job_result_refines:
  "parse_job_result_envelope_json json = spec_parse ''JOB_RESULT'' job_result_schema job_result_of json"
  unfolding parse_job_result_envelope_json_def spec_parse_def FlatJsonReader_new_at
    read_job_result_refines [OF suffix_order.refl] spec_object_end
  by (simp cong: if_cong)

lemma parse_failure_notice_refines:
  "parse_failure_notice_envelope_json json
     = spec_parse ''FAILURE_NOTICE'' failure_notice_schema failure_notice_of json"
  unfolding parse_failure_notice_envelope_json_def spec_parse_def FlatJsonReader_new_at
    read_failure_notice_refines [OF suffix_order.refl] spec_object_end
  by (simp cong: if_cong)

text \<open>Values that are printed, stepped over and read back make messages that are.\<close>

locale message_codec = value_codec shown meaning ok + quiet_values shown safe
  for shown :: "'v \<Rightarrow> string" and meaning ok safe +
  assumes ok_safe: "ok v \<Longrightarrow> safe v"
begin

lemma parse_joined:
  assumes "\<forall>(k, v) \<in> set fs. plain_key k \<and> ok v" "CHR 0x22 \<notin> set ty"
  shows "spec_parse ty (schema fs) build (join_envelope ty (join_object shown fs))
    = Return (build (map (\<lambda>(k, v). meaning v) fs))"
proof -
  have "\<forall>(k, v) \<in> set fs. plain_key k \<and> safe v" using assms(1) ok_safe by auto
  then show ?thesis
    using split_joined [of fs ty] read_object [OF assms(1), of "[]"] assms(2)
    by (simp add: spec_parse_def)
qed

end

interpretation cpp_codec: message_codec write_value "\<lambda>v. v" readable "\<lambda>v. True"
  by unfold_locales simp

lemma job_result_roundtrip:
  assumes "completed_at r \<noteq> int64_min"
  shows "parse_job_result_envelope_json (job_result_envelope_json r) = Return r"
proof -
  let ?fs = "with_signature (JobResult.signature r) (job_result_fields r)"
  have "\<forall>(k, v) \<in> set ?fs. plain_key k \<and> readable v"
    using assms by (simp add: with_signature_def message_fields plain_key_def json_escape_def)
  moreover have "schema_of ?fs = job_result_schema"
    by (simp add: job_result_schema_def with_signature_def message_fields)
  moreover have "job_result_of (map (\<lambda>(k, v). v) ?fs) = r"
    by (cases r) (simp add: job_result_of_def with_signature_def message_fields)
  ultimately show ?thesis
    using cpp_codec.parse_joined [of ?fs "''JOB_RESULT''" job_result_of]
    by (simp add: parse_job_result_refines printed_forms)
qed

lemma failure_notice_roundtrip:
  assumes "observed_at n \<noteq> int64_min"
  shows "parse_failure_notice_envelope_json (failure_notice_envelope_json n) = Return n"
proof -
  let ?fs = "with_signature (FailureNotice.signature n) (failure_notice_fields n)"
  have "\<forall>(k, v) \<in> set ?fs. plain_key k \<and> readable v"
    using assms by (simp add: with_signature_def message_fields plain_key_def json_escape_def)
  moreover have "schema_of ?fs = failure_notice_schema"
    by (simp add: failure_notice_schema_def with_signature_def message_fields)
  moreover have "failure_notice_of (map (\<lambda>(k, v). v) ?fs) = n"
    by (cases n) (simp add: failure_notice_of_def with_signature_def message_fields)
  ultimately show ?thesis
    using cpp_codec.parse_joined [of ?fs "''FAILURE_NOTICE''" failure_notice_of]
    by (simp add: parse_failure_notice_refines printed_forms)
qed

section \<open>The contract of a wire message\<close>

text \<open>
  What a peer relies on: an envelope names its type, and its parser undoes its serialiser.  Both
  messages that travel towards the initiating node satisfy it.
\<close>

locale wire_message =
  fixes envelope :: "'m \<Rightarrow> string" and parse :: "string \<Rightarrow> 'm outcome"
    and transmissible :: "'m \<Rightarrow> bool" and type_name :: string
  assumes roundtrip: "transmissible m \<Longrightarrow> parse (envelope m) = Return m"
    and envelope_type: "wire_envelope_type (envelope m) = Return type_name"
    and parse_type: "parse json = Return m \<Longrightarrow> wire_envelope_type json = Return type_name"
begin

lemma envelope_inj: "transmissible m \<Longrightarrow> transmissible n \<Longrightarrow> envelope m = envelope n \<Longrightarrow> m = n"
  by (metis outcome.inject roundtrip)

lemma other_type_rejected: "wire_envelope_type json = Return ty \<Longrightarrow> ty \<noteq> type_name \<Longrightarrow> parse json \<noteq> Return m"
  using parse_type [of json m] by auto

end

lemma spec_parse_type:
  "spec_parse ty sch build json = Return m \<Longrightarrow> wire_envelope_type json = Return ty"
  by (auto simp: spec_parse_def wire_envelope_type_def elim!: bind_ReturnE split: if_splits)

interpretation result_message: wire_message job_result_envelope_json parse_job_result_envelope_json
  "\<lambda>r. completed_at r \<noteq> int64_min" "''JOB_RESULT''"
proof unfold_locales
  fix m json
  show "wire_envelope_type (job_result_envelope_json m) = Return ''JOB_RESULT''"
    by (simp add: wire_envelope_type_def split_job_result_envelope)
  show "parse_job_result_envelope_json json = Return m \<Longrightarrow> wire_envelope_type json = Return ''JOB_RESULT''"
    by (simp add: parse_job_result_refines spec_parse_type)
qed (rule job_result_roundtrip)

interpretation failure_message: wire_message failure_notice_envelope_json parse_failure_notice_envelope_json
  "\<lambda>n. observed_at n \<noteq> int64_min" "''FAILURE_NOTICE''"
proof unfold_locales
  fix m json
  show "wire_envelope_type (failure_notice_envelope_json m) = Return ''FAILURE_NOTICE''"
    by (simp add: wire_envelope_type_def split_failure_notice_envelope)
  show "parse_failure_notice_envelope_json json = Return m \<Longrightarrow> wire_envelope_type json = Return ''FAILURE_NOTICE''"
    by (simp add: parse_failure_notice_refines spec_parse_type)
qed (rule failure_notice_roundtrip)

end
