(* ===== verification/Wire_Properties.thy ===== *)
theory Wire_Properties
  imports Messages
begin

text \<open>
  What the wire layer promises: messages survive the journey, signed payloads identify messages, the
  splitter and the reader accept exactly what they should, and where a number on the wire leaves the
  defined behaviour of the parser.
\<close>

section \<open>Round trips\<close>

text \<open>The smallest 64-bit integer is printed, but its magnitude overflows on the way back.\<close>

lemma spec_value_min: "number_ends u \<Longrightarrow> spec_value (kind_of (IntV int64_min)) (write_value (IntV int64_min) @ u) = Undefined"
  by (simp only: kind_of.simps write_value.simps spec_value.simps spec_integer_int64_min bind.simps)

lemma spec_fields_min:
  assumes "\<forall>(k, v) \<in> set fs. plain_key k \<and> (readable v \<or> v = IntV int64_min)" and "IntV int64_min \<in> snd ` set fs"
    and "number_ends u"
  shows "spec_fields (schema_of fs) (write_fields fs @ u) = Undefined"
  using assms
proof (induction fs rule: induct_list012)
  case (2 e)
  then show ?case using spec_value_min [of u] by (cases e) (simp add: spec_key_quoted_key)
next
  case (3 e f fs)
  obtain k v where e: "e = (k, v)" by (cases e)
  let ?t = "CHR '','' # write_fields (f # fs) @ u"
  have key: "spec_key k (quoted_key k @ s) = Return s" for s using 3 e by (simp add: spec_key_quoted_key)
  have ends: "number_ends ?t" by simp
  show ?case
  proof (cases "v = IntV int64_min")
    case True
    then show ?thesis using spec_value_min [OF ends] key e by (cases f) (simp del: kind_of.simps write_value.simps)
  next
    case False
    then have "spec_value (kind_of v) (write_value v @ ?t) = Return (v, ?t)"
      using 3 e ends by (intro cpp_value.read_value) auto
    moreover have "spec_fields (schema_of (f # fs)) (write_fields (f # fs) @ u) = Undefined"
      using 3 e False by (intro "3.IH"(2)) auto
    ultimately show ?thesis using key e by (cases f) simp
  qed
qed simp

lemma spec_parse_min:
  assumes "\<forall>(k, v) \<in> set fs. plain_key k \<and> (readable v \<or> v = IntV int64_min)" and "IntV int64_min \<in> snd ` set fs"
    and "CHR 0x22 \<notin> set ty"
  shows "spec_parse ty (schema_of fs) build (write_envelope ty fs) = Undefined"
proof -
  have "\<forall>(k, v) \<in> set fs. plain_key k \<and> True" using assms(1) by auto
  from cpp_scan.split_joined [OF this assms(3)] show ?thesis
    using spec_fields_min [OF assms(1,2), of "''}''"] by (simp add: spec_parse_def spec_object_def join_object_def)
qed
lemma job_result_min:
  assumes "completed_at r = int64_min"
  shows "parse_job_result_envelope_json (job_result_envelope_json r) = Undefined"
proof -
  let ?fs = "with_signature (JobResult.signature r) (job_result_fields r)"
  have "\<forall>(k, v) \<in> set ?fs. plain_key k \<and> (readable v \<or> v = IntV int64_min)" "IntV int64_min \<in> snd ` set ?fs"
    using assms by (simp_all add: with_signature_def message_fields plain_key_def json_escape_def)
  moreover have "schema_of ?fs = job_result_schema"
    by (simp add: job_result_schema_def with_signature_def message_fields)
  ultimately show ?thesis
    using spec_parse_min [of ?fs "''JOB_RESULT''" job_result_of] by (simp add: parse_job_result_refines printed_forms)
qed

lemma failure_notice_min:
  assumes "observed_at n = int64_min"
  shows "parse_failure_notice_envelope_json (failure_notice_envelope_json n) = Undefined"
proof -
  let ?fs = "with_signature (FailureNotice.signature n) (failure_notice_fields n)"
  have "\<forall>(k, v) \<in> set ?fs. plain_key k \<and> (readable v \<or> v = IntV int64_min)" "IntV int64_min \<in> snd ` set ?fs"
    using assms by (simp_all add: with_signature_def message_fields plain_key_def json_escape_def)
  moreover have "schema_of ?fs = failure_notice_schema"
    by (simp add: failure_notice_schema_def with_signature_def message_fields)
  ultimately show ?thesis
    using spec_parse_min [of ?fs "''FAILURE_NOTICE''" failure_notice_of]
    by (simp add: parse_failure_notice_refines printed_forms)
qed

text \<open>
  Claim C8. Parsing the envelope of a job result gives back the job result, and parsing that of a failure
  notice the notice, field by field, for every content of the string fields (quotes, braces, control bytes
  included) and every time stamp but one: the smallest 64-bit integer is printed as a number whose
  magnitude overflows, so that the parser leaves the defined behaviour.
\<close>

theorem envelope_roundtrip:
  "parse_job_result_envelope_json (job_result_envelope_json r)
     = (if completed_at r = int64_min then Undefined else Return r) \<and>
   parse_failure_notice_envelope_json (failure_notice_envelope_json n)
     = (if observed_at n = int64_min then Undefined else Return n)"
  using result_message.roundtrip [of r] failure_message.roundtrip [of n] job_result_min [of r] failure_notice_min [of n]
  by (cases "completed_at r = int64_min"; cases "observed_at n = int64_min") simp_all

text \<open>
  Reading a string printed by \<open>json_string\<close> returns the bytes that were printed and leaves
  the reader exactly behind the closing quote, whatever follows.
\<close>

lemma read_string_json_string:
  "read_string (FlatJsonReader_new (json_string v @ rest))
     = Return (v, (FlatJsonReader_new (json_string v @ rest))\<lparr>reader_pos := length (json_string v)\<rparr>)"
  using read_string_refines [of "json_string v @ rest" "json_string v @ rest"]
  by (simp add: spec_read_string_json_string FlatJsonReader_new_at reader_at_def)

section \<open>Signed payloads\<close>

lemma canonical_job_request_binds:
  "canonical_job_request_json a = canonical_job_request_json b \<longleftrightarrow>
     a\<lparr>JobRequest.signature := []\<rparr> = b\<lparr>JobRequest.signature := []\<rparr>"
  by (auto intro: canonical_job_request_unique)
    (cases a, cases b, simp add: printed_forms message_fields)

lemma canonical_job_result_binds:
  "canonical_job_result_json a = canonical_job_result_json b \<longleftrightarrow>
     a\<lparr>JobResult.signature := []\<rparr> = b\<lparr>JobResult.signature := []\<rparr>"
  by (auto intro: canonical_job_result_unique)
    (cases a, cases b, simp add: printed_forms message_fields)

lemma canonical_failure_notice_binds:
  "canonical_failure_notice_json a = canonical_failure_notice_json b \<longleftrightarrow>
     a\<lparr>FailureNotice.signature := []\<rparr> = b\<lparr>FailureNotice.signature := []\<rparr>"
  by (auto intro: canonical_failure_notice_unique)
    (cases a, cases b, simp add: printed_forms message_fields)

text \<open>
  Claim C9. Two messages of one kind have the same canonical payload exactly when they agree on every
  field but the signature.  A signature over a request is therefore bound to its target node, operation,
  payload and validity window, one over a result to its responder, status, payload and time, and one
  over a failure notice to the reporting and the failed node and to the reason.
\<close>

theorem canonical_payloads_bind:
  "(canonical_job_request_json q = canonical_job_request_json q' \<longleftrightarrow>
      q\<lparr>JobRequest.signature := []\<rparr> = q'\<lparr>JobRequest.signature := []\<rparr>) \<and>
   (canonical_job_result_json r = canonical_job_result_json r' \<longleftrightarrow>
      r\<lparr>JobResult.signature := []\<rparr> = r'\<lparr>JobResult.signature := []\<rparr>) \<and>
   (canonical_failure_notice_json n = canonical_failure_notice_json n' \<longleftrightarrow>
      n\<lparr>FailureNotice.signature := []\<rparr> = n'\<lparr>FailureNotice.signature := []\<rparr>)"
  using canonical_job_request_binds canonical_job_result_binds canonical_failure_notice_binds by blast

section \<open>Envelopes\<close>

text \<open>
  Each of the three serialisers produces an envelope that splits into its signed payload
  and its own type name.
\<close>

lemma envelopes_split:
  "split_envelope (job_request_envelope_json q) = Return (signed_job_request_json q, ''JOB_REQUEST'') \<and>
   split_envelope (job_result_envelope_json r) = Return (signed_job_result_json r, ''JOB_RESULT'') \<and>
   split_envelope (failure_notice_envelope_json n) = Return (signed_failure_notice_json n, ''FAILURE_NOTICE'')"
  by (simp add: split_job_request_envelope split_job_result_envelope split_failure_notice_envelope)

text \<open>
  An envelope the splitter accepts is, byte for byte, the payload and the type it returns
  put between the fixed pieces of the format; nothing is dropped or left over, and the type holds
  no quote.
\<close>

theorem split_envelope_exact:
  assumes "split_envelope json = Return (p, ty)"
  shows "json = envelope_prefix @ p @ type_prefix @ ty @ [CHR 0x22, CHR ''}''] \<and> CHR 0x22 \<notin> set ty"
  using split_envelope_sound [OF assms] by blast

definition sample_result :: JobResult where
  "sample_result = \<lparr>JobResult.protocol_version = ''0.2'', JobResult.message_id = ''msg-1'',
     JobResult.request_id = ''job-1'', responder_node_id = ''node-b'', recipient_node_id = ''node-a'',
     status = ''OK'', JobResult.payload = [CHR ''}'', CHR 0x22, CHR 0x5C, CHR 0x01, CHR 0xC3],
     completed_at = 1700000001, JobResult.signature_algorithm = ''Ed25519'',
     JobResult.signature = ''c2ln''\<rparr>"

theorem split_envelope_exact_witness:
  "split_envelope (job_result_envelope_json sample_result)
     = Return (signed_job_result_json sample_result, ''JOB_RESULT'') \<and>
   job_result_envelope_json sample_result =
     envelope_prefix @ signed_job_result_json sample_result @ type_prefix @ ''JOB_RESULT''
       @ [CHR 0x22, CHR ''}'']"
  using split_envelope_exact [OF split_job_result_envelope [of sample_result]]
    split_job_result_envelope [of sample_result] by blast

section \<open>Integers on the wire\<close>

text \<open>
  Claim C33. The integer reader on an optional sign and a run of digits: below \<open>2 ^ 63\<close> it returns the
  signed value and stops behind the last digit; from \<open>2 ^ 63\<close> on the accumulation overflows, which is
  undefined behaviour.
\<close>

theorem integer_reads_digits:
  assumes "\<forall>c \<in> set ds. is_digit c" and "ds \<noteq> []" and "number_ends rest"
    and "json = (if negative then ''-'' else []) @ ds @ rest"
  shows "integer (FlatJsonReader_new json) =
    (if digits_value 0 ds < 2 ^ 63 then
       Return (word_of_int (if negative then - int (digits_value 0 ds) else int (digits_value 0 ds)),
         (FlatJsonReader_new json)\<lparr>reader_pos := length json - length rest\<rparr>)
     else Undefined)"
proof -
  have "integer (FlatJsonReader_new json) = map_outcome (resume json) (spec_integer json)"
    by (simp add: FlatJsonReader_new_at integer_refines)
  then show ?thesis
    using spec_integer_digits [OF assms(1-3)] assms(4)
    by (simp add: reader_at_def FlatJsonReader_new_def)
qed

theorem integer_reads_digits_witness:
  "integer (FlatJsonReader_new ''-042,'')
     = Return (- 42, (FlatJsonReader_new ''-042,'')\<lparr>reader_pos := 4\<rparr>) \<and>
   integer (FlatJsonReader_new ''9223372036854775808}'') = Undefined"
proof -
  have d: "\<forall>c \<in> set ''042''. is_digit c" "number_ends '',''"
    "\<forall>c \<in> set ''9223372036854775808''. is_digit c" "number_ends ''}''"
    by (simp_all add: is_digit_def)
  show ?thesis
    using integer_reads_digits [OF d(1) _ d(2), of "''-042,''" True]
      integer_reads_digits [OF d(3) _ d(4), of "''9223372036854775808}''" False]
    by (simp add: digit_val_def)
qed

text \<open>
  Claim C34. A response whose \<open>completed_at\<close> has the value \<open>2 ^ 63\<close> or more, as a run of digits of any
  length, drives the result parser into undefined behaviour: no exception is thrown and no handler
  can turn the response into a failure.
\<close>

theorem parse_job_result_overflows:
  assumes "split_envelope json = Return (''{'' @ quoted_key ''completed_at'' @ ds @ rest, ''JOB_RESULT'')"
    and "\<forall>c \<in> set ds. is_digit c" and "ds \<noteq> []" and "number_ends rest"
    and "2 ^ 63 \<le> digits_value 0 ds"
  shows "parse_job_result_envelope_json json = Undefined"
proof -
  have "plain_key ''completed_at''" by (simp add: plain_key_def json_escape_def)
  then have "spec_object job_result_schema (''{'' @ quoted_key ''completed_at'' @ ds @ rest) = Undefined"
    using spec_integer_digits(1) [OF assms(2-4)] assms(5)
    by (simp add: spec_object_def job_result_schema_def with_signature_def message_fields
        spec_key_quoted_key)
  then show ?thesis using assms(1) by (simp add: parse_job_result_refines spec_parse_def)
qed

definition overflowing_response :: string where
  \<open>overflowing_response = ''{"payload":{"completed_at":9223372036854775808},"type":"JOB_RESULT"}''\<close>

lemma split_overflowing_response:
  "split_envelope overflowing_response =
     Return (''{'' @ quoted_key ''completed_at'' @ ''9223372036854775808'' @ ''}'', ''JOB_RESULT'')"
  by code_simp

theorem parse_job_result_overflows_witness:
  "parse_job_result_envelope_json overflowing_response = Undefined"
proof -
  have "\<forall>c \<in> set ''9223372036854775808''. is_digit c" "number_ends ''}''"
    by (simp_all add: is_digit_def)
  then show ?thesis
    using parse_job_result_overflows [OF split_overflowing_response] by (simp add: digit_val_def)
qed

end
