(* ===== verification/Python_Interop.thy ===== *)
theory Python_Interop
  imports Codec
begin

unbundle bit_operations_syntax

text \<open>
  The strings of the Python reference implementation (\<open>canonical_json\<close> of \<open>auth.py\<close>, that is \<open>json.dumps\<close> with
  its default escaping to ASCII) beside those of \<open>canonical.hpp\<close> and \<open>wire_parse.hpp\<close>.  A Python string is a
  list of code points; the C++ side holds its UTF-8 bytes.
\<close>

section \<open>UTF-8\<close>

text \<open>The encoding form of a code point, by arithmetic.\<close>

definition utf8 :: "nat \<Rightarrow> string" where
  "utf8 c = map char_of
     (if c < 0x80 then [c]
      else if c < 0x800 then [0xc0 + c div 0x40, 0x80 + c mod 0x40]
      else if c < 0x10000 then [0xe0 + c div 0x1000, 0x80 + c div 0x40 mod 0x40, 0x80 + c mod 0x40]
      else [0xf0 + c div 0x40000, 0x80 + c div 0x1000 mod 0x40, 0x80 + c div 0x40 mod 0x40, 0x80 + c mod 0x40])"

definition scalar :: "nat \<Rightarrow> bool" where
  "scalar c \<longleftrightarrow> c < 0xd800 \<or> 0xdfff < c \<and> c \<le> 0x10ffff"

lemma unat_code_point: "c \<le> 0x10ffff \<Longrightarrow> unat (of_nat c :: uint32) = c"
  by (simp add: unat_of_nat)

lemma le_code_point: "c \<le> 0x10ffff \<Longrightarrow> of_nat c \<le> (numeral k :: uint32) \<longleftrightarrow> c \<le> unat (numeral k :: uint32)"
  by (simp add: word_le_nat_alt unat_code_point)

lemma or_high: "x < 2 ^ n \<Longrightarrow> push_bit n a OR x = push_bit n a + (x :: nat)"
proof -
  assume "x < 2 ^ n"
  then have "take_bit n x = x" by (simp add: take_bit_nat_eq_self)
  moreover have "push_bit n a AND take_bit n x = 0" by (auto simp: bit_eq_iff bit_simps)
  ultimately show ?thesis by (simp add: disjunctive_add_eq_or)
qed

lemma or_lead: "x < 0x40 \<Longrightarrow> 0x80 OR x = 0x80 + (x :: nat)" "x < 0x20 \<Longrightarrow> 0xc0 OR x = 0xc0 + x"
  "x < 0x10 \<Longrightarrow> 0xe0 OR x = 0xe0 + x" "x < 0x8 \<Longrightarrow> 0xf0 OR x = 0xf0 + x"
  using or_high [of x 6 2] or_high [of x 5 6] or_high [of x 4 14] or_high [of x 3 30]
  by (simp_all add: push_bit_eq_mult)

lemma and_low: "(x AND 0x3f) = x mod (0x40 :: nat)"
  using take_bit_eq_mask [of 6 x] by (simp add: take_bit_eq_mod mask_eq_exp_minus_1)

lemmas unat_bits = unsigned_or_eq unsigned_and_eq unsigned_drop_bit_eq unat_code_point

lemma append_utf8_utf8:
  assumes "c \<le> 0x10ffff"
  shows "append_utf8 out (of_nat c) = Return (out @ utf8 c)"
proof -
  have "c div 0x40 < 0x20" if "c \<le> 0x7ff" using that by auto
  moreover have "c div 0x1000 < 0x10" if "c \<le> 0xffff" using that by auto
  moreover have "c div 0x40000 < 0x8" using assms by auto
  ultimately show ?thesis
    using assms
    by (auto simp: append_utf8_def push_char_def utf8_def le_code_point unat_bits drop_bit_eq_div unat_div or_lead and_low)
qed

section \<open>Python strings\<close>

text \<open>
  \<open>ensure_ascii\<close>: the quote, the backslash and five control characters have a short escape, everything else
  outside of the printable ASCII characters is written with one or (beyond the basic plane) two units of
  UTF-16 in lower-case hexadecimal.
\<close>

definition unit_escape :: "nat \<Rightarrow> string" where
  "unit_escape n = [CHR 0x5C, CHR ''u''] @ hex4 n"

definition python_escape :: "nat \<Rightarrow> string" where
  "python_escape c =
     (if c = 0x22 then [CHR 0x5C, CHR 0x22]
      else if c = 0x5c then [CHR 0x5C, CHR 0x5C]
      else if c = 0x08 then [CHR 0x5C, CHR ''b'']
      else if c = 0x0c then [CHR 0x5C, CHR ''f'']
      else if c = 0x0a then [CHR 0x5C, CHR ''n'']
      else if c = 0x0d then [CHR 0x5C, CHR ''r'']
      else if c = 0x09 then [CHR 0x5C, CHR ''t'']
      else if 0x20 \<le> c \<and> c \<le> 0x7e then [char_of c]
      else if c < 0x10000 then unit_escape c
      else unit_escape (0xd800 + (c - 0x10000) div 0x400) @ unit_escape (0xdc00 + (c - 0x10000) mod 0x400))"

definition python_json_string :: "nat list \<Rightarrow> string" where
  "python_json_string s = [CHR 0x22] @ concat (map python_escape s) @ [CHR 0x22]"

section \<open>The C++ reader on Python strings\<close>

lemma unit_bounds:
  assumes "n < 0x10000"
  shows "(0xd800 :: uint32) \<le> of_nat n \<longleftrightarrow> 0xd800 \<le> n" "of_nat n \<le> (0xdbff :: uint32) \<longleftrightarrow> n \<le> 0xdbff"
    "(0xdc00 :: uint32) \<le> of_nat n \<longleftrightarrow> 0xdc00 \<le> n" "of_nat n \<le> (0xdfff :: uint32) \<longleftrightarrow> n \<le> 0xdfff"
  using assms by (simp_all add: word_le_nat_alt unat_of_nat)

lemma spec_unicode_unit:
  assumes "n < 0x10000" and "scalar n"
  shows "spec_unicode out (hex4 n @ s) = Return (out @ utf8 n, s)"
  using assms spec_unit_hex4 [of n s] append_utf8_utf8 [of n out]
  by (auto simp: spec_unicode_def unit_bounds scalar_def)

lemma spec_unicode_pair:
  assumes "0x10000 \<le> c" and "c \<le> 0x10ffff"
  shows "spec_unicode out (hex4 (0xd800 + (c - 0x10000) div 0x400) @ unit_escape (0xdc00 + (c - 0x10000) mod 0x400) @ s)
    = Return (out @ utf8 c, s)"
proof -
  define h l where "h = (c - 0x10000) div 0x400" and "l = (c - 0x10000) mod 0x400"
  have h: "h < 0x400" and l: "l < 0x400" and c: "c = 0x10000 + h * 0x400 + l"
    using assms by (simp_all add: h_def l_def div_mult_mod_eq less_mult_imp_div_less)
  have units: "spec_unit (hex4 (0xd800 + h) @ t) = Return (of_nat (0xd800 + h), t)"
    "spec_unit (hex4 (0xdc00 + l) @ t) = Return (of_nat (0xdc00 + l), t)" for t
    by (rule spec_unit_hex4, use h l in simp)+
  have "0x10000 + push_bit 10 (of_nat (0xd800 + h) - 0xd800) + (of_nat (0xdc00 + l) - 0xdc00) = (of_nat c :: uint32)"
    unfolding c by (simp add: push_bit_eq_mult)
  moreover have "\<not> of_nat (0xdc00 + l) < (0xdc00 :: uint32)" "\<not> of_nat (0xdc00 + l) > (0xdfff :: uint32)"
    using unit_bounds(3,4) [of "0xdc00 + l"] l by (simp_all only: not_less)
  ultimately have "spec_low (of_nat (0xd800 + h)) (unit_escape (0xdc00 + l) @ s) = Return (of_nat c, s)"
    by (simp only: unit_escape_def append.simps spec_low.simps units bind.simps split if_False simp_thms)
  moreover have "(0xd800 :: uint32) \<le> of_nat (0xd800 + h)" "of_nat (0xd800 + h) \<le> (0xdbff :: uint32)"
    using unit_bounds(1,2) [of "0xd800 + h"] h by simp_all
  ultimately show ?thesis
    unfolding h_def [symmetric] l_def [symmetric] spec_unicode_def
    using append_utf8_utf8 [OF assms(2)] by (simp only: units bind.simps split if_True simp_thms)
qed

lemma char_of_is: "c < 0x80 \<Longrightarrow> char_of c = ch \<longleftrightarrow> c = (of_char ch :: nat)"
  by auto

text \<open>Below DEL both sides print a character alike.\<close>

lemma python_escape_ascii:
  assumes "c < 0x7f"
  shows "utf8 c = [char_of c]" "python_escape c = json_escape (char_of c)"
  using assms by (auto simp: utf8_def python_escape_def json_escape_def unit_escape_def char_of_is)

lemma spec_string_python_escape:
  assumes "scalar c"
  shows "spec_string out (python_escape c @ s) = spec_string (out @ utf8 c) s"
proof -
  consider (ascii) "c < 0x7f" | (unit) "0x7f \<le> c" "c < 0x10000" | (pair) "0x10000 \<le> c" "c \<le> 0x10ffff"
    using assms by (force simp: scalar_def)
  then show ?thesis
  proof cases
    case ascii
    then show ?thesis by (simp only: python_escape_ascii spec_string_escape)
  next
    case unit
    then have "python_escape c = unit_escape c" by (simp add: python_escape_def)
    then show ?thesis
      using spec_unicode_unit [OF unit(2) assms] by (simp add: unit_escape_def spec_escape_def)
  next
    case pair
    then have "python_escape c = unit_escape (0xd800 + (c - 0x10000) div 0x400) @ unit_escape (0xdc00 + (c - 0x10000) mod 0x400)"
      by (simp add: python_escape_def)
    then show ?thesis
      using spec_unicode_pair [OF pair] by (simp add: unit_escape_def spec_escape_def)
  qed
qed

lemma spec_string_python:
  "\<forall>c \<in> set v. scalar c \<Longrightarrow>
     spec_string out (concat (map python_escape v) @ CHR 0x22 # s) = Return (out @ concat (map utf8 v), s)"
proof (induction v arbitrary: out)
  case (Cons c v)
  then show ?case by (simp add: spec_string_python_escape)
qed simp

lemma spec_read_python_string:
  "\<forall>c \<in> set v. scalar c \<Longrightarrow> spec_read_string (python_json_string v @ s) = Return (concat (map utf8 v), s)"
  by (simp add: spec_read_string_def python_json_string_def spec_string_python)

section \<open>Where both sides print the same bytes\<close>

text \<open>Python prints printable ASCII characters only.\<close>

abbreviation printable :: "char \<Rightarrow> bool" where
  "printable ch \<equiv> 0x20 \<le> (of_char ch :: nat) \<and> (of_char ch :: nat) < 0x7f"

lemma hex4_printable: "ch \<in> set (hex4 n) \<Longrightarrow> printable ch"
  by (auto simp: hex4_def hex_char_def)

lemma python_escape_printable: "ch \<in> set (python_escape c) \<Longrightarrow> printable ch"
  by (auto simp: python_escape_def unit_escape_def split: if_splits dest: hex4_printable)

lemma python_json_string_printable: "ch \<in> set (python_json_string s) \<Longrightarrow> printable ch"
  by (auto simp: python_json_string_def dest: python_escape_printable)

text \<open>Beyond the printable characters C++ prints bytes that are not.\<close>

lemma utf8_high:
  assumes "0x7f \<le> c" and "c \<le> 0x10ffff"
  shows "\<exists>ch \<in> set (utf8 c). 0x7f \<le> (of_char ch :: nat)"
proof -
  have "c div 0x40 < 0x40" if "c < 0x800" using that by auto
  moreover have "c div 0x1000 < 0x20" if "c < 0x10000" using that by auto
  moreover have "c div 0x40000 < 0x10" using assms(2) by auto
  ultimately show ?thesis using assms(1) by (auto simp: utf8_def)
qed

lemma json_escape_high: "0x7f \<le> (of_char ch :: nat) \<Longrightarrow> json_escape ch = [ch]"
  by (cases ch rule: json_escape_cases) (simp, force, simp)

lemma json_string_high:
  assumes "ch \<in> set v" and "0x7f \<le> (of_char ch :: nat)"
  shows "ch \<in> set (json_string v)"
proof -
  obtain xs ys where "v = xs @ ch # ys" using split_list [OF assms(1)] by blast
  then show ?thesis by (simp add: json_string_def json_escape_high [OF assms(2)])
qed

lemma strings_agree:
  assumes "\<forall>c \<in> set v. scalar c"
  shows "python_json_string v = json_string (concat (map utf8 v)) \<longleftrightarrow> (\<forall>c \<in> set v. c < 0x7f)"
proof
  assume eq: "python_json_string v = json_string (concat (map utf8 v))"
  show "\<forall>c \<in> set v. c < 0x7f"
  proof (rule ballI, rule ccontr)
    fix c
    assume c: "c \<in> set v" "\<not> c < 0x7f"
    then obtain ch where "ch \<in> set (utf8 c)" "0x7f \<le> (of_char ch :: nat)"
      using utf8_high [of c] assms by (force simp: scalar_def)
    then show False
      using json_string_high [of ch "concat (map utf8 v)"] python_json_string_printable [of ch v] c(1) eq by auto
  qed
next
  assume "\<forall>c \<in> set v. c < 0x7f"
  then have "concat (map python_escape v) = concat (map json_escape (concat (map utf8 v)))"
    by (induction v) (simp_all add: python_escape_ascii)
  then show "python_json_string v = json_string (concat (map utf8 v))"
    by (simp add: python_json_string_def json_string_def)
qed

end
