(* ===== verification/Wire_Grammar.thy ===== *)
theory Wire_Grammar
  imports Messages Python_Interop
begin

text \<open>
  The language of the two parsers of \<open>wire_parse.hpp\<close>, as a grammar that mentions none of their functions: which
  texts stand for which strings, numbers, objects and envelopes.  The parsers accept exactly these texts, and
  return what they stand for.
\<close>

section \<open>The grammar\<close>

definition hex_value_of :: "char \<Rightarrow> nat option" where
  "hex_value_of c =
     (let n = of_char c in
      if 48 \<le> n \<and> n \<le> 57 then Some (n - 48)
      else if 97 \<le> n \<and> n \<le> 102 then Some (n - 87)
      else if 65 \<le> n \<and> n \<le> 70 then Some (n - 55) else None)"

text \<open>Four hexadecimal digits of either case.\<close>

inductive unit_text :: "string \<Rightarrow> nat \<Rightarrow> bool" where
  "map hex_value_of [a, b, c, d] = [Some p, Some q, Some r, Some s] \<Longrightarrow>
     unit_text [a, b, c, d] (16 * (16 * (16 * p + q) + r) + s)"

text \<open>The escapes of one character.\<close>

definition short_escapes :: "(char \<times> char) list" where
  "short_escapes =
     [(CHR 0x22, CHR 0x22), (CHR 0x5C, CHR 0x5C), (CHR ''/'', CHR ''/''), (CHR ''b'', CHR 0x08), (CHR ''f'', CHR 0x0C),
      (CHR ''n'', CHR 0x0A), (CHR ''r'', CHR 0x0D), (CHR ''t'', CHR 0x09)]"

text \<open>
  A piece of a string literal and the bytes it stands for: a byte that is no control character, quote or backslash, a
  short escape, a code point outside of the surrogates, or a pair of surrogates.
\<close>

inductive piece_text :: "string \<Rightarrow> string \<Rightarrow> bool" where
  plain: "c \<noteq> CHR 0x22 \<Longrightarrow> c \<noteq> CHR 0x5C \<Longrightarrow> 0x20 \<le> (of_char c :: nat) \<Longrightarrow> piece_text [c] [c]"
| short: "(e, c) \<in> set short_escapes \<Longrightarrow> piece_text [CHR 0x5C, e] [c]"
| unit: "unit_text t n \<Longrightarrow> scalar n \<Longrightarrow> piece_text ([CHR 0x5C, CHR ''u''] @ t) (utf8 n)"
| pair: "unit_text t h \<Longrightarrow> 0xd800 \<le> h \<Longrightarrow> h \<le> 0xdbff \<Longrightarrow> unit_text u l \<Longrightarrow> 0xdc00 \<le> l \<Longrightarrow> l \<le> 0xdfff \<Longrightarrow>
    piece_text ([CHR 0x5C, CHR ''u''] @ t @ [CHR 0x5C, CHR ''u''] @ u) (utf8 (0x10000 + (h - 0xd800) * 0x400 + (l - 0xdc00)))"

inductive body_text :: "string \<Rightarrow> string \<Rightarrow> bool" where
  nothing: "body_text [] []"
| piece: "piece_text t v \<Longrightarrow> body_text ts vs \<Longrightarrow> body_text (t @ ts) (v @ vs)"

inductive literal_text :: "string \<Rightarrow> string \<Rightarrow> bool" where
  "body_text t v \<Longrightarrow> literal_text ([CHR 0x22] @ t @ [CHR 0x22]) v"

text \<open>Numbers: digits whose value is below \<open>2 ^ 63\<close>, with an optional sign.\<close>

inductive number_text :: "string \<Rightarrow> int64 \<Rightarrow> bool" where
  natural: "ds \<noteq> [] \<Longrightarrow> \<forall>c \<in> set ds. is_digit c \<Longrightarrow> digits_value 0 ds < 2 ^ 63 \<Longrightarrow>
     number_text ds (word_of_int (int (digits_value 0 ds)))"
| negative: "ds \<noteq> [] \<Longrightarrow> \<forall>c \<in> set ds. is_digit c \<Longrightarrow> digits_value 0 ds < 2 ^ 63 \<Longrightarrow>
     number_text (CHR ''-'' # ds) (word_of_int (- int (digits_value 0 ds)))"

fun value_text :: "field_value \<Rightarrow> string \<Rightarrow> bool" where
  "value_text (IntV w) t \<longleftrightarrow> number_text t w"
| "value_text (StrV s) t \<longleftrightarrow> literal_text t s"
| "value_text (OrgV s) t \<longleftrightarrow> False"

text \<open>The fields of an object, every key a literal, without spaces.\<close>

inductive fields_text :: "(string \<times> field_value) list \<Rightarrow> string \<Rightarrow> bool" where
  last: "literal_text t k \<Longrightarrow> value_text v u \<Longrightarrow> fields_text [(k, v)] (t @ '':'' @ u)"
| more: "literal_text t k \<Longrightarrow> value_text v u \<Longrightarrow> fields_text (f # fs) rest \<Longrightarrow>
    fields_text ((k, v) # f # fs) (t @ '':'' @ u @ '','' @ rest)"

inductive envelope_text :: "string \<Rightarrow> (string \<times> field_value) list \<Rightarrow> string \<Rightarrow> bool" where
  "fields_text fs t \<Longrightarrow>
     envelope_text ty fs (''{\"payload\":{'' @ t @ ''},\"type\":\"'' @ ty @ ''\"}'')"

text \<open>The members of the two messages, in their order.\<close>

definition result_members :: "JobResult \<Rightarrow> (string \<times> field_value) list" where
  "result_members r =
     [(''completed_at'', IntV (completed_at r)), (''message_id'', StrV (JobResult.message_id r)),
      (''payload'', StrV (JobResult.payload r)), (''protocol_version'', StrV (JobResult.protocol_version r)),
      (''recipient_node_id'', StrV (recipient_node_id r)), (''request_id'', StrV (JobResult.request_id r)),
      (''responder_node_id'', StrV (responder_node_id r)), (''signature'', StrV (JobResult.signature r)),
      (''signature_algorithm'', StrV (JobResult.signature_algorithm r)), (''status'', StrV (status r))]"

definition notice_members :: "FailureNotice \<Rightarrow> (string \<times> field_value) list" where
  "notice_members n =
     [(''failed_node_id'', StrV (failed_node_id n)), (''message_id'', StrV (FailureNotice.message_id n)),
      (''observed_at'', IntV (observed_at n)), (''protocol_version'', StrV (FailureNotice.protocol_version n)),
      (''reason'', StrV (reason n)), (''reporting_node_id'', StrV (reporting_node_id n)),
      (''request_id'', StrV (FailureNotice.request_id n)), (''signature'', StrV (FailureNotice.signature n)),
      (''signature_algorithm'', StrV (FailureNotice.signature_algorithm n))]"

inductive_cases unit_textE: "unit_text t n"
inductive_cases literal_textE: "literal_text t v"
inductive_cases envelope_textE: "envelope_text ty fs json"
inductive_simps literal_text_iff: "literal_text t v"

section \<open>Literals are read\<close>

lemma hex_digit_iff: "hex_digit c = Return d \<longleftrightarrow> (\<exists>n. hex_value_of c = Some n \<and> d = int n)"
proof -
  have "(of_char c :: int) = int (of_char c)" by (simp add: of_nat_of_char)
  then show ?thesis by (auto simp: hex_digit_def hex_value_of_def Let_def split: if_splits)
qed

lemma hex_value_less: "hex_value_of c = Some n \<Longrightarrow> n < 16"
  by (auto simp: hex_value_of_def Let_def split: if_splits)

lemma spec_unit_digits:
  assumes "hex_value_of a = Some p" "hex_value_of b = Some q" "hex_value_of c = Some r" "hex_value_of d = Some x"
  shows "spec_unit (a # b # c # d # s) = Return (of_nat (16 * (16 * (16 * p + q) + r) + x), s)"
proof -
  have digits: "hex_digit a = Return (int p)" "hex_digit b = Return (int q)" "hex_digit c = Return (int r)"
      "hex_digit d = Return (int x)"
    using assms by (simp_all add: hex_digit_iff)
  have "spec_unit (a # b # c # d # s) = Return (push_bit 4 (push_bit 4 (push_bit 4
      (push_bit 4 (of_nat 0) OR word_of_int (int p)) OR word_of_int (int q)) OR word_of_int (int r)) OR word_of_int (int x), s)"
    by (simp only: spec_unit_four digits bind.simps semiring_1_class.of_nat_0)
  then show ?thesis
    by (simp only: push_digit hex_value_less [OF assms(1)] hex_value_less [OF assms(2)] hex_value_less [OF assms(3)]
        hex_value_less [OF assms(4)] mult_0_right add_0)
qed

lemma spec_unit_text: "unit_text t n \<Longrightarrow> spec_unit (t @ s) = Return (of_nat n, s)"
  by (auto elim!: unit_textE simp: spec_unit_digits)

lemma unit_text_less: "unit_text t n \<Longrightarrow> n < 0x10000"
  by (auto elim!: unit_textE dest!: hex_value_less)

lemma unit_of_text:
  assumes "spec_unit s = Return (v, s')"
  shows "\<exists>t n. s = t @ s' \<and> unit_text t n \<and> v = of_nat n"
proof -
  have "\<not> length s < 4" using assms by (auto simp: spec_unit_def)
  then obtain a b c d u where s: "s = a # b # c # d # u"
    by (cases s; cases "tl s"; cases "tl (tl s)"; cases "tl (tl (tl s))") auto
  obtain p q r x where h: "hex_value_of a = Some p" "hex_value_of b = Some q" "hex_value_of c = Some r" "hex_value_of d = Some x"
    using assms unfolding s spec_unit_four by (auto simp: hex_digit_iff elim!: bind_ReturnE)
  then have "unit_text [a, b, c, d] (16 * (16 * (16 * p + q) + r) + x)" by (intro unit_text.intros) simp
  then show ?thesis using assms spec_unit_digits [OF h, of u] by (auto simp: s)
qed

lemma pair_code_point:
  assumes "0xd800 \<le> h" "h \<le> 0xdbff" "0xdc00 \<le> l" "l \<le> 0xdfff"
  shows "0x10000 + push_bit 10 (of_nat h - 0xd800) + (of_nat l - 0xdc00) = (of_nat (0x10000 + (h - 0xd800) * 0x400 + (l - 0xdc00)) :: uint32)"
    and "0x10000 + (h - 0xd800) * 0x400 + (l - 0xdc00) \<le> 0x10ffff"
  using assms by (simp_all add: push_bit_eq_mult of_nat_diff)

lemma spec_low_text:
  assumes "unit_text u l" "0xdc00 \<le> l" "l \<le> 0xdfff" "0xd800 \<le> h" "h \<le> 0xdbff"
  shows "spec_low (of_nat h) ([CHR 0x5C, CHR ''u''] @ u @ s) = Return (of_nat (0x10000 + (h - 0xd800) * 0x400 + (l - 0xdc00)), s)"
proof -
  have "\<not> of_nat l < (0xdc00 :: uint32)" "\<not> of_nat l > (0xdfff :: uint32)"
    using unit_bounds(3,4) [OF unit_text_less [OF assms(1)]] assms(2,3) by (simp_all only: not_less)
  then show ?thesis
    using spec_unit_text [OF assms(1), of s] pair_code_point(1) [OF assms(4,5,2,3)] by simp
qed

lemma read_piece:
  assumes "piece_text t v"
  shows "spec_string out (t @ s) = spec_string (out @ v) s"
  using assms
proof cases
  case (short e c)
  then show ?thesis by (auto simp: short_escapes_def spec_escape_def)
next
  case (unit t n)
  note bounds = unit_bounds [OF unit_text_less [OF unit(3)]]
  have "n \<le> 0x10ffff" using unit_text_less [OF unit(3)] by simp
  then have "spec_unicode out (t @ s) = Return (out @ utf8 n, s)"
    using unit(4) spec_unit_text [OF unit(3), of s] append_utf8_utf8 [of n out]
    by (auto simp: spec_unicode_def bounds scalar_def)
  then show ?thesis by (simp add: unit spec_escape_def)
next
  case (pair t h u l)
  note bounds = unit_bounds [OF unit_text_less [OF pair(3)]]
  have "spec_unicode out (t @ [CHR 0x5C, CHR ''u''] @ u @ s) = Return (out @ v, s)"
    using spec_unit_text [OF pair(3), of "[CHR 0x5C, CHR ''u''] @ u @ s"] spec_low_text [OF pair(6-8,4,5), of s] pair(2,4,5)
      append_utf8_utf8 [OF pair_code_point(2) [OF pair(4,5,7,8)], of out]
    by (simp add: spec_unicode_def bounds del: spec_low.simps)
  then show ?thesis by (simp add: pair spec_escape_def)
qed simp

lemma read_body: "body_text t v \<Longrightarrow> spec_string out (t @ CHR 0x22 # s) = Return (out @ v, s)"
  by (induction arbitrary: out rule: body_text.induct) (simp_all add: read_piece)

lemma low_of_text:
  assumes "spec_low (of_nat h) s = Return (v, s')" "0xd800 \<le> h" "h \<le> 0xdbff"
  shows "\<exists>u l. s = [CHR 0x5C, CHR ''u''] @ u @ s' \<and> unit_text u l \<and> 0xdc00 \<le> l \<and> l \<le> 0xdfff \<and>
    v = of_nat (0x10000 + (h - 0xd800) * 0x400 + (l - 0xdc00))"
proof -
  obtain t second where s: "s = CHR 0x5C # CHR ''u'' # t" and t: "spec_unit t = Return (second, s')"
    and range: "\<not> second < 0xdc00" "\<not> second > 0xdfff"
    using assms(1) by (cases "(of_nat h :: uint32, s)" rule: spec_low.cases) (auto elim!: bind_ReturnE split: if_splits)
  obtain u l where u: "t = u @ s'" "unit_text u l" "second = of_nat l" using unit_of_text [OF t] by blast
  have l: "0xdc00 \<le> l" "l \<le> 0xdfff" using unit_bounds(3,4) [OF unit_text_less [OF u(2)]] range u(3) by (simp_all only: not_less)
  show ?thesis using spec_low_text [OF u(2) l assms(2,3), of s'] assms(1) s u l by auto
qed

lemma unicode_of_text:
  assumes "spec_unicode out s = Return (x, s')"
  shows "\<exists>t w. s = t @ s' \<and> piece_text ([CHR 0x5C, CHR ''u''] @ t) w \<and> x = out @ w"
proof -
  obtain first s1 cp where u: "spec_unit s = Return (first, s1)"
    and cp: "(if 0xd800 \<le> first \<and> first \<le> 0xdbff then spec_low first s1
       else if 0xdc00 \<le> first \<and> first \<le> 0xdfff then Throw (Invalid_Argument ''unexpected low surrogate'')
       else Return (first, s1)) = Return (cp, s')" and x: "append_utf8 out cp = Return x"
    using assms unfolding spec_unicode_def by (auto elim!: bind_ReturnE)
  obtain t n where t: "s = t @ s1" "unit_text t n" "first = of_nat n" using unit_of_text [OF u] by blast
  note bounds = unit_bounds [OF unit_text_less [OF t(2)]]
  show ?thesis
  proof (cases "0xd800 \<le> n \<and> n \<le> 0xdbff")
    case True
    then have "spec_low (of_nat n) s1 = Return (cp, s')" using cp by (simp add: t(3) bounds)
    from low_of_text [OF this] True obtain v l where v: "s1 = [CHR 0x5C, CHR ''u''] @ v @ s'" "unit_text v l" "0xdc00 \<le> l" "l \<le> 0xdfff"
        "cp = of_nat (0x10000 + (n - 0xd800) * 0x400 + (l - 0xdc00))" by blast
    have "x = out @ utf8 (0x10000 + (n - 0xd800) * 0x400 + (l - 0xdc00))"
      using x append_utf8_utf8 [OF pair_code_point(2), of n l out] True v(3-5) by simp
    moreover have "piece_text ([CHR 0x5C, CHR ''u''] @ t @ [CHR 0x5C, CHR ''u''] @ v) (utf8 (0x10000 + (n - 0xd800) * 0x400 + (l - 0xdc00)))"
      using True v t(2) by (intro piece_text.pair) auto
    ultimately show ?thesis using t(1) v(1)
      by (intro exI [of _ "t @ [CHR 0x5C, CHR ''u''] @ v"] exI [of _ "utf8 (0x10000 + (n - 0xd800) * 0x400 + (l - 0xdc00))"]) auto
  next
    case False
    then have n: "scalar n" "s1 = s'" "cp = of_nat n"
      using cp unit_text_less [OF t(2)] by (auto simp: t(3) bounds scalar_def split: if_splits)
    then have "x = out @ utf8 n" using x append_utf8_utf8 [of n out] unit_text_less [OF t(2)] by simp
    then show ?thesis using piece_text.unit [OF t(2) n(1)] t(1) n(2) by blast
  qed
qed

lemma escape_of_text:
  assumes "spec_escape e out s = Return (x, s')"
  shows "\<exists>t w. CHR 0x5C # e # s = t @ s' \<and> piece_text t w \<and> x = out @ w"
proof (cases "e = CHR ''u''")
  case True
  then have "spec_unicode out s = Return (x, s')" using assms by (simp add: spec_escape_def)
  from unicode_of_text [OF this] True show ?thesis by auto
next
  case False
  then obtain c where "(e, c) \<in> set short_escapes" "x = out @ [c]" "s' = s"
    using assms by (auto simp: spec_escape_def short_escapes_def split: if_splits)
  then show ?thesis using piece_text.short by force
qed

lemma body_of_text:
  "spec_string out s = Return (v, s') \<Longrightarrow> \<exists>t w. s = t @ CHR 0x22 # s' \<and> body_text t w \<and> v = out @ w"
proof (induction out s rule: spec_string.induct)
  case (2 out c s)
  consider (End) "c = CHR 0x22" | (Escape) "c = CHR 0x5C" | (Plain) "c \<noteq> CHR 0x22" "c \<noteq> CHR 0x5C" by blast
  then show ?case
  proof cases
    case End
    then show ?thesis using "2.prems" body_text.nothing by auto
  next
    case Escape
    then obtain e r out1 s1 where s: "s = e # r" "spec_escape e out r = Return (out1, s1)" "spec_string out1 s1 = Return (v, s')"
      using "2.prems" by (auto split: list.splits elim!: bind_ReturnE)
    obtain t w where t: "CHR 0x5C # e # r = t @ s1" "piece_text t w" "out1 = out @ w" using escape_of_text [OF s(2)] by blast
    obtain ts ws where "s1 = ts @ CHR 0x22 # s'" "body_text ts ws" "v = out1 @ ws"
      using "2.IH"(2) Escape s by fastforce
    then show ?thesis using t s(1) Escape body_text.piece [OF t(2)] by (intro exI [of _ "t @ ts"] exI [of _ "w @ ws"]) auto
  next
    case Plain
    then have c: "0x20 \<le> (of_char c :: nat)" "spec_string (out @ [c]) s = Return (v, s')"
      using "2.prems" by (auto split: if_splits)
    obtain ts ws where "s = ts @ CHR 0x22 # s'" "body_text ts ws" "v = (out @ [c]) @ ws"
      using "2.IH"(1) Plain c by fastforce
    then show ?thesis using body_text.piece [OF piece_text.plain [OF Plain c(1)]]
      by (intro exI [of _ "[c] @ ts"] exI [of _ "[c] @ ws"]) auto
  qed
qed simp

lemma read_literal: "literal_text t v \<Longrightarrow> spec_read_string (t @ s) = Return (v, s)"
  by (auto simp: literal_text_iff spec_read_string_def read_body)

lemma literal_of_text:
  assumes "spec_read_string s = Return (v, s')"
  shows "\<exists>t. s = t @ s' \<and> literal_text t v"
proof -
  obtain r where r: "s = CHR 0x22 # r" "spec_string [] r = Return (v, s')"
    using assms unfolding spec_read_string_def by (cases s) (auto elim!: bind_ReturnE split: if_splits)
  obtain t where "r = t @ CHR 0x22 # s'" "body_text t v" using body_of_text [OF r(2)] by auto
  then show ?thesis using r(1) literal_text.intros [of t v] by (intro exI [of _ "[CHR 0x22] @ t @ [CHR 0x22]"]) auto
qed

section \<open>Fields are read\<close>

lemma read_number: "number_text t w \<Longrightarrow> number_ends s \<Longrightarrow> spec_integer (t @ s) = Return (w, s)"
  by (induction rule: number_text.induct) (simp_all add: spec_integer_digits)

lemma digits_split:
  obtains ds u where "s = ds @ u" "\<forall>c \<in> set ds. is_digit c" "number_ends u" "ds = [] \<longleftrightarrow> s = [] \<or> \<not> is_digit (hd s)"
proof (rule that)
  show "s = takeWhile is_digit s @ dropWhile is_digit s" by simp
  show "\<forall>c \<in> set (takeWhile is_digit s). is_digit c" by (blast dest: set_takeWhileD)
  show "number_ends (dropWhile is_digit s)"
    by (induction s) (simp_all add: number_ends_def)
qed (cases s; simp)

lemma number_of_text:
  assumes "spec_integer s = Return (w, s')"
  shows "\<exists>t. s = t @ s' \<and> number_text t w"
proof -
  define negative where "negative \<longleftrightarrow> starts_with ''-'' s"
  define r where "r = (if negative then tl s else s)"
  have s: "s = (if negative then ''-'' else []) @ r" by (cases s) (auto simp: r_def negative_def starts_with_def)
  have r: "spec_unsigned negative r = Return (w, s')"
    using assms by (cases s) (auto simp: spec_integer_def r_def negative_def starts_with_def)
  obtain ds u where ds: "r = ds @ u" "\<forall>c \<in> set ds. is_digit c" "number_ends u" "ds = [] \<longleftrightarrow> r = [] \<or> \<not> is_digit (hd r)"
    by (rule digits_split)
  have ne: "ds \<noteq> []" using r ds(4) by (cases r) (auto simp: spec_unsigned_def)
  note digits = spec_integer_digits [OF ds(2) ne ds(3)]
  show ?thesis
  proof (cases negative)
    case True
    then have "s = CHR ''-'' # ds @ u" using s ds(1) by simp
    then show ?thesis using digits(2) assms number_text.negative [OF ne ds(2)] by (force split: if_splits)
  next
    case False
    then have "s = ds @ u" using s ds(1) by simp
    then show ?thesis using digits(1) assms number_text.natural [OF ne ds(2)] by (force split: if_splits)
  qed
qed

fun of_kind :: "field_value \<Rightarrow> field_kind \<Rightarrow> bool" where
  "of_kind (IntV w) IntK \<longleftrightarrow> True"
| "of_kind (StrV s) StrK \<longleftrightarrow> True"
| "of_kind v k \<longleftrightarrow> False"

lemma read_text_value: "value_text v t \<Longrightarrow> number_ends s \<Longrightarrow> spec_value (kind_of v) (t @ s) = Return (v, s)"
  by (cases v) (simp_all add: read_number read_literal)

lemma value_of_text: "spec_value k s = Return (v, s') \<Longrightarrow> \<exists>t. s = t @ s' \<and> value_text v t \<and> of_kind v k"
  by (cases k) (auto elim!: bind_ReturnE dest!: number_of_text literal_of_text)

lemma read_text_key: "literal_text t k \<Longrightarrow> spec_key k (t @ '':'' @ s) = Return s"
  using read_literal [of t k "'':'' @ s"] by (simp add: spec_key_def)

lemma key_of_text:
  assumes "spec_key k s = Return s'"
  shows "\<exists>t. s = t @ '':'' @ s' \<and> literal_text t k"
proof -
  obtain s1 where s1: "spec_read_string s = Return (k, s1)" "spec_expect (CHR '':'') s1 = Return s'"
    using assms unfolding spec_key_def by (auto elim!: bind_ReturnE split: if_splits)
  have "s1 = '':'' @ s'" using s1(2) by (cases s1) (auto split: if_splits)
  then show ?thesis using literal_of_text [OF s1(1)] by blast
qed

lemma read_text_fields: "fields_text fs t \<Longrightarrow> number_ends s \<Longrightarrow> spec_fields (schema_of fs) (t @ s) = Return (map snd fs, s)"
proof (induction arbitrary: s rule: fields_text.induct)
  case (last t k v u)
  then show ?case using read_text_key [of t k "u @ s"] read_text_value [of v u s] by simp
next
  case (more t k v u f fs rest)
  obtain l w where f: "f = (l, w)" by (cases f)
  have "spec_fields (schema_of (f # fs)) (rest @ s) = Return (map snd (f # fs), s)" by (rule more.IH) (rule more.prems)
  then show ?case using more(1,2) read_text_key [of t k "u @ '','' @ rest @ s"] read_text_value [of v u "'','' @ rest @ s"] f by simp
qed

lemma fields_of_text:
  "spec_fields sch s = Return (vs, s') \<Longrightarrow> sch \<noteq> [] \<Longrightarrow>
     \<exists>t. s = t @ s' \<and> fields_text (zip (map fst sch) vs) t \<and> list_all2 of_kind vs (map snd sch)"
proof (induction sch s arbitrary: vs s' rule: spec_fields.induct)
  case (2 k x s)
  then obtain s1 v where "spec_key k s = Return s1" "spec_value x s1 = Return (v, s')" "vs = [v]" by (auto elim!: bind_ReturnE)
  then obtain t u where "s = t @ '':'' @ u @ s'" "literal_text t k" "value_text v u" "of_kind v x"
    using key_of_text value_of_text by metis
  then show ?case using fields_text.last [of t k v u] \<open>vs = [v]\<close> by (intro exI [of _ "t @ '':'' @ u"]) simp
next
  case (3 k x f fs s)
  then obtain s1 v s2 s3 ws where e: "spec_key k s = Return s1" "spec_value x s1 = Return (v, s2)"
      "spec_expect (CHR '','') s2 = Return s3" "spec_fields (f # fs) s3 = Return (ws, s')" "vs = v # ws"
    by (auto elim!: bind_ReturnE)
  have s2: "s2 = '','' @ s3" using e(3) by (cases s2) (auto split: if_splits)
  obtain t u where t: "s = t @ '':'' @ u @ s2" "literal_text t k" "value_text v u" "of_kind v x"
    using key_of_text [OF e(1)] value_of_text [OF e(2)] by auto
  obtain r where r: "s3 = r @ s'" "fields_text (zip (map fst (f # fs)) ws) r" "list_all2 of_kind ws (map snd (f # fs))"
    using "3.IH" e by blast
  then obtain w ws' where "ws = w # ws'" by (cases ws) auto
  then show ?case
    using fields_text.more [OF t(2,3), of "(fst f, w)" "zip (map fst fs) ws'" r] r s2 t e(5)
    by (intro exI [of _ "t @ '':'' @ u @ '','' @ r"]) simp
qed simp

section \<open>Fields are stepped over\<close>

lemma hex_text_quiet: "hex_value_of c = Some n \<Longrightarrow> c \<noteq> CHR 0x5C \<and> c \<noteq> CHR 0x22"
  by (auto simp: hex_value_of_def)

lemma unit_text_quiet: "unit_text t n \<Longrightarrow> \<forall>c \<in> set t. c \<noteq> CHR 0x5C \<and> c \<noteq> CHR 0x22"
  by (auto elim!: unit_textE dest: hex_text_quiet)

lemma scan_piece: "piece_text t v \<Longrightarrow> spec_scan True False d i (t @ s) = spec_scan True False d (i + length t) s"
proof (induction arbitrary: i rule: piece_text.induct)
  case (unit t n)
  then show ?case using spec_scan_in_string_plain [OF unit_text_quiet [OF unit(1)], of d "i + 2" s] by simp
next
  case (pair t h u l)
  then show ?case
    using spec_scan_in_string_plain [OF unit_text_quiet [OF pair(1)], of d "i + 2" "[CHR 0x5C, CHR ''u''] @ u @ s"]
      spec_scan_in_string_plain [OF unit_text_quiet [OF pair(4)], of d "Suc (Suc (Suc (Suc (i + length t))))" s] by (simp add: add.assoc)
qed simp_all

lemma scan_literal: "literal_text t v \<Longrightarrow> spec_scan False False d i (t @ s) = spec_scan False False d (i + length t) s"
proof -
  assume "literal_text t v"
  then obtain b where t: "t = [CHR 0x22] @ b @ [CHR 0x22]" "body_text b v" by (auto simp: literal_text_iff)
  have "spec_scan True False d i (b @ CHR 0x22 # s) = spec_scan False False d (i + length b + 1) s" for i
    using t(2) by (induction arbitrary: i rule: body_text.induct) (simp_all add: scan_piece add.assoc)
  from this [of "i + 1"] show ?thesis by (simp add: t(1) add.commute)
qed

lemma scan_value: "value_text v t \<Longrightarrow> spec_scan False False d i (t @ s) = spec_scan False False d (i + length t) s"
proof (cases v)
  case (IntV w)
  assume "value_text v t"
  then have "\<forall>c \<in> set t. c \<noteq> CHR 0x22 \<and> c \<noteq> CHR ''{'' \<and> c \<noteq> CHR ''}''"
    by (auto simp: IntV elim!: number_text.cases dest!: bspec digit_quiet)
  then show ?thesis by (rule spec_scan_quiet)
qed (auto simp: scan_literal)

lemma scan_text_fields: "fields_text fs t \<Longrightarrow> spec_scan False False d i (t @ s) = spec_scan False False d (i + length t) s"
proof (induction arbitrary: i rule: fields_text.induct)
  case (last t k v u)
  then show ?case using scan_literal [of t k d i "'':'' @ u @ s"] by (simp add: scan_value add.assoc)
next
  case (more t k v u f fs rest)
  then show ?case using scan_literal [of t k d i "'':'' @ u @ '','' @ rest @ s"] by (simp add: scan_value add.assoc)
qed

section \<open>Envelopes\<close>

lemma envelope_text_join: "envelope_text ty fs json \<longleftrightarrow> (\<exists>t. fields_text fs t \<and> json = join_envelope ty (''{'' @ t @ ''}''))"
  by (auto simp: envelope_text.simps join_envelope_def envelope_prefix_def type_prefix_def)

lemma spec_object_text:
  assumes "sch \<noteq> []"
  shows "spec_object sch p = Return (vs, []) \<longleftrightarrow>
    (\<exists>t. p = ''{'' @ t @ ''}'' \<and> fields_text (zip (map fst sch) vs) t \<and> list_all2 of_kind vs (map snd sch))"
    (is "?lhs \<longleftrightarrow> ?rhs")
proof
  assume ?lhs
  then obtain s1 s2 where e: "spec_expect (CHR ''{'') p = Return s1" "spec_fields sch s1 = Return (vs, s2)"
      "spec_expect (CHR ''}'') s2 = Return []"
    unfolding spec_object_def by (auto elim!: bind_ReturnE)
  have "p = ''{'' @ s1" using e(1) by (cases p) (auto split: if_splits)
  moreover have "s2 = ''}''" using e(3) by (cases s2) (auto split: if_splits)
  ultimately show ?rhs using fields_of_text [OF e(2) assms] by blast
next
  assume ?rhs
  then obtain t where t: "p = ''{'' @ t @ ''}''" "fields_text (zip (map fst sch) vs) t" "list_all2 of_kind vs (map snd sch)"
    by blast
  have "map kind_of vs = map snd sch" using t(3)
  proof (induction rule: list_all2_induct)
    case (Cons v vs k ks)
    then show ?case by (cases v; cases k) auto
  qed simp
  then have "schema_of (zip (map fst sch) vs) = sch" "map snd (zip (map fst sch) vs) = vs"
    by (auto intro!: nth_equalityI simp: list_eq_iff_nth_eq prod_eq_iff)
  then show ?lhs using read_text_fields [OF t(2), of "''}''"] by (simp add: spec_object_def t(1))
qed

lemma spec_parse_text:
  assumes "sch \<noteq> []" "CHR 0x22 \<notin> set ty"
  shows "spec_parse ty sch build json = Return m \<longleftrightarrow>
    (\<exists>vs. envelope_text ty (zip (map fst sch) vs) json \<and> list_all2 of_kind vs (map snd sch) \<and> m = build vs)"
    (is "?lhs \<longleftrightarrow> ?rhs")
proof
  assume ?lhs
  then obtain p vs where p: "split_envelope json = Return (p, ty)" "spec_object sch p = Return (vs, [])" "m = build vs"
    unfolding spec_parse_def by (auto elim!: bind_ReturnE split: if_splits)
  then show ?rhs using split_envelope_sound(1) [OF p(1)] spec_object_text [OF assms(1)]
    by (auto simp: envelope_text_join join_envelope_def)
next
  assume ?rhs
  then obtain vs t where t: "fields_text (zip (map fst sch) vs) t" "json = join_envelope ty (''{'' @ t @ ''}'')"
      "list_all2 of_kind vs (map snd sch)" "m = build vs"
    by (auto simp: envelope_text_join)
  have "spec_object sch (''{'' @ t @ ''}'') = Return (vs, [])" using spec_object_text [OF assms(1)] t(1,3) by blast
  then show ?lhs using split_object [OF scan_text_fields [OF t(1)] assms(2)] by (simp add: spec_parse_def t(2,4))
qed

lemma of_kind_iff: "of_kind v IntK \<longleftrightarrow> (\<exists>w. v = IntV w)" "of_kind v StrK \<longleftrightarrow> (\<exists>s. v = StrV s)"
  by (cases v; simp)+

lemma result_of_members:
  "(\<exists>vs. P (zip (map fst job_result_schema) vs) \<and> list_all2 of_kind vs (map snd job_result_schema) \<and> r = job_result_of vs)
     \<longleftrightarrow> P (result_members r)"
proof
  assume "P (result_members r)"
  then show "\<exists>vs. P (zip (map fst job_result_schema) vs) \<and> list_all2 of_kind vs (map snd job_result_schema) \<and> r = job_result_of vs"
    by (intro exI [of _ "map snd (result_members r)"])
      (simp add: result_members_def job_result_schema_def with_signature_def message_fields job_result_of_def)
qed (auto simp: result_members_def job_result_schema_def with_signature_def message_fields job_result_of_def list_all2_Cons2 of_kind_iff)

lemma notice_of_members:
  "(\<exists>vs. P (zip (map fst failure_notice_schema) vs) \<and> list_all2 of_kind vs (map snd failure_notice_schema) \<and> n = failure_notice_of vs)
     \<longleftrightarrow> P (notice_members n)"
proof
  assume "P (notice_members n)"
  then show "\<exists>vs. P (zip (map fst failure_notice_schema) vs) \<and> list_all2 of_kind vs (map snd failure_notice_schema) \<and> n = failure_notice_of vs"
    by (intro exI [of _ "map snd (notice_members n)"])
      (simp add: notice_members_def failure_notice_schema_def with_signature_def message_fields failure_notice_of_def)
qed (auto simp: notice_members_def failure_notice_schema_def with_signature_def message_fields failure_notice_of_def list_all2_Cons2
    of_kind_iff)

lemma schemas_nonempty: "job_result_schema \<noteq> []" "failure_notice_schema \<noteq> []"
  by (simp_all add: job_result_schema_def failure_notice_schema_def with_signature_def)

text \<open>
  Claim C28. The two parsers accept exactly the texts of the grammar \<open>envelope_text\<close>, and return what the text stands for: an
  envelope of the given type, without spaces, around an object with exactly the members of the message in their
  order, and nothing before, between or after them.  Strings, the names of the members included, may be
  written with any of the escapes, with hexadecimal digits of either case, and numbers with leading zeros or as
  \<open>-0\<close>; numbers beyond \<open>2 ^ 63 - 1\<close> in magnitude, control characters, escapes of lone surrogates and
  spaces outside of strings are in no text of the grammar.
\<close>

theorem parsers_follow_grammar:
  "(parse_job_result_envelope_json json = Return r \<longleftrightarrow> envelope_text ''JOB_RESULT'' (result_members r) json) \<and>
   (parse_failure_notice_envelope_json json = Return n \<longleftrightarrow> envelope_text ''FAILURE_NOTICE'' (notice_members n) json)"
  by (simp add: parse_job_result_refines parse_failure_notice_refines spec_parse_text schemas_nonempty
      result_of_members [where P = "\<lambda>fs. envelope_text ''JOB_RESULT'' fs json"]
      notice_of_members [where P = "\<lambda>fs. envelope_text ''FAILURE_NOTICE'' fs json"] cong: conj_cong)

end
