(* ===== verification/Job.thy ===== *)
theory Job
  imports Contracts
begin

text \<open>
  The checks of \<open>job.hpp\<close> on requests and results, and the reference job a node runs.  Time stamps are
  compared as signed 64-bit integers; the default \<open>now = -1\<close> switches the check of the validity
  window off.
\<close>

definition validate_job_request :: "JobRequest \<Rightarrow> int64 \<Rightarrow> unit outcome" where
  "validate_job_request request now =
     (if JobRequest.protocol_version request = [] \<or> JobRequest.message_id request = [] \<or>
         JobRequest.request_id request = [] \<or> sender_node_id request = [] \<or>
         target_node_id request = [] \<or> operation request = []
      then Throw (Invalid_Argument ''missing job request field'')
      else if operation request \<noteq> ''PING'' \<and> operation request \<noteq> ''ECHO''
      then Throw (Invalid_Argument ''unsupported job operation'')
      else if sint (issued_at request) < 0 \<or> sint (expires_at request) \<le> sint (issued_at request)
      then Throw (Invalid_Argument ''invalid job validity window'')
      else if sint now \<ge> 0 \<and> \<not> (sint (issued_at request) \<le> sint now \<and> sint now \<le> sint (expires_at request))
      then Throw (Invalid_Argument ''job request expired or not yet valid'')
      else if JobRequest.signature_algorithm request \<noteq> ''Ed25519''
      then Throw (Invalid_Argument ''unsupported signature algorithm'')
      else Return ())"

definition validate_job_result :: "JobResult \<Rightarrow> unit outcome" where
  "validate_job_result result =
     (if JobResult.protocol_version result = [] \<or> JobResult.message_id result = [] \<or>
         JobResult.request_id result = [] \<or> responder_node_id result = [] \<or>
         recipient_node_id result = [] \<or> status result = []
      then Throw (Invalid_Argument ''missing job result field'')
      else if status result \<noteq> ''OK'' \<and> status result \<noteq> ''ERROR''
      then Throw (Invalid_Argument ''invalid job result status'')
      else if sint (completed_at result) < 0
      then Throw (Invalid_Argument ''negative completion time'')
      else if JobResult.signature_algorithm result \<noteq> ''Ed25519''
      then Throw (Invalid_Argument ''unsupported signature algorithm'')
      else Return ())"

definition execute_reference_job :: "JobRequest \<Rightarrow> string \<times> string" where
  "execute_reference_job request =
     (if operation request = ''PING'' then (''OK'', ''PONG'')
      else if operation request = ''ECHO'' then (''OK'', JobRequest.payload request)
      else (''ERROR'', ''unsupported_operation''))"

definition validation_time_default :: int64 where
  "validation_time_default = - 1"

text \<open>
  The answer of a node to a request: the status and the payload the job gave, addressed back to the
  sender.
\<close>

definition answers :: "JobRequest \<Rightarrow> JobResult \<Rightarrow> bool" where
  "answers request result \<longleftrightarrow>
     JobResult.protocol_version result = JobRequest.protocol_version request \<and>
     JobResult.request_id result = JobRequest.request_id request \<and>
     responder_node_id result = target_node_id request \<and>
     recipient_node_id result = sender_node_id request \<and>
     (status result, JobResult.payload result) = execute_reference_job request"

lemma validate_job_request_eq_Return:
  "validate_job_request request now = Return () \<longleftrightarrow>
     [] \<notin> {JobRequest.protocol_version request, JobRequest.message_id request,
            JobRequest.request_id request, sender_node_id request, target_node_id request} \<and>
     operation request \<in> {''PING'', ''ECHO''} \<and>
     0 \<le> sint (issued_at request) \<and> sint (issued_at request) < sint (expires_at request) \<and>
     (0 \<le> sint now \<longrightarrow> sint now \<in> {sint (issued_at request) .. sint (expires_at request)}) \<and>
     JobRequest.signature_algorithm request = ''Ed25519''"
  by (auto simp: validate_job_request_def)

lemma validate_job_result_eq_Return:
  "validate_job_result result = Return () \<longleftrightarrow>
     [] \<notin> {JobResult.protocol_version result, JobResult.message_id result,
            JobResult.request_id result, responder_node_id result, recipient_node_id result} \<and>
     status result \<in> {''OK'', ''ERROR''} \<and> 0 \<le> sint (completed_at result) \<and>
     JobResult.signature_algorithm result = ''Ed25519''"
  by (auto simp: validate_job_result_def)

section \<open>Properties\<close>

text \<open>
  A request that passes validation is executed: the status is \<open>OK\<close>, and every result a node
  builds from it, with a message id of its own and a non-negative time, passes the validation of
  results.
\<close>

theorem validated_job_succeeds:
  assumes "validate_job_request request now = Return ()" and "answers request result"
    and "JobResult.message_id result \<noteq> []" and "0 \<le> sint (completed_at result)"
    and "JobResult.signature_algorithm result = ''Ed25519''"
  shows "status result = ''OK'' \<and> validate_job_result result = Return ()"
  using assms
  by (auto simp: validate_job_request_eq_Return validate_job_result_eq_Return answers_def
      execute_reference_job_def split: if_splits)

definition sample_request :: JobRequest where
  "sample_request = \<lparr>JobRequest.protocol_version = ''0.2'', JobRequest.message_id = ''msg-0'',
     JobRequest.request_id = ''job-1'', sender_node_id = ''node-a'', target_node_id = ''node-b'',
     organization_id = [], operation = ''ECHO'', JobRequest.payload = ''hello'',
     issued_at = 1700000000, expires_at = 1700000060,
     JobRequest.signature_algorithm = ''Ed25519'', JobRequest.signature = []\<rparr>"

definition sample_answer :: JobResult where
  "sample_answer = \<lparr>JobResult.protocol_version = ''0.2'', JobResult.message_id = ''msg-1'',
     JobResult.request_id = ''job-1'', responder_node_id = ''node-b'', recipient_node_id = ''node-a'',
     status = ''OK'', JobResult.payload = ''hello'', completed_at = 1700000001,
     JobResult.signature_algorithm = ''Ed25519'', JobResult.signature = []\<rparr>"

theorem validated_job_succeeds_witness:
  "validate_job_request sample_request 1700000030 = Return () \<and>
   status sample_answer = ''OK'' \<and> validate_job_result sample_answer = Return ()"
proof -
  have v: "validate_job_request sample_request 1700000030 = Return ()"
    by (simp add: validate_job_request_def sample_request_def)
  moreover have "answers sample_request sample_answer"
    by (simp add: answers_def sample_request_def sample_answer_def execute_reference_job_def)
  ultimately show ?thesis
    using validated_job_succeeds [OF v, of sample_answer] by (simp add: sample_answer_def)
qed

text \<open>
  Validation at a time of day accepts a request exactly when validation without a time
  accepts it and the time lies in the closed validity window; before and after it the request is
  rejected as expired or not yet valid, never with another error.
\<close>

lemma validate_job_request_window:
  assumes "validate_job_request request validation_time_default = Return ()" and "0 \<le> sint now"
  shows "validate_job_request request now =
    (if sint (issued_at request) \<le> sint now \<and> sint now \<le> sint (expires_at request) then Return ()
     else Throw (Invalid_Argument ''job request expired or not yet valid''))"
  using assms by (auto simp: validate_job_request_def validation_time_default_def split: if_splits)

end
