(* ===== verification/Orchestrator.thy ===== *)
theory Orchestrator
  imports Contracts
begin

text \<open>
  The execution lifecycle of \<open>execution_orchestrator.hpp\<close>: which nodes were tried, which are excluded,
  and whether the execution is complete.  Every operation of the source tests all its conditions
  before it changes the state, so an operation that throws leaves the lifecycle as it was; here it
  gives the exception in place of the next state.  The order of hashing in the \<open>unordered_set\<close> of excluded
  nodes is never observed; it is a set.
\<close>

record ExecutionAttempt =
  node_id :: string
  outcome :: string

record ExecutionState =
  request_id :: string
  attempts :: "ExecutionAttempt list"
  excluded_nodes :: "string set"
  completed :: bool
  result :: "JobResult option"

record ExecutionFailoverOrchestrator =
  state :: ExecutionState
  max_attempts :: nat

abbreviation lifecycle_attempts :: "ExecutionFailoverOrchestrator \<Rightarrow> ExecutionAttempt list" where
  "lifecycle_attempts lc \<equiv> attempts (state lc)"

abbreviation lifecycle_excluded :: "ExecutionFailoverOrchestrator \<Rightarrow> string set" where
  "lifecycle_excluded lc \<equiv> excluded_nodes (state lc)"

abbreviation lifecycle_completed :: "ExecutionFailoverOrchestrator \<Rightarrow> bool" where
  "lifecycle_completed lc \<equiv> completed (state lc)"

abbreviation lifecycle_request :: "ExecutionFailoverOrchestrator \<Rightarrow> string" where
  "lifecycle_request lc \<equiv> ExecutionState.request_id (state lc)"

abbreviation lifecycle_limit :: "ExecutionFailoverOrchestrator \<Rightarrow> nat" where
  "lifecycle_limit lc \<equiv> max_attempts lc"

section \<open>Operations\<close>

definition orchestrator_new :: "string \<Rightarrow> nat \<Rightarrow> ExecutionFailoverOrchestrator outcome" where
  "orchestrator_new rid limit =
     (if rid = [] then Throw (Invalid_Argument ''request_id is required'')
      else if limit = 0 then Throw (Invalid_Argument ''max_attempts must be positive'')
      else Return \<lparr>state = \<lparr>request_id = rid, attempts = [], excluded_nodes = {}, completed = False,
                           result = None\<rparr>,
                   max_attempts = limit\<rparr>)"

definition exhausted :: "ExecutionFailoverOrchestrator \<Rightarrow> bool" where
  "exhausted lc \<longleftrightarrow> length (lifecycle_attempts lc) \<ge> max_attempts lc"

definition ensure_active :: "ExecutionFailoverOrchestrator \<Rightarrow> unit outcome" where
  "ensure_active lc =
     (if lifecycle_completed lc then Throw (Logic_Error ''execution already completed'') else Return ())"

definition begin_attempt ::
    "string \<Rightarrow> ExecutionFailoverOrchestrator \<Rightarrow> ExecutionFailoverOrchestrator outcome" where
  "begin_attempt node lc =
     bind (ensure_active lc) (\<lambda>_.
     if node = [] then Throw (Invalid_Argument ''node_id is required'')
     else if node \<in> lifecycle_excluded lc then Throw (Invalid_Argument ''cannot retry excluded node'')
     else if exhausted lc then Throw (Runtime_Error ''execution attempts exhausted'')
     else Return (lc\<lparr>state := (state lc)
            \<lparr>attempts := lifecycle_attempts lc @ [\<lparr>node_id = node, outcome = ''IN_FLIGHT''\<rparr>]\<rparr>\<rparr>))"

text \<open>\<open>attempts.back().outcome = text\<close>, guarded by the test that the last attempt is one of \<open>node\<close>.\<close>

definition mark_last :: "string \<Rightarrow> string \<Rightarrow> ExecutionAttempt list \<Rightarrow> ExecutionAttempt list" where
  "mark_last node text as =
     (if as \<noteq> [] \<and> node_id (last as) = node
      then as[length as - 1 := (last as)\<lparr>outcome := text\<rparr>] else as)"

definition accept_authenticated_failure ::
    "FailureNotice \<Rightarrow> ExecutionFailoverOrchestrator \<Rightarrow> ExecutionFailoverOrchestrator outcome" where
  "accept_authenticated_failure notice lc =
     bind (ensure_active lc) (\<lambda>_.
     if FailureNotice.request_id notice \<noteq> ExecutionState.request_id (state lc)
     then Throw (Invalid_Argument ''failure request_id mismatch'')
     else if failed_node_id notice = [] then Throw (Invalid_Argument ''failed_node_id is required'')
     else if FailureNotice.signature notice = []
     then Throw (Invalid_Argument ''failure must be authenticated before orchestration'')
     else Return (lc\<lparr>state := (state lc)
            \<lparr>excluded_nodes := insert (failed_node_id notice) (lifecycle_excluded lc),
             attempts := mark_last (failed_node_id notice) ''FAILED'' (lifecycle_attempts lc)\<rparr>\<rparr>))"

definition accept_authenticated_result ::
    "JobResult \<Rightarrow> ExecutionFailoverOrchestrator \<Rightarrow> ExecutionFailoverOrchestrator outcome" where
  "accept_authenticated_result r lc =
     bind (ensure_active lc) (\<lambda>_.
     if JobResult.request_id r \<noteq> ExecutionState.request_id (state lc)
     then Throw (Invalid_Argument ''result request_id mismatch'')
     else if JobResult.signature r = []
     then Throw (Invalid_Argument ''result must be authenticated before orchestration'')
     else if status r \<noteq> ''OK'' then Throw (Invalid_Argument ''only successful result completes execution'')
     else Return (lc\<lparr>state := (state lc)
            \<lparr>attempts := mark_last (responder_node_id r) ''OK'' (lifecycle_attempts lc),
             result := Some r, completed := True\<rparr>\<rparr>))"

section \<open>The lifecycle as a transition system\<close>

datatype lifecycle_event =
    Begin string
  | Failed FailureNotice
  | Succeeded JobResult

fun lifecycle_step ::
    "lifecycle_event \<Rightarrow> ExecutionFailoverOrchestrator \<Rightarrow> ExecutionFailoverOrchestrator outcome" where
  "lifecycle_step (Begin node) lc = begin_attempt node lc"
| "lifecycle_step (Failed notice) lc = accept_authenticated_failure notice lc"
| "lifecycle_step (Succeeded r) lc = accept_authenticated_result r lc"

text \<open>The lifecycles a client can produce by calls that return, in any order.\<close>

inductive reachable :: "ExecutionFailoverOrchestrator \<Rightarrow> ExecutionFailoverOrchestrator \<Rightarrow> bool"
  for start where
  reach_start: "reachable start start"
| reach_step: "reachable start lc \<Longrightarrow> lifecycle_step e lc = Return lc' \<Longrightarrow> reachable start lc'"

inductive_cases reachableE: "reachable start lc"

section \<open>Well-formed lifecycles\<close>

definition attempt_outcomes :: "string set" where
  "attempt_outcomes = {''IN_FLIGHT'', ''FAILED'', ''OK''}"

text \<open>No node is tried again after an attempt at it failed.\<close>

definition no_retry :: "ExecutionAttempt list \<Rightarrow> bool" where
  "no_retry as \<longleftrightarrow>
     (\<forall>i j. i < j \<and> j < length as \<and> outcome (as ! i) = ''FAILED'' \<longrightarrow> node_id (as ! j) \<noteq> node_id (as ! i))"

text \<open>
  A well-formed history: every attempt names a node and has one of the three outcomes, failed nodes are
  excluded and not tried again, and only the last attempt of a completed execution is \<open>OK\<close>.
\<close>

definition history_wf :: "string set \<Rightarrow> bool \<Rightarrow> ExecutionAttempt list \<Rightarrow> bool" where
  "history_wf excluded ended as \<longleftrightarrow>
     (\<forall>a \<in> set as. node_id a \<noteq> [] \<and> outcome a \<in> attempt_outcomes \<and>
        (outcome a = ''FAILED'' \<longrightarrow> node_id a \<in> excluded)) \<and>
     no_retry as \<and> (\<forall>a \<in> set (butlast as). outcome a \<noteq> ''OK'') \<and>
     (as \<noteq> [] \<and> outcome (last as) = ''OK'' \<longrightarrow> ended)"

text \<open>
  What every lifecycle keeps: the bound on the attempts, a well-formed history, and a completed
  lifecycle carrying the result that completed it, a successful one of this very request.
\<close>

definition lifecycle_wf :: "ExecutionFailoverOrchestrator \<Rightarrow> bool" where
  "lifecycle_wf lc \<longleftrightarrow>
     ExecutionState.request_id (state lc) \<noteq> [] \<and>
     0 < max_attempts lc \<and> length (lifecycle_attempts lc) \<le> max_attempts lc \<and>
     [] \<notin> lifecycle_excluded lc \<and>
     history_wf (lifecycle_excluded lc) (lifecycle_completed lc) (lifecycle_attempts lc) \<and>
     (if lifecycle_completed lc
      then \<exists>r. result (state lc) = Some r \<and> JobResult.request_id r = ExecutionState.request_id (state lc) \<and>
             status r = ''OK'' \<and> JobResult.signature r \<noteq> []
      else result (state lc) = None)"

lemma no_retry_snoc:
  "no_retry (as @ [a]) \<longleftrightarrow>
     no_retry as \<and> (\<forall>b \<in> set as. outcome b = ''FAILED'' \<longrightarrow> node_id a \<noteq> node_id b)"
proof -
  have "(\<forall>i < length as. outcome (as ! i) = ''FAILED'' \<longrightarrow> node_id a \<noteq> node_id (as ! i)) \<longleftrightarrow>
      (\<forall>b \<in> set as. outcome b = ''FAILED'' \<longrightarrow> node_id a \<noteq> node_id b)"
    unfolding Ball_set_list_all list_all_length by blast
  then show ?thesis
    unfolding no_retry_def by (auto simp: nth_append less_Suc_eq)
qed

lemma history_wf_Nil [simp]: "history_wf ex ended []"
  by (simp add: history_wf_def no_retry_def)

lemma history_wf_snoc:
  "history_wf ex ended (as @ [a]) \<longleftrightarrow>
     history_wf ex False as \<and> node_id a \<noteq> [] \<and> outcome a \<in> attempt_outcomes \<and>
     (outcome a = ''FAILED'' \<longrightarrow> node_id a \<in> ex) \<and> (outcome a = ''OK'' \<longrightarrow> ended) \<and>
     (\<forall>b \<in> set as. outcome b = ''FAILED'' \<longrightarrow> node_id a \<noteq> node_id b)"
proof -
  have "(\<forall>b \<in> set as. outcome b \<noteq> ''OK'') \<longleftrightarrow>
      (\<forall>b \<in> set (butlast as). outcome b \<noteq> ''OK'') \<and> \<not> (as \<noteq> [] \<and> outcome (last as) = ''OK'')"
    by (cases as rule: rev_cases) auto
  then show ?thesis by (simp add: history_wf_def no_retry_snoc) blast
qed

lemma history_wf_mono: "history_wf ex ended as \<Longrightarrow> ex \<subseteq> ex' \<Longrightarrow> (ended \<Longrightarrow> ended') \<Longrightarrow> history_wf ex' ended' as"
  by (auto simp: history_wf_def)

lemma history_wf_failed: "history_wf ex ended as \<Longrightarrow> b \<in> set as \<Longrightarrow> outcome b = ''FAILED'' \<Longrightarrow> node_id b \<in> ex"
  by (simp add: history_wf_def)

lemma history_wf_mark:
  assumes "history_wf ex ended as" and "text = ''FAILED'' \<and> node \<in> ex \<or> text = ''OK'' \<and> ended"
  shows "history_wf ex ended (mark_last node text as)"
  using assms
  by (cases as rule: rev_cases) (auto simp: mark_last_def history_wf_snoc attempt_outcomes_def)

lemma lifecycle_step_Return:
  "begin_attempt node lc = Return lc' \<longleftrightarrow>
     \<not> lifecycle_completed lc \<and> node \<noteq> [] \<and> node \<notin> lifecycle_excluded lc \<and> \<not> exhausted lc \<and>
     lc' = lc\<lparr>state := (state lc)\<lparr>attempts := lifecycle_attempts lc @ [\<lparr>node_id = node, outcome = ''IN_FLIGHT''\<rparr>]\<rparr>\<rparr>"
  "accept_authenticated_failure notice lc = Return lc' \<longleftrightarrow>
     \<not> lifecycle_completed lc \<and> FailureNotice.request_id notice = ExecutionState.request_id (state lc) \<and>
     failed_node_id notice \<noteq> [] \<and> FailureNotice.signature notice \<noteq> [] \<and>
     lc' = lc\<lparr>state := (state lc)\<lparr>excluded_nodes := insert (failed_node_id notice) (lifecycle_excluded lc),
       attempts := mark_last (failed_node_id notice) ''FAILED'' (lifecycle_attempts lc)\<rparr>\<rparr>"
  "accept_authenticated_result r lc = Return lc' \<longleftrightarrow>
     \<not> lifecycle_completed lc \<and> JobResult.request_id r = ExecutionState.request_id (state lc) \<and>
     JobResult.signature r \<noteq> [] \<and> status r = ''OK'' \<and>
     lc' = lc\<lparr>state := (state lc)\<lparr>attempts := mark_last (responder_node_id r) ''OK'' (lifecycle_attempts lc),
       result := Some r, completed := True\<rparr>\<rparr>"
  by (auto simp: begin_attempt_def accept_authenticated_failure_def accept_authenticated_result_def
      ensure_active_def)

lemma mark_last_snoc [simp]:
  "mark_last node text (as @ [a]) = as @ [if node_id a = node then a\<lparr>outcome := text\<rparr> else a]"
  by (simp add: mark_last_def)

lemma mark_last_Nil [simp]: "mark_last node text [] = []"
  by (simp add: mark_last_def)

lemma mark_last_nodes [simp]: "map node_id (mark_last node text as) = map node_id as"
  by (cases as rule: rev_cases) simp_all

lemma length_mark_last [simp]: "length (mark_last node text as) = length as"
  by (cases as rule: rev_cases) simp_all

lemma orchestrator_new_wf: "orchestrator_new rid limit = Return lc \<Longrightarrow> lifecycle_wf lc"
  by (auto simp: orchestrator_new_def lifecycle_wf_def split: if_splits)

lemma lifecycle_step_wf: "lifecycle_wf lc \<Longrightarrow> lifecycle_step e lc = Return lc' \<Longrightarrow> lifecycle_wf lc'"
proof (induction e lc rule: lifecycle_step.induct)
  case (1 node lc)
  then show ?case
    by (auto simp: lifecycle_wf_def lifecycle_step_Return history_wf_snoc attempt_outcomes_def exhausted_def
        dest: history_wf_failed)
next
  case (2 notice lc)
  then have "history_wf (insert (failed_node_id notice) (lifecycle_excluded lc)) False (lifecycle_attempts lc)"
    by (auto simp: lifecycle_wf_def lifecycle_step_Return intro: history_wf_mono)
  with 2 show ?case
    by (auto simp: lifecycle_wf_def lifecycle_step_Return intro: history_wf_mark)
next
  case (3 r lc)
  then have "history_wf (lifecycle_excluded lc) True (lifecycle_attempts lc)"
    by (auto simp: lifecycle_wf_def lifecycle_step_Return intro: history_wf_mono)
  with 3 show ?case
    by (auto simp: lifecycle_wf_def lifecycle_step_Return intro: history_wf_mark)
qed

lemma reachable_wf: "reachable start lc \<Longrightarrow> lifecycle_wf start \<Longrightarrow> lifecycle_wf lc"
  by (induction rule: reachable.induct) (auto intro: lifecycle_step_wf)

section \<open>The contract towards the engine\<close>

text \<open>
  What a client of the lifecycle relies on, for any system of steps: attempts are only appended, at
  nodes not excluded and within the limit; exclusions stay; and nothing happens after completion.
  \<open>tried\<close> is the sequence of the nodes attempted so far.
\<close>

fun run_steps :: "('e \<Rightarrow> 's \<Rightarrow> 's outcome) \<Rightarrow> 'e list \<Rightarrow> 's \<Rightarrow> 's outcome" where
  "run_steps step [] s = Return s"
| "run_steps step (e # es) s = bind (step e s) (run_steps step es)"

locale failover_laws =
  fixes step :: "'e \<Rightarrow> 's \<Rightarrow> 's outcome" and tried :: "'s \<Rightarrow> 'n list" and barred :: "'s \<Rightarrow> 'n set"
    and ended :: "'s \<Rightarrow> bool" and limit :: "'s \<Rightarrow> nat"
  assumes step_tried: "step e s = Return s' \<Longrightarrow>
      tried s' = tried s \<or> (\<exists>n. tried s' = tried s @ [n] \<and> n \<notin> barred s \<and> length (tried s) < limit s)"
    and step_barred: "step e s = Return s' \<Longrightarrow> barred s \<subseteq> barred s'"
    and step_limit: "step e s = Return s' \<Longrightarrow> limit s' = limit s"
    and step_ended: "ended s \<Longrightarrow> step e s = Throw (Logic_Error ''execution already completed'')"
begin

lemma run_limit: "run_steps step es s = Return s' \<Longrightarrow> limit s' = limit s"
  by (induction es arbitrary: s) (auto simp: bind_eq_Return dest: step_limit)

lemma run_barred: "run_steps step es s = Return s' \<Longrightarrow> barred s \<subseteq> barred s'"
  by (induction es arbitrary: s) (auto simp: bind_eq_Return dest: step_barred)

lemma run_tried:
  "run_steps step es s = Return s' \<Longrightarrow> \<exists>new. tried s' = tried s @ new \<and> set new \<inter> barred s = {}"
proof (induction es arbitrary: s)
  case (Cons e es)
  then obtain s1 where s1: "step e s = Return s1" "run_steps step es s1 = Return s'"
    by (auto simp: bind_eq_Return)
  with Cons.IH obtain new where "tried s' = tried s1 @ new" "set new \<inter> barred s1 = {}" by blast
  then show ?case using step_tried [OF s1(1)] step_barred [OF s1(1)] by fastforce
qed simp

lemma run_bounded:
  "run_steps step es s = Return s' \<Longrightarrow> length (tried s) \<le> limit s \<Longrightarrow> length (tried s') \<le> limit s"
proof (induction es arbitrary: s)
  case (Cons e es)
  then obtain s1 where s1: "step e s = Return s1" "run_steps step es s1 = Return s'"
    by (auto simp: bind_eq_Return)
  have "length (tried s1) \<le> limit s1"
    using step_tried [OF s1(1)] step_limit [OF s1(1)] Cons.prems(2) by auto
  then show ?case using Cons.IH [OF s1(2)] step_limit [OF s1(1)] by simp
qed simp

lemma run_ended: "ended s \<Longrightarrow> run_steps step (e # es) s = Throw (Logic_Error ''execution already completed'')"
  by (simp add: step_ended)

end

interpretation orchestrator: failover_laws lifecycle_step "\<lambda>lc. map node_id (lifecycle_attempts lc)"
  lifecycle_excluded lifecycle_completed max_attempts
proof
  fix e lc lc'
  assume step: "lifecycle_step e lc = Return lc'"
  show "map node_id (lifecycle_attempts lc') = map node_id (lifecycle_attempts lc) \<or>
      (\<exists>n. map node_id (lifecycle_attempts lc') = map node_id (lifecycle_attempts lc) @ [n] \<and>
        n \<notin> lifecycle_excluded lc \<and> length (map node_id (lifecycle_attempts lc)) < max_attempts lc)"
    using step by (cases e) (auto simp: lifecycle_step_Return exhausted_def)
  show "lifecycle_excluded lc \<subseteq> lifecycle_excluded lc'"
    using step by (cases e) (auto simp: lifecycle_step_Return)
  show "max_attempts lc' = max_attempts lc"
    using step by (cases e) (auto simp: lifecycle_step_Return)
next
  fix e lc
  assume "lifecycle_completed lc"
  then show "lifecycle_step e lc = Throw (Logic_Error ''execution already completed'')"
    by (cases e) (simp_all add: begin_attempt_def accept_authenticated_failure_def
        accept_authenticated_result_def ensure_active_def)
qed

section \<open>Properties\<close>

text \<open>
  Claim C5. Whatever operations a client calls on a new lifecycle and in whatever order, the lifecycle
  stays well formed: never more attempts than allowed, failed nodes excluded and never tried again,
  every attempt with one of the three outcomes, and completed exactly when it holds a signed \<open>OK\<close>
  result of its own request.
\<close>

theorem reachable_lifecycle_wf:
  assumes "orchestrator_new rid limit = Return start" and "reachable start lc"
  shows "lifecycle_wf lc"
  using assms(2) orchestrator_new_wf [OF assms(1)] by (rule reachable_wf)

definition sample_lifecycle :: ExecutionFailoverOrchestrator where
  "sample_lifecycle = \<lparr>state = \<lparr>request_id = ''job-1'', attempts = [], excluded_nodes = {}, completed = False,
     result = None\<rparr>, max_attempts = 2\<rparr>"

definition failed_notice :: "string \<Rightarrow> FailureNotice" where
  "failed_notice node = FailureNotice_default\<lparr>FailureNotice.request_id := ''job-1'', failed_node_id := node,
     FailureNotice.signature := ''c2ln''\<rparr>"

definition sample_lifecycle_failed :: ExecutionFailoverOrchestrator where
  "sample_lifecycle_failed = \<lparr>state = \<lparr>request_id = ''job-1'',
     attempts = [\<lparr>node_id = ''node-b'', outcome = ''FAILED''\<rparr>], excluded_nodes = {''node-b''},
     completed = False, result = None\<rparr>, max_attempts = 2\<rparr>"

lemma sample_lifecycle_new: "orchestrator_new ''job-1'' 2 = Return sample_lifecycle"
  by (simp add: orchestrator_new_def sample_lifecycle_def)

lemma sample_lifecycle_run:
  "run_steps lifecycle_step [Begin ''node-b'', Failed (failed_notice ''node-b'')] sample_lifecycle
     = Return sample_lifecycle_failed"
  by (simp add: sample_lifecycle_def sample_lifecycle_failed_def failed_notice_def begin_attempt_def
      accept_authenticated_failure_def ensure_active_def exhausted_def mark_last_def)

lemma reachable_run:
  "run_steps lifecycle_step es start = Return lc \<Longrightarrow> reachable base start \<Longrightarrow> reachable base lc"
proof (induction es arbitrary: start)
  case (Cons e es)
  then show ?case by (auto simp: bind_eq_Return intro: reach_step)
qed simp

theorem reachable_lifecycle_wf_witness: "lifecycle_wf sample_lifecycle_failed"
  using reachable_lifecycle_wf [OF sample_lifecycle_new reachable_run [OF sample_lifecycle_run reach_start]] .

text \<open>
  Along every sequence of calls, exclusions stay and attempts are only appended: a node that is
  excluded at some moment is never among the attempts begun after it, and the number of attempts never
  exceeds the limit.
\<close>

theorem excluded_never_retried:
  assumes "run_steps lifecycle_step es lc = Return lc'" and "lifecycle_wf lc"
  shows "\<exists>new. map node_id (lifecycle_attempts lc') = map node_id (lifecycle_attempts lc) @ new \<and>
           set new \<inter> lifecycle_excluded lc = {} \<and> lifecycle_excluded lc \<subseteq> lifecycle_excluded lc' \<and>
           length (lifecycle_attempts lc') \<le> max_attempts lc"
proof -
  have "length (lifecycle_attempts lc) \<le> max_attempts lc" using assms(2) by (simp add: lifecycle_wf_def)
  then show ?thesis
    using orchestrator.run_tried [OF assms(1)] orchestrator.run_barred [OF assms(1)]
      orchestrator.run_bounded [OF assms(1)] by auto
qed

theorem excluded_never_retried_witness:
  "\<exists>new. map node_id (lifecycle_attempts sample_lifecycle_failed) = [] @ new \<and>
     length (lifecycle_attempts sample_lifecycle_failed) \<le> 2"
proof -
  have "lifecycle_wf sample_lifecycle" using orchestrator_new_wf [OF sample_lifecycle_new] .
  from excluded_never_retried [OF sample_lifecycle_run this]
  show ?thesis by (simp add: sample_lifecycle_def)
qed

text \<open>
  A completed lifecycle is final: every further operation throws the same logic error, so the
  result that completed it is the one it keeps.
\<close>

theorem completed_is_final:
  assumes "accept_authenticated_result r lc = Return lc'"
  shows "result (state lc') = Some r \<and>
    run_steps lifecycle_step (e # es) lc' = Throw (Logic_Error ''execution already completed'')"
proof -
  have "lifecycle_completed lc'" "result (state lc') = Some r" using assms by (auto simp: lifecycle_step_Return)
  then show ?thesis by (simp only: orchestrator.run_ended)
qed

definition ok_result :: "string \<Rightarrow> JobResult" where
  "ok_result node = JobResult_default\<lparr>JobResult.request_id := ''job-1'', responder_node_id := node,
     status := ''OK'', JobResult.signature := ''c2ln''\<rparr>"

theorem completed_is_final_witness:
  "\<exists>lc'. accept_authenticated_result (ok_result ''node-b'') sample_lifecycle = Return lc' \<and>
     run_steps lifecycle_step [Begin ''node-c''] lc' = Throw (Logic_Error ''execution already completed'')"
proof -
  obtain lc' where lc': "accept_authenticated_result (ok_result ''node-b'') sample_lifecycle = Return lc'"
    by (simp add: accept_authenticated_result_def ensure_active_def sample_lifecycle_def ok_result_def)
  then show ?thesis using completed_is_final [OF lc', of "Begin ''node-c''" "[]"] by blast
qed

end
