(* ===== verification/Engine.thy ===== *)
theory Engine
  imports Orchestrator
begin

text \<open>
  The failover loop of \<open>resilient_execution.hpp\<close>.  The route provider and the attempt executor are
  injected callbacks: they run in an environment of their own, may throw, and may not come back.
  Every round that goes on has begun an attempt, so the loop itself ends after at most
  \<open>max_attempts\<close> rounds whatever the callbacks do.
\<close>

record AttemptResponse =
  result :: "JobResult option"
  failure :: "FailureNotice option"

type_synonym 'w RouteProvider = "JobRequest \<Rightarrow> string set \<Rightarrow> ('w, string option) io"
type_synonym 'w AttemptExecutor = "JobRequest \<Rightarrow> string \<Rightarrow> ('w, AttemptResponse) io"

record ResilientExecutionOutcome =
  state :: ExecutionState
  exhausted :: bool

record 'w ResilientExecutionEngine =
  route_provider :: "'w RouteProvider"
  attempt_executor :: "'w AttemptExecutor"
  max_attempts :: nat

text \<open>An empty \<open>std::function\<close> is \<open>None\<close>.\<close>

definition engine_new ::
    "'w RouteProvider option \<Rightarrow> 'w AttemptExecutor option \<Rightarrow> nat \<Rightarrow> 'w ResilientExecutionEngine outcome" where
  "engine_new provider executor limit =
     (case provider of None \<Rightarrow> Throw (Invalid_Argument ''route provider is required'')
      | Some p \<Rightarrow>
     (case executor of None \<Rightarrow> Throw (Invalid_Argument ''attempt executor is required'')
      | Some x \<Rightarrow>
      if limit = 0 then Throw (Invalid_Argument ''max_attempts must be positive'')
      else Return \<lparr>route_provider = p, attempt_executor = x, max_attempts = limit\<rparr>))"

text \<open>What the loop does with the response of an attempt.\<close>

definition accept_response ::
    "string \<Rightarrow> AttemptResponse \<Rightarrow> ExecutionFailoverOrchestrator \<Rightarrow> ExecutionFailoverOrchestrator outcome" where
  "accept_response target response lc =
     (case (AttemptResponse.result response, failure response) of
        (Some r, Some n) \<Rightarrow> Throw (Logic_Error ''attempt cannot return result and failure together'')
      | (None, None) \<Rightarrow> Throw (Logic_Error ''attempt returned no terminal evidence'')
      | (Some r, None) \<Rightarrow> accept_authenticated_result r lc
      | (None, Some n) \<Rightarrow>
          if failed_node_id n \<noteq> target
          then Throw (Invalid_Argument ''failure does not identify attempted node'')
          else accept_authenticated_failure n lc)"

text \<open>The attempt at a node: begun, executed with the request redirected to it, and its response accepted.\<close>

definition attempt_node ::
    "'w ResilientExecutionEngine \<Rightarrow> JobRequest \<Rightarrow> string \<Rightarrow> ExecutionFailoverOrchestrator \<Rightarrow>
       ('w, ExecutionFailoverOrchestrator) io" where
  "attempt_node eng original node lc =
     io_bind (io_outcome (begin_attempt node lc)) (\<lambda>lc.
     let attempt = original\<lparr>target_node_id := node\<rparr> in
     io_bind (attempt_executor eng attempt node) (\<lambda>response.
     io_outcome (accept_response node response lc)))"

text \<open>One round of the loop: \<open>None\<close> is the \<open>break\<close>.\<close>

definition execute_round ::
    "'w ResilientExecutionEngine \<Rightarrow> JobRequest \<Rightarrow> ExecutionFailoverOrchestrator \<Rightarrow>
       ('w, ExecutionFailoverOrchestrator option) io" where
  "execute_round eng original lc =
     io_bind (route_provider eng original (lifecycle_excluded lc)) (\<lambda>target.
       case target of None \<Rightarrow> io_return None
       | Some node \<Rightarrow>
           if node \<in> lifecycle_excluded lc then io_throw (Logic_Error ''routing returned an excluded node'')
           else io_bind (attempt_node eng original node lc) (\<lambda>lc. io_return (Some lc)))"

lemma accept_response_attempts:
  assumes "accept_response node response lc = Return lc'"
  shows "map node_id (lifecycle_attempts lc') = map node_id (lifecycle_attempts lc)"
    and "lifecycle_limit lc' = lifecycle_limit lc"
    and "length (lifecycle_attempts lc') = length (lifecycle_attempts lc)"
  using assms
  by (auto simp: accept_response_def lifecycle_step_Return split: option.splits if_splits)

lemma attempt_node_Return:
  "attempt_node eng original node lc w = Some (Return lc', w') \<longleftrightarrow>
     (\<exists>lc1 response. begin_attempt node lc = Return lc1 \<and>
        attempt_executor eng (original\<lparr>target_node_id := node\<rparr>) node w = Some (Return response, w') \<and>
        accept_response node response lc1 = Return lc')"
  by (auto simp: attempt_node_def io_bind_eq_Return io_outcome_def Let_def)

lemma execute_round_Some:
  "execute_round eng original lc w = Some (Return (Some lc'), w') \<longleftrightarrow>
     (\<exists>node w1. route_provider eng original (lifecycle_excluded lc) w = Some (Return (Some node), w1) \<and>
        node \<notin> lifecycle_excluded lc \<and> attempt_node eng original node lc w1 = Some (Return lc', w'))"
  by (auto simp: execute_round_def io_bind_eq_Return io_outcome_def split: option.splits if_splits)

lemma execute_round_None:
  "execute_round eng original lc w = Some (Return None, w') \<longleftrightarrow>
     route_provider eng original (lifecycle_excluded lc) w = Some (Return None, w')"
  by (auto simp: execute_round_def io_bind_eq_Return io_outcome_def split: option.splits if_splits)

lemma execute_round_progress:
  assumes "execute_round eng original lc w = Some (Return (Some lc'), w')"
  shows "lifecycle_limit lc' = lifecycle_limit lc \<and>
    length (lifecycle_attempts lc') = Suc (length (lifecycle_attempts lc)) \<and>
    \<not> Orchestrator.exhausted lc"
proof -
  obtain node lc1 response where "begin_attempt node lc = Return lc1"
    "accept_response node response lc1 = Return lc'"
    using assms by (auto simp: execute_round_Some attempt_node_Return)
  then show ?thesis
    using accept_response_attempts [of node response lc1 lc']
    by (auto simp: lifecycle_step_Return)
qed

function execute_loop ::
    "'w ResilientExecutionEngine \<Rightarrow> JobRequest \<Rightarrow> ExecutionFailoverOrchestrator \<Rightarrow>
       ('w, ExecutionFailoverOrchestrator) io" where
  "execute_loop eng original lc w =
     (if lifecycle_completed lc \<or> Orchestrator.exhausted lc then Some (Return lc, w)
      else case execute_round eng original lc w of
        None \<Rightarrow> None
      | Some (r, w') \<Rightarrow>
          (case r of
             Return None \<Rightarrow> Some (Return lc, w')
           | Return (Some lc') \<Rightarrow> execute_loop eng original lc' w'
           | Throw e \<Rightarrow> Some (Throw e, w')
           | Undefined \<Rightarrow> Some (Undefined, w')))"
  by pat_completeness auto

termination
  by (relation "measure (\<lambda>(eng, original, lc, w).
        lifecycle_limit lc - length (lifecycle_attempts lc))")
    (auto simp: Orchestrator.exhausted_def dest!: execute_round_progress)

declare execute_loop.simps [simp del]

definition execute ::
    "'w ResilientExecutionEngine \<Rightarrow> JobRequest \<Rightarrow> ('w, ResilientExecutionOutcome) io" where
  "execute eng original =
     (if JobRequest.request_id original = [] then io_throw (Invalid_Argument ''request_id is required'')
      else io_bind (io_outcome (orchestrator_new (JobRequest.request_id original)
                                  (ResilientExecutionEngine.max_attempts eng))) (\<lambda>lc.
        io_bind (execute_loop eng original lc) (\<lambda>lc.
        io_return \<lparr>state = ExecutionFailoverOrchestrator.state lc, exhausted = Orchestrator.exhausted lc\<rparr>)))"

section \<open>Reasoning about the loop\<close>

text \<open>
  The loop rule: an invariant kept by every round that goes on, and a conclusion that follows when the
  loop condition fails, when a round breaks and when a round throws.
\<close>

lemma execute_loop_rule:
  assumes "execute_loop eng original lc w = Some (r, w')" and "I lc w"
    and step: "\<And>lc w lc' w'. I lc w \<Longrightarrow> \<not> lifecycle_completed lc \<Longrightarrow> \<not> Orchestrator.exhausted lc \<Longrightarrow>
      execute_round eng original lc w = Some (Return (Some lc'), w') \<Longrightarrow> I lc' w'"
    and break: "\<And>lc w w'. I lc w \<Longrightarrow> \<not> lifecycle_completed lc \<Longrightarrow> \<not> Orchestrator.exhausted lc \<Longrightarrow>
      execute_round eng original lc w = Some (Return None, w') \<Longrightarrow> Q (Return lc) w'"
    and throw: "\<And>lc w e w'. I lc w \<Longrightarrow> \<not> lifecycle_completed lc \<Longrightarrow> \<not> Orchestrator.exhausted lc \<Longrightarrow>
      execute_round eng original lc w = Some (Throw e, w') \<Longrightarrow> Q (Throw e) w'"
    and undefined: "\<And>lc w w'. I lc w \<Longrightarrow> \<not> lifecycle_completed lc \<Longrightarrow> \<not> Orchestrator.exhausted lc \<Longrightarrow>
      execute_round eng original lc w = Some (Undefined, w') \<Longrightarrow> Q Undefined w'"
    and final: "\<And>lc w. I lc w \<Longrightarrow> lifecycle_completed lc \<or> Orchestrator.exhausted lc \<Longrightarrow> Q (Return lc) w"
  shows "Q r w'"
  using assms
proof (induction eng original lc w rule: execute_loop.induct)
  case (1 eng original lc w)
  note inv = "1.prems"(2) and step = "1.prems"(3) and rest = "1.prems"(4-7)
  show ?case
  proof (cases "lifecycle_completed lc \<or> Orchestrator.exhausted lc")
    case True
    then show ?thesis using "1.prems"(1) rest(4) [OF inv] by (simp add: execute_loop.simps)
  next
    case False
    then obtain x w1 where round: "execute_round eng original lc w = Some (x, w1)"
      using "1.prems"(1) by (auto simp: execute_loop.simps [of eng original lc] split: option.splits)
    consider (Break) "x = Return None" | (Go) lc' where "x = Return (Some lc')" |
        (Throw) e where "x = Throw e" | (Undefined) "x = Undefined"
      by (metis option.exhaust outcome.exhaust)
    then show ?thesis
    proof cases
      case Go
      have "execute_loop eng original lc' w1 = Some (r, w')"
        using "1.prems"(1) False round Go by (simp add: execute_loop.simps [of eng original lc])
      moreover have "I lc' w1" using step [OF inv] False round Go by blast
      ultimately show ?thesis
        using "1.IH" [OF False round, of "x"] Go step rest by auto
    qed (use "1.prems"(1) False round rest(1-3) [OF inv] in
      \<open>auto simp: execute_loop.simps [of eng original lc]\<close>)
  qed
qed

section \<open>What the loop does to the lifecycle\<close>

text \<open>
  Within the loop the history is sharper than for an arbitrary client: all attempts but the one that
  completed the execution have failed, they are at distinct nodes, and exactly their nodes are excluded.
\<close>

definition failed_attempts :: "ExecutionState \<Rightarrow> ExecutionAttempt list" where
  "failed_attempts s = (if completed s then butlast (attempts s) else attempts s)"

definition engine_history :: "ExecutionFailoverOrchestrator \<Rightarrow> bool" where
  "engine_history lc \<longleftrightarrow>
     lifecycle_wf lc \<and> distinct (map node_id (lifecycle_attempts lc)) \<and>
     (lifecycle_completed lc \<longrightarrow> lifecycle_attempts lc \<noteq> []) \<and>
     (\<forall>a \<in> set (failed_attempts (ExecutionFailoverOrchestrator.state lc)). outcome a = ''FAILED'') \<and>
     lifecycle_excluded lc = node_id ` set (failed_attempts (ExecutionFailoverOrchestrator.state lc))"

lemma accept_response_cases:
  assumes "accept_response node response lc = Return lc'"
  obtains (Result) r where "response = \<lparr>AttemptResponse.result = Some r, failure = None\<rparr>"
      "accept_authenticated_result r lc = Return lc'"
    | (Failure) n where "response = \<lparr>AttemptResponse.result = None, failure = Some n\<rparr>"
      "failed_node_id n = node" "accept_authenticated_failure n lc = Return lc'"
  using assms by (cases response) (auto simp: accept_response_def split: option.splits if_splits)

lemma round_reachable:
  assumes "execute_round eng original lc w = Some (Return (Some lc'), w')"
  shows "\<exists>e node. run_steps lifecycle_step [Begin node, e] lc = Return lc'"
proof -
  obtain node lc1 response where b: "begin_attempt node lc = Return lc1"
    and r: "accept_response node response lc1 = Return lc'"
    using assms by (auto simp: execute_round_Some attempt_node_Return)
  from r show ?thesis
  proof (cases rule: accept_response_cases)
    case (Result r)
    then have "run_steps lifecycle_step [Begin node, Succeeded r] lc = Return lc'" using b by simp
    then show ?thesis by blast
  next
    case (Failure n)
    then have "run_steps lifecycle_step [Begin node, Failed n] lc = Return lc'" using b by simp
    then show ?thesis by blast
  qed
qed

lemma round_history:
  assumes "engine_history lc" and "\<not> lifecycle_completed lc"
    and "execute_round eng original lc w = Some (Return (Some lc'), w')"
  shows "engine_history lc'"
proof -
  obtain node lc1 response where b: "begin_attempt node lc = Return lc1"
    and r: "accept_response node response lc1 = Return lc'"
    using assms(3) by (auto simp: execute_round_Some attempt_node_Return)
  have wf: "lifecycle_wf lc'"
    using round_reachable [OF assms(3)] assms(1)
    by (auto simp: engine_history_def bind_eq_Return intro: lifecycle_step_wf simp del: lifecycle_step.simps)
  have ex: "lifecycle_excluded lc = node_id ` set (lifecycle_attempts lc)"
    "\<forall>a \<in> set (lifecycle_attempts lc). outcome a = ''FAILED''"
    using assms(1,2) by (auto simp: engine_history_def failed_attempts_def)
  have d: "distinct (map node_id (lifecycle_attempts lc))" "node \<notin> node_id ` set (lifecycle_attempts lc)"
    using assms(1) b ex(1) by (auto simp: engine_history_def lifecycle_step_Return)
  from r show ?thesis
  proof (cases rule: accept_response_cases)
    case (Result r)
    define mark where "mark = (if node = responder_node_id r then ''OK'' else ''IN_FLIGHT'')"
    from Result have "lifecycle_attempts lc' = lifecycle_attempts lc @ [\<lparr>node_id = node, outcome = mark\<rparr>]"
      "lifecycle_excluded lc' = lifecycle_excluded lc" "lifecycle_completed lc'"
      using b by (auto simp: lifecycle_step_Return mark_def)
    then show ?thesis using wf ex d by (simp add: engine_history_def failed_attempts_def)
  next
    case (Failure n)
    then have "lifecycle_attempts lc' = lifecycle_attempts lc @ [\<lparr>node_id = node, outcome = ''FAILED''\<rparr>]"
      "lifecycle_excluded lc' = insert node (lifecycle_excluded lc)" "\<not> lifecycle_completed lc'"
      using b by (auto simp: lifecycle_step_Return)
    then show ?thesis using wf ex d by (simp add: engine_history_def failed_attempts_def)
  qed
qed

lemma new_history: "orchestrator_new rid limit = Return lc \<Longrightarrow> engine_history lc"
  using orchestrator_new_wf [of rid limit lc]
  by (auto simp: engine_history_def failed_attempts_def orchestrator_new_def split: if_splits)

lemma execute_eq_Return:
  "execute eng original w = Some (Return oc, w') \<longleftrightarrow>
     (\<exists>start lc. orchestrator_new (JobRequest.request_id original) (ResilientExecutionEngine.max_attempts eng)
          = Return start \<and> execute_loop eng original start w = Some (Return lc, w') \<and>
        oc = \<lparr>state = ExecutionFailoverOrchestrator.state lc, exhausted = Orchestrator.exhausted lc\<rparr>)"
  by (auto simp: execute_def io_bind_eq_Return io_outcome_def orchestrator_new_def)

section \<open>Contracts of the callbacks\<close>

text \<open>
  What the engine expects of a route provider: it returns, with no node or with one that has a name and
  is not excluded.
\<close>

definition route_contract :: "'w RouteProvider \<Rightarrow> bool" where
  "route_contract provider \<longleftrightarrow>
     (\<forall>q ex w r w'. provider q ex w = Some (r, w') \<longrightarrow>
        (\<exists>t. r = Return t \<and> (\<forall>n. t = Some n \<longrightarrow> n \<noteq> [] \<and> n \<notin> ex)))"

text \<open>
  What it expects of the response to an attempt at \<open>node\<close>: exactly one piece of evidence, signed and about
  this request and this node.
\<close>

definition evidence_ok :: "JobRequest \<Rightarrow> string \<Rightarrow> AttemptResponse \<Rightarrow> bool" where
  "evidence_ok q node response \<longleftrightarrow>
     (case (AttemptResponse.result response, failure response) of
        (Some r, None) \<Rightarrow> JobResult.request_id r = JobRequest.request_id q \<and> responder_node_id r = node \<and>
          status r = ''OK'' \<and> JobResult.signature r \<noteq> []
      | (None, Some n) \<Rightarrow> FailureNotice.request_id n = JobRequest.request_id q \<and> failed_node_id n = node \<and>
          FailureNotice.signature n \<noteq> []
      | _ \<Rightarrow> False)"

text \<open>
  An executor keeps the contract when every attempt that comes back, with defined behaviour, brings such
  evidence and no exception.
\<close>

definition evidence_contract :: "'w AttemptExecutor \<Rightarrow> bool" where
  "evidence_contract executor \<longleftrightarrow>
     (\<forall>q node w r w'. node \<noteq> [] \<and> target_node_id q = node \<and> executor q node w = Some (r, w') \<longrightarrow>
        r = Undefined \<or> (\<exists>response. r = Return response \<and> evidence_ok q node response))"

lemma route_contract_spec:
  assumes "route_contract provider"
    and "\<And>t w1. (\<And>n. t = Some n \<Longrightarrow> n \<noteq> [] \<and> n \<notin> ex) \<Longrightarrow> R (Return t) w1"
  shows "io_spec (provider q ex) w R"
  using assms unfolding route_contract_def io_spec_def by blast

lemma evidence_contract_spec:
  assumes "evidence_contract executor" and "node \<noteq> []" and "target_node_id q = node"
    and "\<And>response w1. evidence_ok q node response \<Longrightarrow> R (Return response) w1"
    and "\<And>w1. R Undefined w1"
  shows "io_spec (executor q node) w R"
  using assms unfolding evidence_contract_def io_spec_def by blast

lemma execute_round_returns:
  assumes "\<And>q ex. returns (route_provider eng q ex)" and "\<And>q n. returns (attempt_executor eng q n)"
  shows "returns (execute_round eng original lc)"
  unfolding execute_round_def attempt_node_def Let_def
  using assms by (auto split: option.splits intro!: returns_bind)

lemma execute_loop_returns:
  assumes "\<And>lc. returns (execute_round eng original lc)"
  shows "execute_loop eng original lc w \<noteq> None"
  using assms
proof (induction eng original lc w rule: execute_loop.induct)
  case (1 eng original lc w)
  show ?case
  proof (cases "lifecycle_completed lc \<or> Orchestrator.exhausted lc")
    case True
    then show ?thesis by (simp add: execute_loop.simps)
  next
    case False
    obtain x w1 where round: "execute_round eng original lc w = Some (x, w1)" using "1.prems" [of lc] by (fastforce simp: returns_def)
    then show ?thesis
      using False "1.IH" [OF False round refl] "1.prems"
      by (auto simp: execute_loop.simps [of eng original lc w] split: outcome.splits option.splits)
  qed
qed

lemma accept_evidence:
  assumes "evidence_ok q node response" and "\<not> lifecycle_completed lc" and "node \<noteq> []"
    and "lifecycle_request lc = JobRequest.request_id q"
  shows "\<exists>lc'. accept_response node response lc = Return lc'"
  using assms
  by (auto simp: evidence_ok_def accept_response_def accept_authenticated_result_def
      accept_authenticated_failure_def ensure_active_def split: option.splits)

lemma attempt_node_never_throws:
  assumes "evidence_contract (attempt_executor eng)" and "node \<noteq> []" and "node \<notin> lifecycle_excluded lc"
    and "lifecycle_request lc = JobRequest.request_id original"
    and "\<not> lifecycle_completed lc" and "\<not> Orchestrator.exhausted lc"
  shows "io_spec (attempt_node eng original node lc) w (\<lambda>r w'. \<forall>e. r \<noteq> Throw e)"
proof -
  obtain lc1 where lc1: "begin_attempt node lc = Return lc1" "\<not> lifecycle_completed lc1"
    "lifecycle_request lc1 = JobRequest.request_id original"
    using assms(2-6) by (auto simp: begin_attempt_def ensure_active_def)
  have "io_spec (attempt_executor eng (original\<lparr>target_node_id := node\<rparr>) node) w
      (\<lambda>r w1. case r of Return response \<Rightarrow> \<forall>e. accept_response node response lc1 \<noteq> Throw e
        | Throw e \<Rightarrow> False | Undefined \<Rightarrow> True)"
    using lc1 accept_evidence [of "original\<lparr>target_node_id := node\<rparr>" node _ lc1] assms(2)
    by (intro evidence_contract_spec [OF assms(1,2)]) fastforce+
  then show ?thesis
    by (auto simp: attempt_node_def lc1(1) io_spec_bind elim!: io_spec_mono split: outcome.splits)
qed

lemma round_never_throws:
  assumes "route_contract (route_provider eng)" and "evidence_contract (attempt_executor eng)"
    and "lifecycle_request lc = JobRequest.request_id original"
    and "\<not> lifecycle_completed lc" and "\<not> Orchestrator.exhausted lc"
  shows "io_spec (execute_round eng original lc) w (\<lambda>r w'. \<forall>e. r \<noteq> Throw e)"
  unfolding execute_round_def io_spec_bind
  using attempt_node_never_throws [OF assms(2) _ _ assms(3-5)]
  by (intro route_contract_spec [OF assms(1)])
    (auto simp: io_spec_bind split: option.splits outcome.splits elim!: io_spec_mono)

end
