(* ===== verification/Engine_Properties.thy ===== *)
theory Engine_Properties
  imports Engine
begin

text \<open>
  What the engine promises: a bounded loop, a truthful outcome, no exception as long as the callbacks
  keep their contracts, and completion at the first node that is up.
\<close>

lemma execute_loop_history:
  assumes "execute_loop eng original start w = Some (Return lc, w')" and "engine_history start"
  shows "engine_history lc \<and> (lifecycle_completed lc \<or> Orchestrator.exhausted lc \<or>
    (\<exists>w1. route_provider eng original (lifecycle_excluded lc) w1 = Some (Return None, w')))"
proof -
  have "(\<lambda>r w'. \<forall>lc. r = Return lc \<longrightarrow> engine_history lc \<and> (lifecycle_completed lc \<or> Orchestrator.exhausted lc \<or>
      (\<exists>w1. route_provider eng original (lifecycle_excluded lc) w1 = Some (Return None, w')))) (Return lc) w'"
    using assms
    by (rule execute_loop_rule [where I = "\<lambda>lc w. engine_history lc"])
      (auto simp: execute_round_None intro: round_history)
  then show ?thesis by simp
qed

lemma round_constant:
  assumes "execute_round eng original lc w = Some (Return (Some lc'), w')"
  shows "lifecycle_request lc' = lifecycle_request lc \<and> lifecycle_limit lc' = lifecycle_limit lc"
proof -
  have "lifecycle_request lc' = lifecycle_request lc" if "lifecycle_step e lc = Return lc'" for e lc lc'
    using that by (cases e) (auto simp: lifecycle_step_Return)
  then show ?thesis
    using round_reachable [OF assms] execute_round_progress [OF assms]
    by (auto simp: bind_eq_Return simp del: lifecycle_step.simps)
qed

lemma execute_loop_constant:
  assumes "execute_loop eng original start w = Some (Return lc, w')"
  shows "lifecycle_request lc = lifecycle_request start \<and> lifecycle_limit lc = lifecycle_limit start"
proof -
  have "(\<lambda>r w'. \<forall>lc. r = Return lc \<longrightarrow>
      lifecycle_request lc = lifecycle_request start \<and> lifecycle_limit lc = lifecycle_limit start) (Return lc) w'"
    using assms
    by (rule execute_loop_rule [where I = "\<lambda>lc w. lifecycle_request lc = lifecycle_request start \<and>
          lifecycle_limit lc = lifecycle_limit start"]) (auto dest: round_constant)
  then show ?thesis by simp
qed

lemma orchestrator_new_fields:
  assumes "orchestrator_new rid limit = Return lc"
  shows "lifecycle_request lc = rid \<and> lifecycle_limit lc = limit \<and> lifecycle_attempts lc = [] \<and>
    lifecycle_excluded lc = {} \<and> \<not> lifecycle_completed lc \<and> 0 < limit \<and> rid \<noteq> []"
  using assms by (auto simp: orchestrator_new_def split: if_splits)

lemma execute_returns:
  assumes "\<And>q ex. returns (route_provider eng q ex)" and "\<And>q n. returns (attempt_executor eng q n)"
  shows "returns (execute eng original)"
proof -
  have "returns (execute_loop eng original lc)" for lc
    using execute_loop_returns [OF execute_round_returns [OF assms]] by (simp add: returns_def)
  then show ?thesis unfolding execute_def by (auto intro!: returns_bind)
qed

lemma execute_no_exception:
  assumes "route_contract (route_provider eng)" and "evidence_contract (attempt_executor eng)"
    and "JobRequest.request_id original \<noteq> []" and "0 < ResilientExecutionEngine.max_attempts eng"
    and "execute eng original w = Some (r, w')"
  shows "r = Undefined \<or> (\<exists>oc. r = Return oc)"
proof -
  obtain start where start: "orchestrator_new (JobRequest.request_id original)
      (ResilientExecutionEngine.max_attempts eng) = Return start"
    using assms(3,4) by (simp add: orchestrator_new_def)
  have round: "execute_round eng original lc w \<noteq> Some (Throw e, w')"
    if "lifecycle_request lc = JobRequest.request_id original" "\<not> lifecycle_completed lc"
      "\<not> Orchestrator.exhausted lc" for lc w e w'
    using round_never_throws [OF assms(1,2) that, of w] by (auto simp: io_spec_def)
  have "\<forall>e. x \<noteq> Throw e" if loop: "execute_loop eng original start w = Some (x, w1)" for x w1
  proof (rule execute_loop_rule [OF loop, where I = "\<lambda>lc w. lifecycle_request lc = JobRequest.request_id original"
        and Q = "\<lambda>r w. \<forall>e. r \<noteq> Throw e"])
    show "lifecycle_request start = JobRequest.request_id original"
      using orchestrator_new_fields [OF start] by simp
  qed (use round in \<open>auto dest: round_constant\<close>)
  then show ?thesis
    using assms(3,5) start by (cases r) (auto simp: execute_def io_bind_eq_Some)
qed

section \<open>The attempts of a run\<close>

text \<open>
  The attempts an engine makes from a lifecycle and a world on, with the response each of them brought:
  the trace that the provider and the executor determine, round by round.
\<close>

inductive attempts_made ::
    "'w ResilientExecutionEngine \<Rightarrow> JobRequest \<Rightarrow> ExecutionFailoverOrchestrator \<Rightarrow> 'w \<Rightarrow>
       (string \<times> AttemptResponse) list \<Rightarrow> ExecutionFailoverOrchestrator \<Rightarrow> 'w \<Rightarrow> bool"
  for eng q start w0 where
  none: "attempts_made eng q start w0 [] start w0"
| attempt: "attempts_made eng q start w0 log lc w \<Longrightarrow> \<not> lifecycle_completed lc \<Longrightarrow> \<not> Orchestrator.exhausted lc \<Longrightarrow>
    route_provider eng q (lifecycle_excluded lc) w = Some (Return (Some node), w1) \<Longrightarrow> node \<notin> lifecycle_excluded lc \<Longrightarrow>
    begin_attempt node lc = Return lc1 \<Longrightarrow>
    attempt_executor eng (q\<lparr>target_node_id := node\<rparr>) node w1 = Some (Return response, w2) \<Longrightarrow>
    accept_response node response lc1 = Return lc2 \<Longrightarrow>
    attempts_made eng q start w0 (log @ [(node, response)]) lc2 w2"

lemma round_attempted:
  assumes "attempts_made eng q start w0 log lc w" and "\<not> lifecycle_completed lc" and "\<not> Orchestrator.exhausted lc"
    and "execute_round eng q lc w = Some (Return (Some lc'), w')"
  shows "\<exists>log. attempts_made eng q start w0 log lc' w'"
  using assms attempts_made.attempt by (fastforce simp: execute_round_Some attempt_node_Return)

lemma execute_loop_attempts:
  assumes "execute_loop eng q start w0 = Some (Return lc, w')"
  shows "\<exists>log w. attempts_made eng q start w0 log lc w"
proof -
  have "(\<lambda>r w'. \<forall>lc. r = Return lc \<longrightarrow> (\<exists>log w. attempts_made eng q start w0 log lc w)) (Return lc) w'"
  proof (rule execute_loop_rule [OF assms, where I = "\<lambda>lc w. \<exists>log. attempts_made eng q start w0 log lc w"])
    show "\<exists>log. attempts_made eng q start w0 log start w0" by (rule exI) (rule attempts_made.none)
  qed (auto intro: round_attempted)
  then show ?thesis by simp
qed

lemma execute_attempts:
  assumes "execute eng q w = Some (Return oc, w')"
  obtains start log lc w1 where
    "orchestrator_new (JobRequest.request_id q) (ResilientExecutionEngine.max_attempts eng) = Return start"
    "attempts_made eng q start w log lc w1" "ResilientExecutionOutcome.state oc = ExecutionFailoverOrchestrator.state lc"
  using assms execute_loop_attempts by (fastforce simp: execute_eq_Return)

text \<open>The loop goes on from where its attempts have led.\<close>

lemma attempts_continue: "attempts_made eng q start w0 log lc w \<Longrightarrow> execute_loop eng q start w0 = execute_loop eng q lc w"
proof (induction rule: attempts_made.induct)
  case (attempt log lc w node w1 lc1 response w2 lc2)
  then have "execute_round eng q lc w = Some (Return (Some lc2), w2)"
    by (auto simp: execute_round_Some attempt_node_Return)
  then show ?case using attempt by (simp add: execute_loop.simps [of eng q lc w])
qed simp

text \<open>The lifecycle records the nodes of the attempts, and excludes those that brought a failure.\<close>

lemma attempts_recorded:
  assumes "attempts_made eng q start w0 log lc w" and "lifecycle_attempts start = []" and "lifecycle_excluded start = {}"
  shows "map node_id (lifecycle_attempts lc) = map fst log \<and>
    lifecycle_excluded lc = set (map fst (filter (\<lambda>(node, response). failure response \<noteq> None) log)) \<and>
    lifecycle_request lc = lifecycle_request start \<and> lifecycle_limit lc = lifecycle_limit start"
  using assms
proof (induction rule: attempts_made.induct)
  case (attempt log lc w node w1 lc1 response w2 lc2)
  note lc = attempt.IH [OF attempt.prems]
  from attempt(8) show ?case
    by (cases rule: accept_response_cases)
      (use attempt(6) lc in \<open>auto simp: lifecycle_step_Return\<close>)
qed simp

section \<open>Answering for results\<close>

text \<open>What an executor vouches for when it hands over a result: a property of the request, the node and the result.\<close>

definition vouches :: "'w AttemptExecutor \<Rightarrow> (JobRequest \<Rightarrow> string \<Rightarrow> JobResult \<Rightarrow> bool) \<Rightarrow> bool" where
  "vouches executor V \<longleftrightarrow>
     (\<forall>q node w r f w'. node \<noteq> [] \<and> target_node_id q = node \<and>
        executor q node w = Some (Return \<lparr>AttemptResponse.result = Some r, failure = f\<rparr>, w') \<longrightarrow> V q node r)"

definition completed_by ::
    "(JobRequest \<Rightarrow> string \<Rightarrow> JobResult \<Rightarrow> bool) \<Rightarrow> JobRequest \<Rightarrow> ExecutionState \<Rightarrow> bool" where
  "completed_by V original s \<longleftrightarrow>
     (\<exists>before node r. attempts s = before @ [\<lparr>node_id = node, outcome = ''OK''\<rparr>] \<and>
        ExecutionState.result s = Some r \<and> responder_node_id r = node \<and> V (original\<lparr>target_node_id := node\<rparr>) node r)"

lemma round_completed_by:
  assumes "evidence_contract (attempt_executor eng)" and "vouches (attempt_executor eng) V"
    and "execute_round eng original lc w = Some (Return (Some lc'), w')" and "lifecycle_completed lc'"
  shows "completed_by V original (ExecutionFailoverOrchestrator.state lc')"
proof -
  obtain node w1 lc1 response where b: "begin_attempt node lc = Return lc1"
    and x: "attempt_executor eng (original\<lparr>target_node_id := node\<rparr>) node w1 = Some (Return response, w')"
    and r: "accept_response node response lc1 = Return lc'"
    using assms(3) by (auto simp: execute_round_Some attempt_node_Return)
  have n: "node \<noteq> []" using b by (simp add: lifecycle_step_Return)
  have ok: "evidence_ok (original\<lparr>target_node_id := node\<rparr>) node response"
    using assms(1) [unfolded evidence_contract_def, rule_format, of node _ w1 "Return response" w'] n x by simp
  from r show ?thesis
  proof (cases rule: accept_response_cases)
    case (Result r)
    have "V (original\<lparr>target_node_id := node\<rparr>) node r"
      using assms(2) [unfolded vouches_def, rule_format, of node _ w1 r None w'] n x Result(1) by simp
    moreover have "responder_node_id r = node" using ok Result(1) by (simp add: evidence_ok_def)
    ultimately show ?thesis using Result(2) b by (auto simp: completed_by_def lifecycle_step_Return)
  next
    case (Failure n)
    then show ?thesis using assms(4) by (auto simp: lifecycle_step_Return)
  qed
qed

lemma execute_completed_by:
  assumes "evidence_contract (attempt_executor eng)" and "vouches (attempt_executor eng) V"
    and "execute eng original w = Some (Return oc, w')" and "completed (ResilientExecutionOutcome.state oc)"
  shows "completed_by V original (ResilientExecutionOutcome.state oc)"
proof -
  obtain start lc where start: "orchestrator_new (JobRequest.request_id original)
        (ResilientExecutionEngine.max_attempts eng) = Return start"
    and loop: "execute_loop eng original start w = Some (Return lc, w')"
    and oc: "ResilientExecutionOutcome.state oc = ExecutionFailoverOrchestrator.state lc"
    using assms(3) by (auto simp: execute_eq_Return)
  let ?I = "\<lambda>lc. lifecycle_completed lc \<longrightarrow> completed_by V original (ExecutionFailoverOrchestrator.state lc)"
  have "(\<lambda>r w'. \<forall>lc. r = Return lc \<longrightarrow> ?I lc) (Return lc) w'"
  proof (rule execute_loop_rule [OF loop, where I = "\<lambda>lc w. ?I lc"])
    show "?I start" using orchestrator_new_fields [OF start] by simp
  qed (use round_completed_by [OF assms(1,2)] in auto)
  then show ?thesis using assms(4) by (simp add: oc)
qed

section \<open>The interfaces of the engine\<close>

text \<open>
  A family of route providers and a family of executors, each with the condition under which a member keeps
  its contract.  What an engine built from them does is shown once; the families are those of the
  routing adapter and of the TCP executor.
\<close>

locale route_source =
  fixes route :: "'p \<Rightarrow> 'w RouteProvider" and route_ok :: "'p \<Rightarrow> bool"
  assumes route_contract: "route_ok p \<Longrightarrow> route_contract (route p)"

locale evidence_source =
  fixes exec :: "'x \<Rightarrow> 'w AttemptExecutor" and exec_ok :: "'x \<Rightarrow> bool"
    and vouched :: "'x \<Rightarrow> JobRequest \<Rightarrow> string \<Rightarrow> JobResult \<Rightarrow> bool"
  assumes evidence: "exec_ok x \<Longrightarrow> evidence_contract (exec x)"
    and vouched: "exec_ok x \<Longrightarrow> vouches (exec x) (vouched x)"
begin

lemma completed_vouched:
  assumes "exec_ok x" and "execute \<lparr>route_provider = p, attempt_executor = exec x, max_attempts = n\<rparr> q w = Some (Return oc, w')"
    and "completed (ResilientExecutionOutcome.state oc)"
  shows "completed_by (vouched x) q (ResilientExecutionOutcome.state oc)"
  using execute_completed_by [of "\<lparr>route_provider = p, attempt_executor = exec x, max_attempts = n\<rparr>", OF _ _ assms(2,3)]
    evidence [OF assms(1)] vouched [OF assms(1)] by simp

end

locale execution_stack = route_source route route_ok + evidence_source exec exec_ok vouched
  for route :: "'p \<Rightarrow> 'w RouteProvider" and route_ok
    and exec :: "'x \<Rightarrow> 'w AttemptExecutor" and exec_ok vouched
begin

lemma stack_never_throws:
  assumes "route_ok p" and "exec_ok x" and "JobRequest.request_id q \<noteq> []" and "0 < n"
    and "execute \<lparr>route_provider = route p, attempt_executor = exec x, max_attempts = n\<rparr> q w = Some (r, w')"
  shows "r = Undefined \<or> (\<exists>oc. r = Return oc \<and>
    (completed (ResilientExecutionOutcome.state oc) \<longrightarrow> completed_by (vouched x) q (ResilientExecutionOutcome.state oc)))"
  using execute_no_exception [of "\<lparr>route_provider = route p, attempt_executor = exec x, max_attempts = n\<rparr>", OF _ _ assms(3) _ assms(5)]
    route_contract [OF assms(1)] evidence [OF assms(2)] assms(4) completed_vouched [OF assms(2)] assms(5) by auto

end

section \<open>Properties\<close>

text \<open>
  Claim C4. The outcome of a resilient execution is truthful.  The attempts are at distinct nodes and within
  the limit; all but the completing one have failed, and exactly their nodes are excluded; and the
  execution ended for one of three reasons: it is complete and holds a signed \<open>OK\<close> result of this
  request, or the attempts are used up, or the route provider had no node left beside the excluded
  ones.  The exhaustion flag is set exactly when the limit is reached.
\<close>

theorem execute_outcome:
  assumes "execute eng original w = Some (Return oc, w')" and "s = ResilientExecutionOutcome.state oc"
  shows "distinct (map node_id (attempts s)) \<and>
    length (attempts s) \<le> ResilientExecutionEngine.max_attempts eng \<and>
    (\<forall>a \<in> set (failed_attempts s). outcome a = ''FAILED'') \<and>
    excluded_nodes s = node_id ` set (failed_attempts s) \<and>
    (ResilientExecutionOutcome.exhausted oc \<longleftrightarrow> length (attempts s) = ResilientExecutionEngine.max_attempts eng) \<and>
    (if completed s
     then \<exists>r. ExecutionState.result s = Some r \<and> JobResult.request_id r = JobRequest.request_id original \<and>
            status r = ''OK'' \<and> JobResult.signature r \<noteq> []
     else ExecutionState.result s = None \<and>
            (ResilientExecutionOutcome.exhausted oc \<or>
             (\<exists>w1. route_provider eng original (excluded_nodes s) w1 = Some (Return None, w'))))"
proof -
  obtain start lc where start: "orchestrator_new (JobRequest.request_id original)
        (ResilientExecutionEngine.max_attempts eng) = Return start"
    and loop: "execute_loop eng original start w = Some (Return lc, w')"
    and oc: "oc = \<lparr>state = ExecutionFailoverOrchestrator.state lc, exhausted = Orchestrator.exhausted lc\<rparr>"
    using assms(1) by (auto simp: execute_eq_Return)
  have hist: "engine_history lc" "lifecycle_completed lc \<or> Orchestrator.exhausted lc \<or>
      (\<exists>w1. route_provider eng original (lifecycle_excluded lc) w1 = Some (Return None, w'))"
    using execute_loop_history [OF loop new_history [OF start]] by auto
  have const: "lifecycle_request lc = JobRequest.request_id original"
    "lifecycle_limit lc = ResilientExecutionEngine.max_attempts eng"
    using execute_loop_constant [OF loop] orchestrator_new_fields [OF start] by auto
  have wf: "lifecycle_wf lc" using hist(1) by (simp add: engine_history_def)
  have st: "s = ExecutionFailoverOrchestrator.state lc" and ex: "ResilientExecutionOutcome.exhausted oc = Orchestrator.exhausted lc"
    by (simp_all add: assms(2) oc)
  have "distinct (map node_id (attempts s))" "\<forall>a \<in> set (failed_attempts s). outcome a = ''FAILED''"
    "excluded_nodes s = node_id ` set (failed_attempts s)"
    using hist(1) unfolding engine_history_def st by blast+
  moreover have len: "length (attempts s) \<le> ResilientExecutionEngine.max_attempts eng"
    using wf const(2) unfolding lifecycle_wf_def st by metis
  moreover have "ResilientExecutionOutcome.exhausted oc \<longleftrightarrow> length (attempts s) = ResilientExecutionEngine.max_attempts eng"
    using len const(2) unfolding ex Orchestrator.exhausted_def st by linarith
  moreover have "if completed s
     then \<exists>r. ExecutionState.result s = Some r \<and> JobResult.request_id r = JobRequest.request_id original \<and>
            status r = ''OK'' \<and> JobResult.signature r \<noteq> []
     else ExecutionState.result s = None"
    using wf unfolding lifecycle_wf_def st const(1) by blast
  ultimately show ?thesis using hist(2) unfolding st ex by presburger
qed

lemma execute_loop_reachable:
  assumes "execute_loop eng original start w = Some (Return lc, w')"
  shows "reachable start lc"
proof -
  have "(\<lambda>r w'. \<forall>lc. r = Return lc \<longrightarrow> reachable start lc) (Return lc) w'"
  proof (rule execute_loop_rule [OF assms, where I = "\<lambda>lc w. reachable start lc"])
    fix lc w lc' w'
    assume "reachable start lc" and round: "execute_round eng original lc w = Some (Return (Some lc'), w')"
    from round_reachable [OF round] obtain e node where "run_steps lifecycle_step [Begin node, e] lc = Return lc'" by blast
    then show "reachable start lc'" using \<open>reachable start lc\<close> by (rule reachable_run)
  qed (simp_all add: reach_start)
  then show ?thesis by simp
qed

text \<open>
  Claim C27. An engine that its constructor accepts uses the lifecycle only through its operations: the outcome
  of an execution is the state of a lifecycle that a client could have produced from a new one for this
  request and this limit by calls that return, and it is well formed.  The constructor accepts exactly two
  present callbacks with a positive limit.
\<close>

theorem outcome_well_formed:
  "((\<exists>e. engine_new provider executor n = Return e) \<longleftrightarrow> provider \<noteq> None \<and> executor \<noteq> None \<and> 0 < n) \<and>
   (\<forall>e q w oc w'. engine_new provider executor n = Return e \<and> execute e q w = Some (Return oc, w') \<longrightarrow>
     (\<exists>start lc. orchestrator_new (JobRequest.request_id q) n = Return start \<and> reachable start lc \<and> lifecycle_wf lc \<and>
        oc = \<lparr>state = ExecutionFailoverOrchestrator.state lc, exhausted = Orchestrator.exhausted lc\<rparr>))"
proof (intro conjI allI impI)
  show "(\<exists>e. engine_new provider executor n = Return e) \<longleftrightarrow> provider \<noteq> None \<and> executor \<noteq> None \<and> 0 < n"
    by (auto simp: engine_new_def split: option.splits)
next
  fix e q w oc w'
  assume *: "engine_new provider executor n = Return e \<and> execute e q w = Some (Return oc, w')"
  then have "ResilientExecutionEngine.max_attempts e = n"
    by (auto simp: engine_new_def split: option.splits if_splits)
  then obtain start lc where lc: "orchestrator_new (JobRequest.request_id q) n = Return start"
      "execute_loop e q start w = Some (Return lc, w')"
      "oc = \<lparr>state = ExecutionFailoverOrchestrator.state lc, exhausted = Orchestrator.exhausted lc\<rparr>"
    using * by (auto simp: execute_eq_Return)
  then show "\<exists>start lc. orchestrator_new (JobRequest.request_id q) n = Return start \<and> reachable start lc \<and> lifecycle_wf lc \<and>
      oc = \<lparr>state = ExecutionFailoverOrchestrator.state lc, exhausted = Orchestrator.exhausted lc\<rparr>"
    using execute_loop_reachable [OF lc(2)] reachable_wf orchestrator_new_wf [OF lc(1)] by blast
qed

text \<open>
  A route provider that walks a list of nodes and an executor that answers from a table of live nodes; the
  environment counts the attempts.
\<close>

definition list_provider :: "string list \<Rightarrow> nat RouteProvider" where
  "list_provider nodes q ex w = Some (Return (find (\<lambda>n. n \<notin> ex) nodes), w)"

definition table_executor :: "(string \<Rightarrow> bool) \<Rightarrow> nat AttemptExecutor" where
  "table_executor live q node w =
     Some (Return (if live node
       then \<lparr>AttemptResponse.result = Some (JobResult_default\<lparr>JobResult.request_id := JobRequest.request_id q,
               responder_node_id := node, status := ''OK'', JobResult.signature := ''c2ln''\<rparr>), failure = None\<rparr>
       else \<lparr>AttemptResponse.result = None, failure = Some (FailureNotice_default\<lparr>
               FailureNotice.request_id := JobRequest.request_id q, failed_node_id := node,
               FailureNotice.signature := ''c2ln''\<rparr>)\<rparr>), Suc w)"

definition table_engine :: "string list \<Rightarrow> (string \<Rightarrow> bool) \<Rightarrow> nat \<Rightarrow> nat ResilientExecutionEngine" where
  "table_engine nodes live limit =
     \<lparr>route_provider = list_provider nodes, attempt_executor = table_executor live, max_attempts = limit\<rparr>"

definition job_to :: "string \<Rightarrow> JobRequest" where
  "job_to rid = \<lparr>JobRequest.protocol_version = ''0.2'', JobRequest.message_id = ''msg-0'',
     JobRequest.request_id = rid, sender_node_id = ''node-a'', target_node_id = [], organization_id = [],
     operation = ''PING'', JobRequest.payload = [], issued_at = 0, expires_at = 60,
     JobRequest.signature_algorithm = ''Ed25519'', JobRequest.signature = []\<rparr>"

lemma find_SomeD: "find P xs = Some n \<Longrightarrow> n \<in> set xs \<and> P n"
  by (induction xs) (auto split: if_splits)

lemma list_provider_contract: "[] \<notin> set nodes \<Longrightarrow> route_contract (list_provider nodes)"
  by (auto simp: route_contract_def list_provider_def dest!: find_SomeD)

lemma table_executor_contract: "evidence_contract (table_executor live)"
  by (auto simp: evidence_contract_def table_executor_def evidence_ok_def)

lemma table_engine_returns:
  "returns (route_provider (table_engine nodes live limit) q ex)"
  "returns (attempt_executor (table_engine nodes live limit) q n)"
  by (simp_all add: returns_def table_engine_def list_provider_def table_executor_def)

definition exhausted_run :: ResilientExecutionOutcome where
  "exhausted_run = \<lparr>state = \<lparr>request_id = ''job-1'', attempts = [\<lparr>node_id = ''node-b'', outcome = ''FAILED''\<rparr>],
     excluded_nodes = {''node-b''}, completed = False, result = None\<rparr>, exhausted = False\<rparr>"

lemma table_engine_run:
  "execute (table_engine [''node-b''] (\<lambda>n. False) 3) (job_to ''job-1'') 0 = Some (Return exhausted_run, 1)"
  by (simp add: execute_def execute_loop.simps execute_round_def attempt_node_def table_engine_def list_provider_def
      table_executor_def accept_response_def begin_attempt_def accept_authenticated_failure_def ensure_active_def
      orchestrator_new_def job_to_def Orchestrator.exhausted_def mark_last_def io_bind_def exhausted_run_def)

theorem outcome_well_formed_witness:
  "\<exists>start lc. orchestrator_new ''job-1'' 3 = Return start \<and> reachable start lc \<and> lifecycle_wf lc \<and>
     exhausted_run = \<lparr>state = ExecutionFailoverOrchestrator.state lc, exhausted = Orchestrator.exhausted lc\<rparr>"
proof -
  have "engine_new (Some (list_provider [''node-b''])) (Some (table_executor (\<lambda>n. False))) 3
      = Return (table_engine [''node-b''] (\<lambda>n. False) 3)"
    by (simp add: engine_new_def table_engine_def)
  then have "\<exists>start lc. orchestrator_new (JobRequest.request_id (job_to ''job-1'')) 3 = Return start \<and> reachable start lc \<and>
      lifecycle_wf lc \<and> exhausted_run = \<lparr>state = ExecutionFailoverOrchestrator.state lc, exhausted = Orchestrator.exhausted lc\<rparr>"
    using outcome_well_formed [of "Some (list_provider [''node-b''])" "Some (table_executor (\<lambda>n. False))" 3] table_engine_run
    by metis
  then show ?thesis by (simp add: job_to_def)
qed

theorem execute_outcome_witness:
  "excluded_nodes (ResilientExecutionOutcome.state exhausted_run) = {''node-b''} \<and>
   (\<exists>w1. list_provider [''node-b''] (job_to ''job-1'') {''node-b''} w1 = Some (Return None, 1))"
  using execute_outcome [OF table_engine_run refl]
  by (simp add: exhausted_run_def table_engine_def failed_attempts_def)

text \<open>
  Claim C29. With callbacks that keep their contracts (routes with a name and not excluded; one signed piece of
  evidence about this request and this node per attempt) an execution of a named request never ends in
  an exception.
\<close>

theorem execute_never_throws:
  assumes "route_contract (route_provider eng)" and "evidence_contract (attempt_executor eng)"
    and "JobRequest.request_id original \<noteq> []" and "0 < ResilientExecutionEngine.max_attempts eng"
    and "execute eng original w = Some (r, w')"
  shows "r = Undefined \<or> (\<exists>oc. r = Return oc)"
  using assms by (rule execute_no_exception)

theorem execute_never_throws_witness:
  "\<exists>r w'. execute (table_engine [''node-b''] (\<lambda>n. False) 3) (job_to ''job-1'') 0 = Some (r, w') \<and>
     (r = Undefined \<or> (\<exists>oc. r = Return oc))"
proof -
  let ?e = "table_engine [''node-b''] (\<lambda>n. False) 3"
  have "returns (execute ?e (job_to ''job-1''))"
    by (rule execute_returns) (rule table_engine_returns)+
  then obtain r w' where x: "execute ?e (job_to ''job-1'') 0 = Some (r, w')" by (fastforce simp: returns_def)
  have "route_contract (route_provider ?e)" "evidence_contract (attempt_executor ?e)"
    by (simp_all add: table_engine_def list_provider_contract table_executor_contract)
  then show ?thesis using execute_never_throws [OF _ _ _ _ x] x by (simp add: table_engine_def job_to_def)
qed

lemma round_at_node:
  assumes "route_provider eng original (lifecycle_excluded lc) w = Some (Return (Some node), w1)"
    and "attempt_executor eng (original\<lparr>target_node_id := node\<rparr>) node w1 = Some (Return response, w2)"
    and "evidence_ok (original\<lparr>target_node_id := node\<rparr>) node response"
    and "node \<noteq> []" "node \<notin> lifecycle_excluded lc" "\<not> lifecycle_completed lc" "\<not> Orchestrator.exhausted lc"
    and "lifecycle_request lc = JobRequest.request_id original"
  shows "\<exists>lc'. execute_round eng original lc w = Some (Return (Some lc'), w2) \<and>
    map node_id (lifecycle_attempts lc') = map node_id (lifecycle_attempts lc) @ [node] \<and>
    (if AttemptResponse.result response = None
     then \<not> lifecycle_completed lc' \<and> lifecycle_excluded lc' = insert node (lifecycle_excluded lc)
     else lifecycle_completed lc' \<and> ExecutionState.result (ExecutionFailoverOrchestrator.state lc') = AttemptResponse.result response)"
proof -
  define lc1 where "lc1 = lc\<lparr>ExecutionFailoverOrchestrator.state := (ExecutionFailoverOrchestrator.state lc)
    \<lparr>attempts := lifecycle_attempts lc @ [\<lparr>node_id = node, outcome = ''IN_FLIGHT''\<rparr>]\<rparr>\<rparr>"
  have lc1: "begin_attempt node lc = Return lc1" using assms(4-7) by (simp add: lifecycle_step_Return lc1_def)
  obtain lc' where lc': "accept_response node response lc1 = Return lc'"
    using accept_evidence [OF assms(3), of lc1] assms(4,6,8) by (auto simp: lc1_def)
  have "execute_round eng original lc w = Some (Return (Some lc'), w2)"
    using assms(1,2,5) lc1 lc' by (auto simp: execute_round_Some attempt_node_Return)
  moreover from lc' have "map node_id (lifecycle_attempts lc') = map node_id (lifecycle_attempts lc) @ [node] \<and>
    (if AttemptResponse.result response = None
     then \<not> lifecycle_completed lc' \<and> lifecycle_excluded lc' = insert node (lifecycle_excluded lc)
     else lifecycle_completed lc' \<and> ExecutionState.result (ExecutionFailoverOrchestrator.state lc') = AttemptResponse.result response)"
    by (cases rule: accept_response_cases) (use assms(6) in \<open>auto simp: lifecycle_step_Return lc1_def\<close>)
  ultimately show ?thesis by blast
qed

text \<open>The list of nodes a provider offers, and which of them an executor finds up.\<close>

definition offers :: "'w RouteProvider \<Rightarrow> JobRequest \<Rightarrow> string list \<Rightarrow> bool" where
  "offers provider q nodes \<longleftrightarrow>
     (\<forall>ex w. \<exists>w'. provider q ex w = Some (Return (find (\<lambda>n. n \<notin> ex) nodes), w'))"

definition answers_at :: "'w AttemptExecutor \<Rightarrow> JobRequest \<Rightarrow> (string \<Rightarrow> bool) \<Rightarrow> string \<Rightarrow> bool" where
  "answers_at executor q up node \<longleftrightarrow>
     (\<forall>w. \<exists>response w'. executor (q\<lparr>target_node_id := node\<rparr>) node w = Some (Return response, w') \<and>
        evidence_ok (q\<lparr>target_node_id := node\<rparr>) node response \<and>
        (AttemptResponse.result response \<noteq> None \<longleftrightarrow> up node))"

text \<open>The loop before its next round: the nodes tried so far have failed and are excluded.\<close>

definition tried_so_far :: "JobRequest \<Rightarrow> string list \<Rightarrow> ExecutionFailoverOrchestrator \<Rightarrow> bool" where
  "tried_so_far original tried lc \<longleftrightarrow>
     map node_id (lifecycle_attempts lc) = tried \<and> lifecycle_excluded lc = set tried \<and>
     \<not> lifecycle_completed lc \<and> lifecycle_request lc = JobRequest.request_id original"

lemma find_next: "n \<notin> set tried \<Longrightarrow> find (\<lambda>n. n \<notin> set tried) (tried @ n # rest) = Some n"
proof -
  have "find (\<lambda>n. n \<notin> T) (xs @ n # rest) = Some n" if "n \<notin> T" "set xs \<subseteq> T" for xs T
    using that by (induction xs) auto
  then show "n \<notin> set tried \<Longrightarrow> ?thesis" by blast
qed

lemma next_round:
  assumes "offers (route_provider eng) original (tried @ n # rest)"
    and "answers_at (attempt_executor eng) original up n"
    and "distinct (tried @ n # rest)" and "n \<noteq> []"
    and "tried_so_far original tried lc" and "length tried < lifecycle_limit lc"
  shows "\<exists>lc' w'. execute_round eng original lc w = Some (Return (Some lc'), w') \<and>
    map node_id (lifecycle_attempts lc') = tried @ [n] \<and>
    (if up n then lifecycle_completed lc' else tried_so_far original (tried @ [n]) lc')"
proof -
  note lc = assms(5) [unfolded tried_so_far_def]
  have free: "n \<notin> set tried" using assms(3) by auto
  have len: "length (lifecycle_attempts lc) = length tried" using lc by (metis length_map)
  obtain w1 where w1: "route_provider eng original (lifecycle_excluded lc) w = Some (Return (Some n), w1)"
    using assms(1) lc find_next [OF free, of rest] unfolding offers_def by metis
  obtain response w2 where x: "attempt_executor eng (original\<lparr>target_node_id := n\<rparr>) n w1 = Some (Return response, w2)"
      "evidence_ok (original\<lparr>target_node_id := n\<rparr>) n response" "AttemptResponse.result response \<noteq> None \<longleftrightarrow> up n"
    using assms(2) unfolding answers_at_def by blast
  obtain lc' where lc': "execute_round eng original lc w = Some (Return (Some lc'), w2)"
      "map node_id (lifecycle_attempts lc') = tried @ [n]"
      "if up n then lifecycle_completed lc' else \<not> lifecycle_completed lc' \<and> lifecycle_excluded lc' = insert n (set tried)"
    using round_at_node [OF w1 x(1,2) assms(4)] lc free len assms(6) x(3)
    by (auto simp: Orchestrator.exhausted_def split: if_splits)
  then show ?thesis
    using round_constant [OF lc'(1)] lc by (auto simp: tried_so_far_def)
qed

lemma loop_reaches_live_node:
  assumes "offers (route_provider eng) original nodes"
    and "\<And>n. n \<in> set nodes \<Longrightarrow> answers_at (attempt_executor eng) original up n"
    and "distinct nodes" and "[] \<notin> set nodes" and "nodes = tried @ pre @ live # post"
    and "\<forall>n \<in> set pre. \<not> up n" and "up live"
    and "tried_so_far original tried lc" and "length tried + length pre < lifecycle_limit lc"
  shows "\<exists>lc' w'. execute_loop eng original lc w = Some (Return lc', w') \<and> lifecycle_completed lc' \<and>
    map node_id (lifecycle_attempts lc') = tried @ pre @ [live]"
  using assms(5,6,8,9)
proof (induction pre arbitrary: tried lc w)
  case Nil
  have act: "\<not> (lifecycle_completed lc \<or> Orchestrator.exhausted lc)"
    using Nil.prems(3,4) by (auto simp: tried_so_far_def Orchestrator.exhausted_def)
  have "answers_at (attempt_executor eng) original up live" "live \<noteq> []" using assms(2,4) Nil.prems(1) by auto
  then obtain lc' w' where "execute_round eng original lc w = Some (Return (Some lc'), w')"
      "map node_id (lifecycle_attempts lc') = tried @ [live]" "lifecycle_completed lc'"
    using next_round [of eng original tried live post up lc w] assms(1,3,7) Nil.prems by auto
  then show ?case
    using act by (auto simp: execute_loop.simps [of eng original lc w] execute_loop.simps [of eng original lc' w'])
next
  case (Cons n pre)
  have act: "\<not> (lifecycle_completed lc \<or> Orchestrator.exhausted lc)"
    using Cons.prems(3,4) by (auto simp: tried_so_far_def Orchestrator.exhausted_def)
  have "answers_at (attempt_executor eng) original up n" "n \<noteq> []" "\<not> up n"
    using assms(2,4) Cons.prems(1,2) by auto
  then obtain lc' w' where round: "execute_round eng original lc w = Some (Return (Some lc'), w')"
      "tried_so_far original (tried @ [n]) lc'"
    using next_round [of eng original tried n "pre @ live # post" up lc w] assms(1,3) Cons.prems by auto
  have "length (tried @ [n]) + length pre < lifecycle_limit lc'"
    using Cons.prems(4) execute_round_progress [OF round(1)] by simp
  then show ?case
    using Cons.IH [of "tried @ [n]" lc' w'] Cons.prems(1,2) round act
    by (simp add: execute_loop.simps [of eng original lc w])
qed

text \<open>
  Claim C12. Failover reaches the first live node: if the provider offers a list of distinct nodes, the nodes
  before \<open>live\<close> are down, \<open>live\<close> is up and there are enough attempts, then the execution completes, having
  tried exactly the nodes up to \<open>live\<close>, in order.
\<close>

theorem failover_reaches_live_node:
  assumes "offers (route_provider eng) original (pre @ live # post)"
    and "\<forall>n \<in> set (pre @ live # post). answers_at (attempt_executor eng) original up n"
    and "distinct (pre @ live # post)" and "[] \<notin> set (pre @ live # post)"
    and "\<forall>n \<in> set pre. \<not> up n" and "up live"
    and "length pre < ResilientExecutionEngine.max_attempts eng" and "JobRequest.request_id original \<noteq> []"
  shows "\<exists>oc w'. execute eng original w = Some (Return oc, w') \<and>
    completed (ResilientExecutionOutcome.state oc) \<and>
    map node_id (attempts (ResilientExecutionOutcome.state oc)) = pre @ [live]"
proof -
  obtain start where start: "orchestrator_new (JobRequest.request_id original)
      (ResilientExecutionEngine.max_attempts eng) = Return start"
    using assms(7,8) by (simp add: orchestrator_new_def)
  have "tried_so_far original [] start" "length [] + length pre < lifecycle_limit start"
    using orchestrator_new_fields [OF start] assms(7) by (simp_all add: tried_so_far_def)
  then obtain lc w' where "execute_loop eng original start w = Some (Return lc, w')" "lifecycle_completed lc"
      "map node_id (lifecycle_attempts lc) = pre @ [live]"
    using loop_reaches_live_node [OF assms(1) _ assms(3,4) _ assms(5,6), of "[]" post start w] assms(2) by auto
  then show ?thesis using start by (fastforce simp: execute_eq_Return)
qed

lemma table_engine_offers: "offers (route_provider (table_engine nodes live limit)) q nodes"
  by (simp add: offers_def table_engine_def list_provider_def)

lemma table_engine_answers: "answers_at (attempt_executor (table_engine nodes live limit)) q live n"
  by (simp add: answers_at_def table_engine_def table_executor_def evidence_ok_def)

theorem failover_reaches_live_node_witness:
  "\<exists>oc w'. execute (table_engine [''node-b'', ''node-c'', ''node-d''] (\<lambda>n. n = ''node-c'') 2) (job_to ''job-1'') 0
       = Some (Return oc, w') \<and> completed (ResilientExecutionOutcome.state oc) \<and>
     map node_id (attempts (ResilientExecutionOutcome.state oc)) = [''node-b'', ''node-c'']"
  using failover_reaches_live_node [of "table_engine [''node-b'', ''node-c'', ''node-d''] (\<lambda>n. n = ''node-c'') 2"
      "job_to ''job-1''" "[''node-b'']" "''node-c''" "[''node-d'']" "\<lambda>n. n = ''node-c''" 0]
    table_engine_offers [of "[''node-b'', ''node-c'', ''node-d'']"] table_engine_answers
  by (simp add: table_engine_def job_to_def)

lemma completing_round:
  assumes "\<not> lifecycle_completed lc" and "\<not> Orchestrator.exhausted lc"
    and "route_provider eng q (lifecycle_excluded lc) w = Some (Return (Some node), w1)" and "node \<notin> lifecycle_excluded lc" and "node \<noteq> []"
    and "attempt_executor eng (q\<lparr>target_node_id := node\<rparr>) node w1
           = Some (Return \<lparr>AttemptResponse.result = Some r, failure = None\<rparr>, w2)"
  shows "execute_round eng q lc w = (case accept_authenticated_result r (lc\<lparr>ExecutionFailoverOrchestrator.state :=
        (ExecutionFailoverOrchestrator.state lc)\<lparr>attempts := lifecycle_attempts lc @ [\<lparr>node_id = node, outcome = ''IN_FLIGHT''\<rparr>]\<rparr>\<rparr>) of
      Return lc' \<Rightarrow> Some (Return (Some lc'), w2) | Throw e \<Rightarrow> Some (Throw e, w2) | Undefined \<Rightarrow> Some (Undefined, w2))"
  using assms
  by (simp add: execute_round_def attempt_node_def begin_attempt_def ensure_active_def accept_response_def io_bind_simps
      io_bind_def io_outcome_def split: outcome.splits)

text \<open>
  Claim C39. The engine does not compare the responder of a result with the attempted node.  Wherever a run has got
  to, if the next attempt brings a result, then the execution ends there: it completes with that result
  exactly when the result has the request id, is signed and has status \<open>OK\<close>, whoever the responder is, and
  throws otherwise.  The attempt is recorded as \<open>OK\<close> only when the responder is the attempted node, and stays
  \<open>IN_FLIGHT\<close> in the completed execution when it is not.
\<close>

theorem completion_ignores_responder:
  assumes "orchestrator_new (JobRequest.request_id q) (ResilientExecutionEngine.max_attempts eng) = Return start"
    and "attempts_made eng q start w log lc w1" and "\<not> lifecycle_completed lc" and "\<not> Orchestrator.exhausted lc"
    and "route_provider eng q (lifecycle_excluded lc) w1 = Some (Return (Some node), w2)"
    and "node \<notin> lifecycle_excluded lc" and "node \<noteq> []"
    and "attempt_executor eng (q\<lparr>target_node_id := node\<rparr>) node w2
           = Some (Return \<lparr>AttemptResponse.result = Some r, failure = None\<rparr>, w3)"
  shows "if JobResult.request_id r = JobRequest.request_id q \<and> JobResult.signature r \<noteq> [] \<and> status r = ''OK''
    then \<exists>oc. execute eng q w = Some (Return oc, w3) \<and> completed (ResilientExecutionOutcome.state oc) \<and>
      ExecutionState.result (ResilientExecutionOutcome.state oc) = Some r \<and>
      attempts (ResilientExecutionOutcome.state oc) = lifecycle_attempts lc
        @ [\<lparr>node_id = node, outcome = if responder_node_id r = node then ''OK'' else ''IN_FLIGHT''\<rparr>]
    else \<exists>what. execute eng q w = Some (Throw (Invalid_Argument what), w3)"
proof -
  note new = orchestrator_new_fields [OF assms(1)]
  have req: "lifecycle_request lc = JobRequest.request_id q" using attempts_recorded [OF assms(2)] new by simp
  have "execute eng q w = io_bind (execute_loop eng q lc) (\<lambda>lc. io_return
      \<lparr>state = ExecutionFailoverOrchestrator.state lc, exhausted = Orchestrator.exhausted lc\<rparr>) w1"
    using new by (simp add: execute_def assms(1) io_bind_def attempts_continue [OF assms(2)])
  then show ?thesis
    using completing_round [OF assms(3-8)] assms(3,4) req
    by (auto simp: execute_loop.simps [of eng q lc w1] execute_loop.simps [of eng q _ w3] accept_authenticated_result_def
        ensure_active_def io_bind_def io_outcome_def)
qed

text \<open>An executor that hands over a signed \<open>OK\<close> result in the name of a fixed responder.\<close>

definition foreign_executor :: "string \<Rightarrow> nat AttemptExecutor" where
  "foreign_executor responder q node w =
     Some (Return \<lparr>AttemptResponse.result = Some (JobResult_default\<lparr>JobResult.request_id := JobRequest.request_id q,
       responder_node_id := responder, status := ''OK'', JobResult.signature := ''c2ln''\<rparr>), failure = None\<rparr>, Suc w)"

theorem completion_ignores_responder_witness:
  "\<exists>oc. execute \<lparr>route_provider = list_provider [''node-b''], attempt_executor = foreign_executor ''node-x'', max_attempts = 2\<rparr>
       (job_to ''job-1'') 0 = Some (Return oc, 1) \<and>
     completed (ResilientExecutionOutcome.state oc) \<and>
     attempts (ResilientExecutionOutcome.state oc) = [\<lparr>node_id = ''node-b'', outcome = ''IN_FLIGHT''\<rparr>]"
proof -
  let ?e = "\<lparr>route_provider = list_provider [''node-b''], attempt_executor = foreign_executor ''node-x'', max_attempts = 2\<rparr>"
  obtain start where start: "orchestrator_new ''job-1'' 2 = Return start" by (simp add: orchestrator_new_def)
  have job: "JobRequest.request_id (job_to ''job-1'') = ''job-1''" by (simp add: job_to_def)
  show ?thesis
    using completion_ignores_responder [of "job_to ''job-1''" ?e start 0 "[]" start 0 "''node-b''" 0 _ 1]
      attempts_made.none [of ?e "job_to ''job-1''" start 0] orchestrator_new_fields [OF start] start
    by (auto simp: job list_provider_def foreign_executor_def Orchestrator.exhausted_def)
qed

end
