(* ===== verification/Engine_Refinement.thy ===== *)
theory Engine_Refinement
  imports Engine_Properties
begin

text \<open>
  The failover loop as a refinement of a pure function on the list of nodes tried so far.  The abstract
  failover knows nothing of lifecycles, exclusion sets, exceptions and environments: it asks for the next
  node beside those tried, asks that node for an answer, and stops at the first one.
\<close>

fun failover ::
    "(string set \<Rightarrow> string option) \<Rightarrow> (string \<Rightarrow> JobResult option) \<Rightarrow> nat \<Rightarrow> string list \<Rightarrow>
       string list \<times> JobResult option" where
  "failover pick answer 0 tried = (tried, None)"
| "failover pick answer (Suc k) tried =
     (case pick (set tried) of
        None \<Rightarrow> (tried, None)
      | Some n \<Rightarrow>
          (case answer n of
             None \<Rightarrow> failover pick answer k (tried @ [n])
           | Some r \<Rightarrow> (tried @ [n], Some r)))"

text \<open>
  What a state of the lifecycle means to the abstract function, and callbacks whose answers do not depend on
  the environment they change: a provider that offers named nodes beside the excluded ones, and an
  executor that brings signed evidence.
\<close>

definition abs_outcome :: "ExecutionState \<Rightarrow> string list \<times> JobResult option" where
  "abs_outcome s = (map node_id (attempts s), ExecutionState.result s)"

definition picks :: "'w RouteProvider \<Rightarrow> JobRequest \<Rightarrow> (string set \<Rightarrow> string option) \<Rightarrow> bool" where
  "picks provider q pick \<longleftrightarrow>
     (\<forall>ex n. pick ex = Some n \<longrightarrow> n \<noteq> [] \<and> n \<notin> ex) \<and>
     (\<forall>ex w. \<exists>w'. provider q ex w = Some (Return (pick ex), w'))"

definition gives :: "'w AttemptExecutor \<Rightarrow> JobRequest \<Rightarrow> (string \<Rightarrow> JobResult option) \<Rightarrow> bool" where
  "gives executor q answer \<longleftrightarrow>
     (\<forall>n w. n \<noteq> [] \<longrightarrow> (\<exists>response w'. executor (q\<lparr>target_node_id := n\<rparr>) n w = Some (Return response, w') \<and>
        evidence_ok (q\<lparr>target_node_id := n\<rparr>) n response \<and> AttemptResponse.result response = answer n))"

lemma picksD:
  assumes "picks provider q pick"
  shows "pick ex = Some n \<Longrightarrow> n \<noteq> [] \<and> n \<notin> ex" "\<exists>w'. provider q ex w = Some (Return (pick ex), w')"
  using assms unfolding picks_def by blast+

lemma givesD:
  assumes "gives executor q answer" and "n \<noteq> []"
  shows "\<exists>response w'. executor (q\<lparr>target_node_id := n\<rparr>) n w = Some (Return response, w') \<and>
    evidence_ok (q\<lparr>target_node_id := n\<rparr>) n response \<and> AttemptResponse.result response = answer n"
  using assms unfolding gives_def by blast

lemma tried_result: "engine_history lc \<Longrightarrow> \<not> lifecycle_completed lc \<Longrightarrow>
    ExecutionState.result (ExecutionFailoverOrchestrator.state lc) = None"
  by (simp add: engine_history_def lifecycle_wf_def)

text \<open>One round simulates one step of the abstract function.\<close>

lemma round_refines:
  assumes "picks (route_provider eng) original pick" and "gives (attempt_executor eng) original answer"
    and "tried_so_far original tried lc" and "length tried < lifecycle_limit lc" and "pick (set tried) = Some n"
  shows "\<exists>lc' w'. execute_round eng original lc w = Some (Return (Some lc'), w') \<and>
    map node_id (lifecycle_attempts lc') = tried @ [n] \<and>
    (case answer n of
       None \<Rightarrow> tried_so_far original (tried @ [n]) lc'
     | Some r \<Rightarrow> lifecycle_completed lc' \<and>
         ExecutionState.result (ExecutionFailoverOrchestrator.state lc') = Some r)"
proof -
  note lc = assms(3) [unfolded tried_so_far_def]
  have len: "length (lifecycle_attempts lc) = length tried" using lc by (metis length_map)
  have n: "n \<noteq> []" "n \<notin> lifecycle_excluded lc" using picksD(1) [OF assms(1,5)] lc by auto
  obtain w1 where w1: "route_provider eng original (lifecycle_excluded lc) w = Some (Return (Some n), w1)"
    using picksD(2) [OF assms(1), of "lifecycle_excluded lc" w] lc assms(5) by auto
  obtain response w2 where x: "attempt_executor eng (original\<lparr>target_node_id := n\<rparr>) n w1 = Some (Return response, w2)"
      "evidence_ok (original\<lparr>target_node_id := n\<rparr>) n response" "AttemptResponse.result response = answer n"
    using givesD [OF assms(2) n(1)] by blast
  obtain lc' where lc': "execute_round eng original lc w = Some (Return (Some lc'), w2)"
      "map node_id (lifecycle_attempts lc') = tried @ [n]"
      "if answer n = None then \<not> lifecycle_completed lc' \<and> lifecycle_excluded lc' = insert n (set tried)
       else lifecycle_completed lc' \<and> ExecutionState.result (ExecutionFailoverOrchestrator.state lc') = answer n"
    using round_at_node [OF w1 x(1,2) n] lc len assms(4) x(3)
    by (auto simp: Orchestrator.exhausted_def)
  then show ?thesis
    using round_constant [OF lc'(1)] lc by (cases "answer n") (auto simp: tried_so_far_def)
qed

lemma loop_refines:
  assumes "picks (route_provider eng) original pick" and "gives (attempt_executor eng) original answer"
    and "tried_so_far original tried lc" and "engine_history lc" and "lifecycle_limit lc = length tried + k"
  shows "\<exists>lc' w'. execute_loop eng original lc w = Some (Return lc', w') \<and>
    abs_outcome (ExecutionFailoverOrchestrator.state lc') = failover pick answer k tried"
  using assms(3-5)
proof (induction k arbitrary: tried lc w)
  case 0
  then have "Orchestrator.exhausted lc" "abs_outcome (ExecutionFailoverOrchestrator.state lc) = (tried, None)"
    using tried_result [OF 0(2)] by (auto simp: tried_so_far_def Orchestrator.exhausted_def abs_outcome_def)
  then show ?case by (simp add: execute_loop.simps)
next
  case (Suc k)
  have act: "\<not> (lifecycle_completed lc \<or> Orchestrator.exhausted lc)"
    using Suc.prems(1,3) by (auto simp: tried_so_far_def Orchestrator.exhausted_def)
  show ?case
  proof (cases "pick (set tried)")
    case None
    obtain w' where "route_provider eng original (lifecycle_excluded lc) w = Some (Return None, w')"
      using picksD(2) [OF assms(1), of "set tried" w] None Suc.prems(1) by (auto simp: tried_so_far_def)
    then have "execute_loop eng original lc w = Some (Return lc, w')"
      using act by (simp add: execute_loop.simps [of eng original lc w] execute_round_None [THEN iffD2])
    then show ?thesis
      using None tried_result [OF Suc.prems(2)] Suc.prems(1) by (simp add: tried_so_far_def abs_outcome_def)
  next
    case (Some n)
    obtain lc' w' where round: "execute_round eng original lc w = Some (Return (Some lc'), w')"
        "map node_id (lifecycle_attempts lc') = tried @ [n]"
        "case answer n of None \<Rightarrow> tried_so_far original (tried @ [n]) lc'
         | Some r \<Rightarrow> lifecycle_completed lc' \<and> ExecutionState.result (ExecutionFailoverOrchestrator.state lc') = Some r"
      using round_refines [OF assms(1,2) Suc.prems(1) _ Some, of w] Suc.prems(3) by auto
    have go: "execute_loop eng original lc w = execute_loop eng original lc' w'"
      using act round(1) by (simp add: execute_loop.simps [of eng original lc w])
    show ?thesis
    proof (cases "answer n")
      case None
      have "engine_history lc'" "lifecycle_limit lc' = length (tried @ [n]) + k"
        using round_history [OF Suc.prems(2) _ round(1)] round_constant [OF round(1)] act Suc.prems(3) by auto
      then show ?thesis using Suc.IH [of "tried @ [n]" lc' w'] round(3) go Some None by simp
    next
      case (Some r)
      then show ?thesis
        using round(2,3) go \<open>pick (set tried) = Some n\<close>
        by (simp add: execute_loop.simps [of eng original lc' w'] abs_outcome_def)
    qed
  qed
qed

text \<open>
  Claim C26. The engine implements abstract failover: for callbacks whose answers do not depend on the
  environment, an execution returns, and the nodes it tried, in order, and the result it holds are those
  the pure function computes from the choices of the provider, the answers of the nodes and the limit.
\<close>

theorem execute_refines_failover:
  assumes "picks (route_provider eng) original pick" and "gives (attempt_executor eng) original answer"
    and "JobRequest.request_id original \<noteq> []" and "0 < ResilientExecutionEngine.max_attempts eng"
  shows "\<exists>oc w'. execute eng original w = Some (Return oc, w') \<and>
    abs_outcome (ResilientExecutionOutcome.state oc)
      = failover pick answer (ResilientExecutionEngine.max_attempts eng) []"
proof -
  obtain start where start: "orchestrator_new (JobRequest.request_id original)
      (ResilientExecutionEngine.max_attempts eng) = Return start"
    using assms(3,4) by (simp add: orchestrator_new_def)
  have "tried_so_far original [] start"
    "lifecycle_limit start = length [] + ResilientExecutionEngine.max_attempts eng"
    using orchestrator_new_fields [OF start] by (simp_all add: tried_so_far_def)
  then show ?thesis
    using loop_refines [OF assms(1,2) _ new_history [OF start]] start by (fastforce simp: execute_eq_Return)
qed

definition table_answer :: "(string \<Rightarrow> bool) \<Rightarrow> string \<Rightarrow> JobResult option" where
  "table_answer live n = (if live n then Some (JobResult_default\<lparr>JobResult.request_id := ''job-1'',
     responder_node_id := n, status := ''OK'', JobResult.signature := ''c2ln''\<rparr>) else None)"

theorem execute_refines_failover_witness:
  "\<exists>oc w'. execute (table_engine [''node-b'', ''node-c'', ''node-d''] (\<lambda>n. n = ''node-c'') 3) (job_to ''job-1'') 0
       = Some (Return oc, w') \<and>
     abs_outcome (ResilientExecutionOutcome.state oc)
       = ([''node-b'', ''node-c''], table_answer (\<lambda>n. n = ''node-c'') ''node-c'')"
proof -
  let ?ns = "[''node-b'', ''node-c'', ''node-d'']" and ?live = "\<lambda>n. n = ''node-c''"
  let ?pick = "\<lambda>ex. find (\<lambda>n. n \<notin> ex) ?ns"
  have "picks (list_provider ?ns) (job_to ''job-1'') ?pick"
    unfolding picks_def list_provider_def by (auto dest!: find_SomeD)
  moreover have "gives (table_executor ?live) (job_to ''job-1'') (table_answer ?live)"
    by (simp add: gives_def table_executor_def evidence_ok_def table_answer_def job_to_def)
  moreover have "failover ?pick (table_answer ?live) 3 [] = ([''node-b'', ''node-c''], table_answer ?live ''node-c'')"
    by (simp add: numeral_3_eq_3 table_answer_def)
  ultimately show ?thesis
    using execute_refines_failover [of "table_engine ?ns ?live 3" "job_to ''job-1''" ?pick "table_answer ?live" 0]
    by (simp add: table_engine_def job_to_def)
qed

end
