(* ===== verification/Framing.thy ===== *)
theory Framing
  imports MA2A_Prelude
begin

text \<open>
  The length-prefixed frames of \<open>framing.hpp\<close>: four big-endian size bytes followed by the body.  The
  size is a 32-bit word as in the source, taken apart and put together by shifts and masks; the
  arithmetic reading of the header is a lemma, not the definition.
\<close>

unbundle bit_operations_syntax

type_synonym frame_header = "byte \<times> byte \<times> byte \<times> byte"

definition kMaxFrameBytes :: nat where
  "kMaxFrameBytes = 1024 * 1024"

text \<open>The four \<open>push_back\<close> of \<open>encode_frame\<close>.\<close>

definition size_bytes :: "uint32 \<Rightarrow> byte list" where
  "size_bytes n =
     [ucast (drop_bit 24 n AND 0xff), ucast (drop_bit 16 n AND 0xff),
      ucast (drop_bit 8 n AND 0xff), ucast (n AND 0xff)]"

definition encode_frame :: "string \<Rightarrow> byte list outcome" where
  "encode_frame payload =
     (if payload = [] then Throw (Invalid_Argument ''empty frame'')
      else if length payload > kMaxFrameBytes then Throw (Length_Error ''frame too large'')
      else let n = word_of_nat (length payload) :: uint32
           in Return (size_bytes n @ bytes_of_string payload))"

fun header_word :: "frame_header \<Rightarrow> uint32" where
  "header_word (h0, h1, h2, h3) =
     push_bit 24 (ucast h0) OR push_bit 16 (ucast h1) OR push_bit 8 (ucast h2) OR ucast h3"

declare header_word.simps [simp del]

definition decode_frame_size :: "frame_header \<Rightarrow> uint32 outcome" where
  "decode_frame_size header =
     (let n = header_word header in
      if n = 0 then Throw (Invalid_Argument ''empty frame'')
      else if unat n > kMaxFrameBytes then Throw (Length_Error ''frame too large'')
      else Return n)"

definition decode_complete_frame :: "byte list \<Rightarrow> string outcome" where
  "decode_complete_frame frame =
     (if length frame < 4 then Throw (Invalid_Argument ''incomplete frame header'')
      else let header = (frame ! 0, frame ! 1, frame ! 2, frame ! 3) in
        bind (decode_frame_size header) (\<lambda>n.
          if length frame \<noteq> 4 + unat n then Throw (Invalid_Argument ''frame size mismatch'')
          else Return (string_of_bytes (drop 4 frame))))"

section \<open>Headers\<close>

lemma length_size_bytes [simp]: "length (size_bytes n) = 4"
  by (simp add: size_bytes_def)

lemma ucast_and_ff: "ucast (x AND 0xff :: uint32) = (ucast x :: byte)"
proof -
  have "(0xff :: uint32) = mask 8" by (simp add: mask_eq_exp_minus_1)
  then have "x AND 0xff = take_bit 8 x" by (simp only: take_bit_eq_mask)
  then show ?thesis by (auto intro: bit_word_eqI simp: bit_simps)
qed

lemma size_bytes_ucast:
  "size_bytes n = [ucast (drop_bit 24 n), ucast (drop_bit 16 n), ucast (drop_bit 8 n), ucast n]"
  by (simp only: size_bytes_def ucast_and_ff)

lemma bit_header_word:
  "bit (header_word (h0, h1, h2, h3)) k \<longleftrightarrow>
     (if k < 8 then bit h3 k else if k < 16 then bit h2 (k - 8)
      else if k < 24 then bit h1 (k - 16) else k < 32 \<and> bit h0 (k - 24))"
  by (auto simp: header_word.simps bit_simps dest: bit_imp_le_length)

lemma header_word_size_bytes:
  "header_word (ucast (drop_bit 24 n), ucast (drop_bit 16 n), ucast (drop_bit 8 n), ucast n) = n"
  by (rule bit_word_eqI) (auto simp: bit_header_word bit_unsigned_iff bit_drop_bit_eq)

lemma size_bytes_header_word: "size_bytes (header_word (h0, h1, h2, h3)) = [h0, h1, h2, h3]"
  by (auto simp: size_bytes_ucast bit_header_word bit_unsigned_iff bit_drop_bit_eq
      intro!: bit_word_eqI)

text \<open>The header is the size in base 256, most significant byte first.\<close>

lemma unat_header_word:
  "unat (header_word (h0, h1, h2, h3)) = 2 ^ 24 * unat h0 + 2 ^ 16 * unat h1 + 2 ^ 8 * unat h2 + unat h3"
proof -
  let ?u = "\<lambda>h :: byte. ucast h :: uint32"
  have "push_bit 8 (?u h2) AND ?u h3 = 0"
    "push_bit 16 (?u h1) AND (push_bit 8 (?u h2) OR ?u h3) = 0"
    "push_bit 24 (?u h0) AND (push_bit 16 (?u h1) OR (push_bit 8 (?u h2) OR ?u h3)) = 0"
    by (rule bit_word_eqI, auto simp: bit_simps dest: bit_imp_le_length)+
  then have "header_word (h0, h1, h2, h3)
      = push_bit 24 (?u h0) + (push_bit 16 (?u h1) + (push_bit 8 (?u h2) + ?u h3))"
    by (simp add: header_word.simps disjunctive_add_eq_or)
  also have "\<dots> = word_of_nat (2 ^ 24 * unat h0 + (2 ^ 16 * unat h1 + (2 ^ 8 * unat h2 + unat h3)))"
    by (simp add: push_bit_eq_mult mult.commute)
  finally have "header_word (h0, h1, h2, h3)
      = word_of_nat (2 ^ 24 * unat h0 + 2 ^ 16 * unat h1 + 2 ^ 8 * unat h2 + unat h3)"
    by (simp only: add.assoc)
  moreover have "2 ^ 24 * unat h0 + 2 ^ 16 * unat h1 + 2 ^ 8 * unat h2 + unat h3 < 2 ^ LENGTH(32)"
    using unsigned_less [of h0, where ?'a = nat] unsigned_less [of h1, where ?'a = nat]
      unsigned_less [of h2, where ?'a = nat] unsigned_less [of h3, where ?'a = nat] by simp
  ultimately show ?thesis by (simp only: unat_of_nat_eq)
qed

lemma unat_frame_size: "n \<le> kMaxFrameBytes \<Longrightarrow> unat (word_of_nat n :: uint32) = n"
  by (rule unat_of_nat_eq) (simp add: kMaxFrameBytes_def)

lemma decode_frame_size_eq_Return:
  "decode_frame_size h = Return n \<longleftrightarrow> n = header_word h \<and> 0 < unat n \<and> unat n \<le> kMaxFrameBytes"
  by (auto simp: decode_frame_size_def Let_def unat_gt_0)

lemma decode_frame_size_defined: "decode_frame_size h \<noteq> Undefined"
  by (simp add: decode_frame_size_def Let_def)

section \<open>Frames\<close>

text \<open>
  What a receiver takes from a byte stream: a header, then as many bytes as the header says.  It is
  the specification of the socket reader and of the decoder of complete frames.
\<close>

fun take_frame :: "byte list \<Rightarrow> (string \<times> byte list) outcome" where
  "take_frame (h0 # h1 # h2 # h3 # s) =
     bind (decode_frame_size (h0, h1, h2, h3)) (\<lambda>n.
       if length s < unat n then Throw (Runtime_Error ''connection closed before frame completed'')
       else Return (string_of_bytes (take (unat n) s), drop (unat n) s))"
| "take_frame s = Throw (Runtime_Error ''connection closed before frame completed'')"

lemma encode_frame_eq_Return:
  "encode_frame p = Return f \<longleftrightarrow>
     p \<noteq> [] \<and> length p \<le> kMaxFrameBytes \<and> f = size_bytes (word_of_nat (length p)) @ bytes_of_string p"
  by (auto simp: encode_frame_def Let_def)

lemma decode_size_bytes:
  assumes "0 < n" and "n \<le> kMaxFrameBytes" and "size_bytes (word_of_nat n) = [h0, h1, h2, h3]"
  shows "decode_frame_size (h0, h1, h2, h3) = Return (word_of_nat n)"
proof -
  have "header_word (h0, h1, h2, h3) = word_of_nat n"
    using assms(3) header_word_size_bytes [of "word_of_nat n"] by (simp add: size_bytes_ucast)
  then show ?thesis using assms by (simp add: decode_frame_size_eq_Return unat_frame_size)
qed

lemma encode_frameE:
  assumes "encode_frame p = Return f"
  obtains h0 h1 h2 h3 where "f = h0 # h1 # h2 # h3 # bytes_of_string p"
    and "decode_frame_size (h0, h1, h2, h3) = Return (word_of_nat (length p))"
    and "0 < length p" and "length p \<le> kMaxFrameBytes"
proof -
  have p: "0 < length p" "length p \<le> kMaxFrameBytes"
      "f = size_bytes (word_of_nat (length p)) @ bytes_of_string p"
    using assms by (auto simp: encode_frame_eq_Return)
  obtain h0 h1 h2 h3 where h: "size_bytes (word_of_nat (length p)) = [h0, h1, h2, h3]"
    by (simp add: size_bytes_def)
  show thesis using that [OF _ decode_size_bytes [OF p(1,2) h] p(1,2)] p(3) h by simp
qed

lemma take_frame_encode:
  assumes "encode_frame p = Return f"
  shows "take_frame (f @ rest) = Return (p, rest)"
  using assms by (rule encode_frameE) (simp add: unat_frame_size)

lemma take_frame_sound:
  assumes "take_frame s = Return (p, rest)"
  shows "\<exists>f. encode_frame p = Return f \<and> s = f @ rest"
  using assms
proof (cases s rule: take_frame.cases)
  case (1 h0 h1 h2 h3 t)
  define n where "n = header_word (h0, h1, h2, h3)"
  have n: "0 < unat n" "unat n \<le> kMaxFrameBytes" "unat n \<le> length t"
    and p: "p = string_of_bytes (take (unat n) t)" "rest = drop (unat n) t"
    using assms 1 by (auto simp: bind_eq_Return decode_frame_size_eq_Return n_def split: if_splits)
  have "size_bytes (word_of_nat (length p)) = [h0, h1, h2, h3]"
    using n p by (simp add: n_def size_bytes_header_word min_def)
  moreover have "p \<noteq> []" "length p \<le> kMaxFrameBytes" "bytes_of_string p @ rest = t"
    using n p by auto
  ultimately show ?thesis using 1 by (simp add: encode_frame_def)
qed auto

lemma decode_complete_frame_take:
  "decode_complete_frame f = Return p \<longleftrightarrow> take_frame f = Return (p, [])"
proof (cases "length f < 4")
  case True
  then show ?thesis by (cases f rule: take_frame.cases) (auto simp: decode_complete_frame_def)
next
  case False
  then obtain h0 h1 h2 h3 t where f: "f = h0 # h1 # h2 # h3 # t"
    by (cases f rule: take_frame.cases) auto
  show ?thesis
    by (cases "decode_frame_size (h0, h1, h2, h3)")
      (auto simp: f decode_complete_frame_def numeral_2_eq_2 numeral_3_eq_3)
qed

section \<open>Properties\<close>

text \<open>
  Claim C7. A byte vector decodes to a payload exactly when it is the frame the encoder makes of that
  payload: every frame comes back, and nothing else (no short, long, empty or oversized frame) is
  accepted.
\<close>

theorem frame_codec_exact: "decode_complete_frame f = Return p \<longleftrightarrow> encode_frame p = Return f"
proof
  assume "decode_complete_frame f = Return p"
  then show "encode_frame p = Return f"
    using take_frame_sound [of f p "[]"] by (simp add: decode_complete_frame_take)
next
  assume "encode_frame p = Return f"
  then show "decode_complete_frame f = Return p"
    using take_frame_encode [of p f "[]"] by (simp add: decode_complete_frame_take)
qed

lemma decode_frame_size_cases:
  "decode_frame_size (h0, h1, h2, h3) =
     (let n = 2 ^ 24 * unat h0 + 2 ^ 16 * unat h1 + 2 ^ 8 * unat h2 + unat h3 in
      if n = 0 then Throw (Invalid_Argument ''empty frame'')
      else if n > 1048576 then Throw (Length_Error ''frame too large'')
      else Return (word_of_nat n))"
proof -
  define w where "w = header_word (h0, h1, h2, h3)"
  have w: "2 ^ 24 * unat h0 + 2 ^ 16 * unat h1 + 2 ^ 8 * unat h2 + unat h3 = unat w"
    by (simp only: w_def unat_header_word)
  show ?thesis unfolding w Let_def
    by (simp add: decode_frame_size_def Let_def w_def [symmetric] kMaxFrameBytes_def unat_eq_0)
qed

end
