(* ===== verification/Tcp.thy ===== *)
theory Tcp
  imports Framing
begin

text \<open>
  The socket layer of \<open>tcp.hpp\<close>.  The operating system is a parameter: one field of the record \<open>posix\<close> per
  call, over an environment \<open>'w\<close> it changes; \<open>None\<close> is a call that blocks forever.  A failing call gives its
  negative (or non-zero) result with the value of \<open>errno\<close>.  \<open>recv\<close> gives the bytes it writes into the
  buffer.  The retry loops run as long as the system answers with an interruption, so they may not come
  back; that they do is proved where interruptions run out.
\<close>

datatype errno = EINTR | EAGAIN | EWOULDBLOCK | EINPROGRESS | EOTHER nat

type_synonym ('w, 'a) sys = "'w \<Rightarrow> ('a \<times> 'w) option"

record sockaddr_in =
  sin_family :: int
  sin_port :: "byte list"
  sin_addr :: "byte list"

record timeval =
  tv_sec :: int
  tv_usec :: int

datatype sockopt = SO_RCVTIMEO | SO_SNDTIMEO

record 'w posix =
  sys_send :: "int \<Rightarrow> byte list \<Rightarrow> ('w, int \<times> errno) sys"
  sys_recv :: "int \<Rightarrow> nat \<Rightarrow> ('w, int \<times> byte list \<times> errno) sys"
  sys_setsockopt :: "int \<Rightarrow> sockopt \<Rightarrow> timeval \<Rightarrow> ('w, int) sys"
  sys_inet_pton :: "string \<Rightarrow> int \<times> byte list"
  sys_socket :: "('w, int) sys"
  sys_connect :: "int \<Rightarrow> sockaddr_in \<Rightarrow> ('w, int \<times> errno) sys"
  sys_fcntl_getfl :: "int \<Rightarrow> ('w, int) sys"
  sys_fcntl_setfl :: "int \<Rightarrow> int \<Rightarrow> ('w, int) sys"
  sys_poll_out :: "int \<Rightarrow> int \<Rightarrow> ('w, int \<times> errno) sys"
  sys_getsockopt_error :: "int \<Rightarrow> ('w, int \<times> int) sys"
  sys_close :: "int \<Rightarrow> 'w \<Rightarrow> 'w"

definition sys_call :: "('w, 'a) sys \<Rightarrow> ('w, 'a) io" where
  "sys_call f w = map_option (\<lambda>(x, w'). (Return x, w')) (f w)"

definition AF_INET :: int where
  "AF_INET = 2"

definition O_NONBLOCK :: int where
  "O_NONBLOCK = 0x800"

section \<open>Socket handles\<close>

text \<open>
  A \<open>SocketHandle\<close> is its descriptor, \<open>-1\<close> when empty.  The destructor closes a descriptor that is not
  negative; moving a handle leaves the source empty.
\<close>

record SocketHandle =
  fd :: int

definition SocketHandle_empty :: SocketHandle where
  "SocketHandle_empty = \<lparr>fd = - 1\<rparr>"

definition SocketHandle_destroy :: "'w posix \<Rightarrow> SocketHandle \<Rightarrow> 'w \<Rightarrow> 'w" where
  "SocketHandle_destroy os h w = (if fd h \<ge> 0 then sys_close os (fd h) w else w)"

definition SocketHandle_move :: "SocketHandle \<Rightarrow> SocketHandle \<times> SocketHandle" where
  "SocketHandle_move other = (\<lparr>fd = fd other\<rparr>, other\<lparr>fd := - 1\<rparr>)"

text \<open>Move assignment of \<open>other\<close> to \<open>this\<close>; \<open>same\<close> tells whether both are one object.\<close>

definition SocketHandle_assign ::
    "'w posix \<Rightarrow> bool \<Rightarrow> SocketHandle \<Rightarrow> SocketHandle \<Rightarrow> 'w \<Rightarrow> SocketHandle \<times> SocketHandle \<times> 'w" where
  "SocketHandle_assign os same this other w =
     (if same then (this, other, w)
      else let w = (if fd this \<ge> 0 then sys_close os (fd this) w else w) in
        (this\<lparr>fd := fd other\<rparr>, other\<lparr>fd := - 1\<rparr>, w))"

text \<open>
  The scope of a local handle: its destructor runs when the scope is left, by an exception or (unless the
  handle is returned, that is moved out) at the end.
\<close>

definition unwind_handle :: "'w posix \<Rightarrow> SocketHandle \<Rightarrow> ('w, 'a) io \<Rightarrow> ('w, 'a) io" where
  "unwind_handle os h m w =
     (case m w of Some (Throw e, w') \<Rightarrow> Some (Throw e, SocketHandle_destroy os h w') | x \<Rightarrow> x)"

definition scoped_handle :: "'w posix \<Rightarrow> SocketHandle \<Rightarrow> ('w, 'a) io \<Rightarrow> ('w, 'a) io" where
  "scoped_handle os h m w =
     (case unwind_handle os h m w of
        Some (Return x, w') \<Rightarrow> Some (Return x, SocketHandle_destroy os h w') | x \<Rightarrow> x)"

section \<open>Sending and receiving\<close>

text \<open>One round of the loop of \<open>send_all\<close>, the loop variable being \<open>sent\<close>.\<close>

definition send_round :: "'w posix \<Rightarrow> int \<Rightarrow> byte list \<Rightarrow> nat \<Rightarrow> ('w, nat + unit) io" where
  "send_round os s data sent =
     (if sent < length data then
        io_bind (sys_call (sys_send os s (drop sent data))) (\<lambda>(n, err).
        if n > 0 then io_return (Inl (sent + nat n))
        else if n < 0 \<and> err = EINTR then io_return (Inl sent)
        else if n < 0 \<and> (err = EAGAIN \<or> err = EWOULDBLOCK)
        then io_throw (Runtime_Error ''socket send timeout'')
        else io_throw (Runtime_Error ''socket send failed''))
      else io_return (Inr ()))"

definition send_all :: "'w posix \<Rightarrow> int \<Rightarrow> byte list \<Rightarrow> ('w, unit) io" where
  "send_all os s data = io_loop (send_round os s data) 0"

text \<open>The bytes \<open>recv\<close> writes at offset \<open>i\<close> of the buffer.\<close>

definition overwrite :: "nat \<Rightarrow> byte list \<Rightarrow> byte list \<Rightarrow> byte list" where
  "overwrite i bs out = take i out @ bs @ drop (i + length bs) out"

text \<open>One round of the loop of \<open>recv_exact\<close>: the buffer and the number of bytes received so far.\<close>

definition recv_round :: "'w posix \<Rightarrow> int \<Rightarrow> nat \<Rightarrow> byte list \<times> nat \<Rightarrow> ('w, (byte list \<times> nat) + byte list) io" where
  "recv_round os s count = (\<lambda>(out, received).
     if received < count then
       io_bind (sys_call (sys_recv os s (count - received))) (\<lambda>(n, bs, err).
       if length bs > count - received then io_outcome Undefined
       else let out = overwrite received bs out in
         if n > 0 then io_return (Inl (out, received + nat n))
         else if n = 0 then io_throw (Runtime_Error ''connection closed before frame completed'')
         else if err = EINTR then io_return (Inl (out, received))
         else if err = EAGAIN \<or> err = EWOULDBLOCK then io_throw (Runtime_Error ''socket receive timeout'')
         else io_throw (Runtime_Error ''socket receive failed''))
     else io_return (Inr out))"

definition recv_exact :: "'w posix \<Rightarrow> int \<Rightarrow> nat \<Rightarrow> ('w, byte list) io" where
  "recv_exact os s count = io_loop (recv_round os s count) (replicate count 0, 0)"

definition send_framed_json :: "'w posix \<Rightarrow> int \<Rightarrow> string \<Rightarrow> ('w, unit) io" where
  "send_framed_json os s json = io_bind (io_outcome (encode_frame json)) (send_all os s)"

definition recv_framed_json :: "'w posix \<Rightarrow> int \<Rightarrow> ('w, string) io" where
  "recv_framed_json os s =
     io_bind (recv_exact os s 4) (\<lambda>header_raw.
     let header = (header_raw ! 0, header_raw ! 1, header_raw ! 2, header_raw ! 3) in
     io_bind (io_outcome (decode_frame_size header)) (\<lambda>body_size.
     io_bind (recv_exact os s (unat body_size)) (\<lambda>body.
     io_return (string_of_bytes body))))"

section \<open>Connecting\<close>

text \<open>\<open>std::chrono::milliseconds\<close> counts in a signed 64-bit integer.\<close>

type_synonym milliseconds = int64

definition timeval_of :: "milliseconds \<Rightarrow> timeval" where
  "timeval_of timeout = \<lparr>tv_sec = sint timeout div 1000, tv_usec = (sint timeout mod 1000) * 1000\<rparr>"

definition set_socket_io_timeout :: "'w posix \<Rightarrow> int \<Rightarrow> milliseconds \<Rightarrow> ('w, unit) io" where
  "set_socket_io_timeout os s timeout =
     (if sint timeout \<le> 0 then io_throw (Invalid_Argument ''socket timeout must be positive'')
      else let tv = timeval_of timeout in
        io_bind (sys_call (sys_setsockopt os s SO_RCVTIMEO tv)) (\<lambda>r.
        if r \<noteq> 0 then io_throw (Runtime_Error ''failed to set socket receive timeout'')
        else io_bind (sys_call (sys_setsockopt os s SO_SNDTIMEO tv)) (\<lambda>r.
          if r \<noteq> 0 then io_throw (Runtime_Error ''failed to set socket send timeout'')
          else io_return ())))"

text \<open>\<open>inet_pton\<close> gets the C string of the host: it ends at the first zero byte.\<close>

definition c_str :: "string \<Rightarrow> string" where
  "c_str s = takeWhile (\<lambda>c. c \<noteq> CHR 0x00) s"

definition ipv4_address :: "'w posix \<Rightarrow> string \<Rightarrow> uint16 \<Rightarrow> sockaddr_in outcome" where
  "ipv4_address os host port =
     (let (ok, addr) = sys_inet_pton os (c_str host) in
      if ok \<noteq> 1 then Throw (Invalid_Argument ''invalid IPv4 address'')
      else Return \<lparr>sin_family = AF_INET, sin_port = [ucast (drop_bit 8 port), ucast port], sin_addr = addr\<rparr>)"

definition connect_ipv4 :: "'w posix \<Rightarrow> string \<Rightarrow> uint16 \<Rightarrow> ('w, SocketHandle) io" where
  "connect_ipv4 os host port =
     io_bind (sys_call (sys_socket os)) (\<lambda>s.
     let sock = \<lparr>fd = s\<rparr> in
     unwind_handle os sock
      (if fd sock < 0 then io_throw (Runtime_Error ''socket creation failed'')
       else io_bind (io_outcome (ipv4_address os host port)) (\<lambda>address.
         io_bind (sys_call (sys_connect os (fd sock) address)) (\<lambda>(r, err).
         if r \<noteq> 0 then io_throw (Runtime_Error ''socket connect failed'') else io_return sock))))"

text \<open>\<open>static_cast<int>(timeout.count())\<close>: the low 32 bits, read as signed.\<close>

definition poll_timeout :: "milliseconds \<Rightarrow> int" where
  "poll_timeout timeout = sint (ucast timeout :: 32 word)"

text \<open>The \<open>do ... while\<close> loop around \<open>poll\<close>.\<close>

definition poll_loop :: "'w posix \<Rightarrow> int \<Rightarrow> int \<Rightarrow> ('w, int \<times> errno) io" where
  "poll_loop os s timeout =
     io_loop (\<lambda>_. io_bind (sys_call (sys_poll_out os s timeout)) (\<lambda>(r, err).
       io_return (if r < 0 \<and> err = EINTR then Inl () else Inr (r, err)))) ()"

text \<open>The wait for a connection in progress.\<close>

definition await_connect :: "'w posix \<Rightarrow> int \<Rightarrow> milliseconds \<Rightarrow> ('w, unit) io" where
  "await_connect os s timeout =
     io_bind (poll_loop os s (poll_timeout timeout)) (\<lambda>(r, err).
     if r = 0 then io_throw (Runtime_Error ''socket connect timeout'')
     else if r < 0 then io_throw (Runtime_Error ''socket connect poll failed'')
     else io_bind (sys_call (sys_getsockopt_error os s)) (\<lambda>(r, socket_error).
       if r \<noteq> 0 then io_throw (Runtime_Error ''failed to read socket connect status'')
       else if socket_error \<noteq> 0 then io_throw (Runtime_Error ''socket connect failed'')
       else io_return ()))"

definition connect_socket :: "'w posix \<Rightarrow> int \<Rightarrow> string \<Rightarrow> uint16 \<Rightarrow> milliseconds \<Rightarrow> ('w, unit) io" where
  "connect_socket os s host port timeout =
     io_bind (sys_call (sys_fcntl_getfl os s)) (\<lambda>flags.
     if flags < 0 then io_throw (Runtime_Error ''failed to read socket flags'')
     else io_bind (sys_call (sys_fcntl_setfl os s (or flags O_NONBLOCK))) (\<lambda>r.
     if r \<noteq> 0 then io_throw (Runtime_Error ''failed to enable nonblocking connect'')
     else io_bind (io_outcome (ipv4_address os host port)) (\<lambda>address.
     io_bind (sys_call (sys_connect os s address)) (\<lambda>(connect_result, err).
     io_bind (if connect_result \<noteq> 0
              then if err \<noteq> EINPROGRESS then io_throw (Runtime_Error ''socket connect failed'')
                   else await_connect os s timeout
              else io_return ()) (\<lambda>_.
     io_bind (sys_call (sys_fcntl_setfl os s flags)) (\<lambda>r.
     if r \<noteq> 0 then io_throw (Runtime_Error ''failed to restore socket flags'')
     else io_return ()))))))"

definition connect_ipv4_with_timeout ::
    "'w posix \<Rightarrow> string \<Rightarrow> uint16 \<Rightarrow> milliseconds \<Rightarrow> ('w, SocketHandle) io" where
  "connect_ipv4_with_timeout os host port timeout =
     (if sint timeout \<le> 0 then io_throw (Invalid_Argument ''connect timeout must be positive'')
      else io_bind (sys_call (sys_socket os)) (\<lambda>s.
        let sock = \<lparr>fd = s\<rparr> in
        unwind_handle os sock
          (if fd sock < 0 then io_throw (Runtime_Error ''socket creation failed'')
           else io_bind (connect_socket os (fd sock) host port timeout) (\<lambda>_. io_return sock))))"

end
