(* ===== verification/Tcp_Stream.thy ===== *)
theory Tcp_Stream
  imports Tcp
begin

text \<open>
  Sending and receiving over a byte stream.  A view of the environment tells the bytes written to the
  socket so far (\<open>outgoing\<close>) or still to be read from it (\<open>incoming\<close>); the predicates below say that
  \<open>send\<close> and \<open>recv\<close> work on it as documented, taking or giving any number of bytes they like.  The
  progress variants say in addition that the calls come back, that the peer closes only at the end of the
  stream, and that interruptions are counted down by \<open>pending\<close>, so that they run out.
\<close>

definition stream_out :: "'w posix \<Rightarrow> int \<Rightarrow> ('w \<Rightarrow> byte list) \<Rightarrow> bool" where
  "stream_out os s outgoing \<longleftrightarrow>
     (\<forall>data w n err w'. sys_send os s data w = Some ((n, err), w') \<longrightarrow>
        (if n > 0 then nat n \<le> length data \<and> outgoing w' = outgoing w @ take (nat n) data
         else outgoing w' = outgoing w))"

definition progress_out :: "'w posix \<Rightarrow> int \<Rightarrow> ('w \<Rightarrow> nat) \<Rightarrow> bool" where
  "progress_out os s pending \<longleftrightarrow>
     (\<forall>data w. data \<noteq> [] \<longrightarrow> (\<exists>n err w'. sys_send os s data w = Some ((n, err), w') \<and>
        (n > 0 \<and> pending w' \<le> pending w \<or> n < 0 \<and> err = EINTR \<and> pending w' < pending w)))"

definition stream_in :: "'w posix \<Rightarrow> int \<Rightarrow> ('w \<Rightarrow> byte list) \<Rightarrow> bool" where
  "stream_in os s incoming \<longleftrightarrow>
     (\<forall>k w n bs err w'. sys_recv os s k w = Some ((n, bs, err), w') \<longrightarrow>
        (if n > 0 then n = int (length bs) \<and> length bs \<le> k \<and> incoming w = bs @ incoming w'
         else bs = [] \<and> incoming w' = incoming w))"

definition progress_in :: "'w posix \<Rightarrow> int \<Rightarrow> ('w \<Rightarrow> byte list) \<Rightarrow> ('w \<Rightarrow> nat) \<Rightarrow> bool" where
  "progress_in os s incoming pending \<longleftrightarrow>
     (\<forall>k w. 0 < k \<longrightarrow> (\<exists>n bs err w'. sys_recv os s k w = Some ((n, bs, err), w') \<and>
        (n > 0 \<and> pending w' \<le> pending w \<or> n = 0 \<and> incoming w = [] \<or>
         n < 0 \<and> err = EINTR \<and> pending w' < pending w)))"

section \<open>Sending\<close>

lemma io_spec_sys_call: "io_spec (sys_call f) w R \<longleftrightarrow> (\<forall>x w'. f w = Some (x, w') \<longrightarrow> R (Return x) w')"
  by (auto simp: io_spec_def sys_call_def)

lemma io_ensures_sys_call: "io_ensures (sys_call f) w R \<longleftrightarrow> (\<exists>x w'. f w = Some (x, w') \<and> R (Return x) w')"
  by (auto simp: io_ensures_def sys_call_def)

lemmas spec_simps = io_spec_bind io_spec_sys_call
lemmas ensures_simps = io_ensures_bind io_ensures_sys_call

lemma take_take_drop: "take k xs @ take n (drop k xs) = take (k + n) xs"
  by (simp add: take_add)

text \<open>While sending: the first \<open>sent\<close> bytes of the data are on the stream.\<close>

definition sending :: "('w \<Rightarrow> byte list) \<Rightarrow> byte list \<Rightarrow> byte list \<Rightarrow> nat \<Rightarrow> 'w \<Rightarrow> bool" where
  "sending outgoing before data sent w \<longleftrightarrow> sent \<le> length data \<and> outgoing w = before @ take sent data"

lemma sending_more:
  assumes "sending outgoing before data sent w" and "stream_out os s outgoing"
    and "sys_send os s (drop sent data) w = Some ((n, err), w')"
  shows "sending outgoing before data (if n > 0 then sent + nat n else sent) w'"
proof -
  have "if n > 0 then nat n \<le> length (drop sent data) \<and> outgoing w' = outgoing w @ take (nat n) (drop sent data)
      else outgoing w' = outgoing w"
    using assms(2,3) unfolding stream_out_def by blast
  then show ?thesis using assms(1) by (auto simp: sending_def take_take_drop split: if_splits)
qed

lemma send_round_spec:
  assumes "stream_out os s outgoing" and "sending outgoing before data sent w"
  shows "io_spec (send_round os s data sent) w (round_post (sending outgoing before data)
    (\<lambda>r w'. r \<noteq> Undefined \<and> (\<exists>k. sending outgoing before data k w' \<and> (r = Return () \<longrightarrow> k = length data))))"
proof (cases "sent < length data")
  case True
  show ?thesis
    using True sending_more [OF assms(2,1)]
    by (auto simp: send_round_def spec_simps split: if_splits)
next
  case False
  then show ?thesis using assms(2) by (auto simp: send_round_def sending_def)
qed

lemma send_all_spec:
  assumes "stream_out os s outgoing"
  shows "io_spec (send_all os s data) w (\<lambda>r w'. r \<noteq> Undefined \<and>
    (\<exists>k. outgoing w' = outgoing w @ take k data \<and> (r = Return () \<longrightarrow> k = length data)))"
  unfolding send_all_def
proof (rule io_spec_mono [OF io_loop_spec [where I = "sending outgoing (outgoing w) data"]])
  show "sending outgoing (outgoing w) data 0 w" by (simp add: sending_def)
qed (rule send_round_spec [OF assms], assumption, auto simp: sending_def)

lemma send_all_ensures:
  assumes "stream_out os s outgoing" and "progress_out os s pending"
  shows "io_ensures (send_all os s data) w (\<lambda>r w'. r = Return () \<and> outgoing w' = outgoing w @ data)"
  unfolding send_all_def
proof (rule io_loop_ensures [where I = "sending outgoing (outgoing w) data"
      and m = "\<lambda>sent w. length data - sent + pending w"])
  show "sending outgoing (outgoing w) data 0 w" by (simp add: sending_def)
next
  fix sent w1
  assume inv: "sending outgoing (outgoing w) data sent w1"
  show "io_ensures (send_round os s data sent) w1 (round_post
      (\<lambda>s' w'. sending outgoing (outgoing w) data s' w' \<and>
         length data - s' + pending w' < length data - sent + pending w1)
      (\<lambda>r w'. r = Return () \<and> outgoing w' = outgoing w @ data))"
  proof (cases "sent < length data")
    case True
    then obtain n err w2 where call: "sys_send os s (drop sent data) w1 = Some ((n, err), w2)"
      and alt: "n > 0 \<and> pending w2 \<le> pending w1 \<or> n < 0 \<and> err = EINTR \<and> pending w2 < pending w1"
      using assms(2) [unfolded progress_out_def, rule_format, of "drop sent data" w1] by auto
    then show ?thesis
      using True sending_more [OF inv assms(1) call]
      by (auto simp: send_round_def ensures_simps sending_def)
  next
    case False
    then show ?thesis using inv by (auto simp: send_round_def sending_def)
  qed
qed

section \<open>Receiving\<close>

lemma length_overwrite: "i + length bs \<le> length out \<Longrightarrow> length (overwrite i bs out) = length out"
  by (simp add: overwrite_def)

lemma take_overwrite: "i + length bs \<le> length out \<Longrightarrow> take (i + length bs) (overwrite i bs out) = take i out @ bs"
  by (auto simp: overwrite_def)

lemma overwrite_Nil [simp]: "overwrite i [] out = out"
  by (simp add: overwrite_def)

text \<open>While receiving: the first bytes of the buffer and the bytes still to come make up the stream.\<close>

definition receiving :: "('w \<Rightarrow> byte list) \<Rightarrow> byte list \<Rightarrow> nat \<Rightarrow> byte list \<times> nat \<Rightarrow> 'w \<Rightarrow> bool" where
  "receiving incoming stream count = (\<lambda>(out, received) w.
     length out = count \<and> received \<le> count \<and> take received out @ incoming w = stream)"

lemma receiving_more:
  assumes "receiving incoming stream count (out, received) w" and "stream_in os s incoming"
    and "sys_recv os s (count - received) w = Some ((n, bs, err), w')"
  shows "length bs \<le> count - received \<and>
    receiving incoming stream count (overwrite received bs out, if n > 0 then received + nat n else received) w'"
proof -
  have "if n > 0 then n = int (length bs) \<and> length bs \<le> count - received \<and> incoming w = bs @ incoming w'
      else bs = [] \<and> incoming w' = incoming w"
    using assms(2,3) unfolding stream_in_def by blast
  then show ?thesis
    using assms(1) by (auto simp: receiving_def length_overwrite take_overwrite split: if_splits)
qed

lemma recv_round_spec:
  assumes "stream_in os s incoming" and "receiving incoming stream count v w"
  shows "io_spec (recv_round os s count v) w (round_post (receiving incoming stream count)
    (\<lambda>r w'. r \<noteq> Undefined \<and> (\<exists>bs. stream = bs @ incoming w' \<and> length bs \<le> count \<and>
       (\<forall>out. r = Return out \<longrightarrow> bs = out \<and> length out = count))))"
proof -
  obtain out received where v: "v = (out, received)" by (cases v)
  note inv = assms(2) [unfolded v]
  have stop: "\<exists>bs. stream = bs @ incoming w' \<and> length bs \<le> count"
    if "receiving incoming stream count v' w'" for v' w'
    using that by (cases v') (auto simp: receiving_def intro!: exI [of _ "take (snd v') (fst v')"])
  show ?thesis
  proof (cases "received < count")
    case True
    then show ?thesis
      using receiving_more [OF inv assms(1)] stop
      by (auto simp: v recv_round_def spec_simps Let_def split: if_splits) fastforce?
  next
    case False
    then show ?thesis using inv by (auto simp: v recv_round_def receiving_def)
  qed
qed

lemma receiving_start: "receiving incoming (incoming w) count (replicate count 0, 0) w"
  by (simp add: receiving_def)

lemma recv_exact_spec:
  assumes "stream_in os s incoming"
  shows "io_spec (recv_exact os s count) w (\<lambda>r w'. r \<noteq> Undefined \<and>
    (\<exists>bs. incoming w = bs @ incoming w' \<and> length bs \<le> count \<and>
       (\<forall>out. r = Return out \<longrightarrow> bs = out \<and> length out = count)))"
  unfolding recv_exact_def
  using receiving_start recv_round_spec [OF assms] by (rule io_loop_spec)

text \<open>The receiver as a function of the stream: the next bytes, or the end of the stream before them.\<close>

definition take_exact :: "nat \<Rightarrow> byte list \<Rightarrow> (byte list \<times> byte list) outcome" where
  "take_exact k stream =
     (if k \<le> length stream then Return (take k stream, drop k stream)
      else Throw (Runtime_Error ''connection closed before frame completed''))"

text \<open>A call that has computed \<open>x\<close> from the stream and left the rest of it.\<close>

definition consumed :: "('w \<Rightarrow> byte list) \<Rightarrow> ('a \<times> byte list) outcome \<Rightarrow> 'a outcome \<Rightarrow> 'w \<Rightarrow> bool" where
  "consumed incoming x r w \<longleftrightarrow>
     r = map_outcome fst x \<and> (\<forall>y rest. x = Return (y, rest) \<longrightarrow> incoming w = rest)"

lemma recv_round_ensures:
  assumes "stream_in os s incoming" and "progress_in os s incoming pending"
    and inv: "receiving incoming stream count (out, received) w"
  shows "io_ensures (recv_round os s count (out, received)) w (round_post
    (\<lambda>v' w'. receiving incoming stream count v' w' \<and>
       count - snd v' + pending w' < count - received + pending w)
    (consumed incoming (take_exact count stream)))"
proof (cases "received < count")
  case True
  then obtain n bs err w2 where call: "sys_recv os s (count - received) w = Some ((n, bs, err), w2)"
    and alt: "n > 0 \<and> pending w2 \<le> pending w \<or> n = 0 \<and> incoming w = [] \<or>
      n < 0 \<and> err = EINTR \<and> pending w2 < pending w"
    using assms(2) [unfolded progress_in_def, rule_format, of "count - received" w] by auto
  have more: "length bs \<le> count - received"
    "receiving incoming stream count (overwrite received bs out, if n > 0 then received + nat n else received) w2"
    using receiving_more [OF inv assms(1) call] by auto
  have "length stream < count" if "incoming w = []" using inv that True by (auto simp: receiving_def)
  then show ?thesis
    using True call alt more
    by (auto simp: recv_round_def ensures_simps Let_def consumed_def take_exact_def receiving_def split: if_splits)
next
  case False
  then show ?thesis
    using inv by (auto simp: recv_round_def consumed_def take_exact_def receiving_def)
qed

lemma recv_exact_ensures:
  assumes "stream_in os s incoming" and "progress_in os s incoming pending"
  shows "io_ensures (recv_exact os s count) w (consumed incoming (take_exact count (incoming w)))"
  unfolding recv_exact_def
proof (rule io_loop_ensures [where I = "receiving incoming (incoming w) count"
      and m = "\<lambda>v w. count - snd v + pending w"])
  fix v w1
  assume "receiving incoming (incoming w) count v w1"
  then show "io_ensures (recv_round os s count v) w1 (round_post
      (\<lambda>v' w'. receiving incoming (incoming w) count v' w' \<and> count - snd v' + pending w' < count - snd v + pending w1)
      (consumed incoming (take_exact count (incoming w))))"
    using recv_round_ensures [OF assms] by (cases v) simp
qed (rule receiving_start)

section \<open>Framed messages\<close>

text \<open>The socket reader takes a frame from the stream as \<open>take_frame\<close> specifies.\<close>

lemma take_exact_4: "take_exact 4 s = Return (h, t) \<Longrightarrow>
    take_frame s = bind (decode_frame_size (h ! 0, h ! 1, h ! 2, h ! 3)) (\<lambda>n.
      bind (take_exact (unat n) t) (\<lambda>(b, rest). Return (string_of_bytes b, rest)))"
  by (cases s rule: take_frame.cases)
    (auto simp: take_exact_def numeral_2_eq_2 numeral_3_eq_3 not_le split: if_splits intro!: bind_cong)

lemma take_exact_4_short: "take_exact 4 s = Throw e \<Longrightarrow> take_frame s = Throw e"
  by (cases s rule: take_frame.cases) (auto simp: take_exact_def split: if_splits)

lemma ensures_bind_consumed:
  assumes "io_ensures m w (consumed incoming x)"
    and "\<And>y rest w1. x = Return (y, rest) \<Longrightarrow> incoming w1 = rest \<Longrightarrow> io_ensures (f y) w1 R"
    and "\<And>e w1. x = Throw e \<Longrightarrow> R (Throw e) w1" and "x \<noteq> Undefined"
  shows "io_ensures (io_bind m f) w R"
  unfolding io_ensures_bind using assms(1)
  by (rule io_ensures_mono) (use assms(2-4) in \<open>auto simp: consumed_def split: outcome.splits\<close>)

lemma recv_framed_json_ensures:
  assumes "stream_in os s incoming" and "progress_in os s incoming pending"
  shows "io_ensures (recv_framed_json os s) w (consumed incoming (take_frame (incoming w)))"
  unfolding recv_framed_json_def Let_def
proof (rule ensures_bind_consumed [OF recv_exact_ensures [OF assms]])
  fix h t w1
  assume h: "take_exact 4 (incoming w) = Return (h, t)" and t: "incoming w1 = t"
  note frame = take_exact_4 [OF h]
  show "io_ensures (io_bind (io_outcome (decode_frame_size (h ! 0, h ! 1, h ! 2, h ! 3))) (\<lambda>n.
      io_bind (recv_exact os s (unat n)) (\<lambda>b. io_return (string_of_bytes b)))) w1
      (consumed incoming (take_frame (incoming w)))"
  proof (cases "decode_frame_size (h ! 0, h ! 1, h ! 2, h ! 3)")
    case (Return n)
    show ?thesis unfolding Return io_bind_outcome frame
      by (rule ensures_bind_consumed [OF recv_exact_ensures [OF assms]])
        (auto simp: t consumed_def take_exact_def split: if_splits)
  qed (simp_all add: frame consumed_def)
next
  fix e w1
  assume "take_exact 4 (incoming w) = Throw e"
  then show "consumed incoming (take_frame (incoming w)) (Throw e) w1"
    by (simp add: take_exact_4_short consumed_def)
qed (simp add: take_exact_def)

lemma frame_of_parts:
  assumes "length h = 4" and "decode_frame_size (h ! 0, h ! 1, h ! 2, h ! 3) = Return n" and "length b = unat n"
  shows "encode_frame (string_of_bytes b) = Return (h @ b)"
proof -
  have "take_exact 4 (h @ b) = Return (h, b)" using assms(1) by (simp add: take_exact_def)
  then have "take_frame (h @ b) = Return (string_of_bytes b, [])"
    using assms(2,3) by (simp add: take_exact_4 take_exact_def)
  then show ?thesis using take_frame_sound by fastforce
qed

lemma recv_body_spec:
  assumes "stream_in os s incoming" and "length h = 4"
    and "decode_frame_size (h ! 0, h ! 1, h ! 2, h ! 3) = Return n"
  shows "io_spec (io_bind (recv_exact os s (unat n)) (\<lambda>b. io_return (string_of_bytes b))) w
    (\<lambda>r w'. r \<noteq> Undefined \<and> (\<exists>bs. incoming w = bs @ incoming w' \<and> length bs \<le> kMaxFrameBytes \<and>
       (\<forall>json. r = Return json \<longrightarrow> encode_frame json = Return (h @ bs))))"
proof -
  have n: "unat n \<le> kMaxFrameBytes" using assms(3) unfolding decode_frame_size_eq_Return by blast
  show ?thesis unfolding io_spec_bind
    using recv_exact_spec [OF assms(1)]
    by (rule io_spec_mono) (use n frame_of_parts [OF assms(2,3)] in \<open>auto split: outcome.splits\<close>)
qed

lemma recv_framed_json_spec:
  assumes "stream_in os s incoming"
  shows "io_spec (recv_framed_json os s) w (\<lambda>r w'. r \<noteq> Undefined \<and>
    (\<exists>bs. incoming w = bs @ incoming w' \<and> length bs \<le> 4 + kMaxFrameBytes \<and>
       (\<forall>json. r = Return json \<longrightarrow> encode_frame json = Return bs)))"
  unfolding recv_framed_json_def Let_def io_spec_bind [of "recv_exact os s 4"]
  using recv_exact_spec [OF assms]
proof (rule io_spec_mono)
  let ?R = "\<lambda>r w'. r \<noteq> Undefined \<and> (\<exists>bs. incoming w = bs @ incoming w' \<and> length bs \<le> 4 + kMaxFrameBytes \<and>
    (\<forall>json. r = Return json \<longrightarrow> encode_frame json = Return bs))"
  fix r w1
  assume r: "r \<noteq> Undefined \<and> (\<exists>bs. incoming w = bs @ incoming w1 \<and> length bs \<le> 4 \<and>
    (\<forall>out. r = Return out \<longrightarrow> bs = out \<and> length out = 4))"
  have "io_spec (io_bind (io_outcome (decode_frame_size (h ! 0, h ! 1, h ! 2, h ! 3))) (\<lambda>n.
      io_bind (recv_exact os s (unat n)) (\<lambda>b. io_return (string_of_bytes b)))) w1 ?R"
    if "r = Return h" for h
  proof -
    have h: "length h = 4" "incoming w = h @ incoming w1" using r that by auto
    show ?thesis
    proof (cases "decode_frame_size (h ! 0, h ! 1, h ! 2, h ! 3)")
      case (Return n)
      show ?thesis unfolding Return io_bind_outcome
        using recv_body_spec [OF assms h(1) Return]
      proof (rule io_spec_mono)
        fix r w2
        assume "r \<noteq> Undefined \<and> (\<exists>bs. incoming w1 = bs @ incoming w2 \<and> length bs \<le> kMaxFrameBytes \<and>
          (\<forall>json. r = Return json \<longrightarrow> encode_frame json = Return (h @ bs)))"
        then obtain bs where "r \<noteq> Undefined" "incoming w1 = bs @ incoming w2" "length bs \<le> kMaxFrameBytes"
          "\<forall>json. r = Return json \<longrightarrow> encode_frame json = Return (h @ bs)" by blast
        then show "?R r w2" using h by (intro conjI exI [of _ "h @ bs"]) auto
      qed
    next
      case (Throw e)
      then show ?thesis using h by (auto intro!: exI [of _ h])
    qed (simp add: decode_frame_size_defined)
  qed
  then show "case r of Return h \<Rightarrow> io_spec (io_bind (io_outcome (decode_frame_size (h ! 0, h ! 1, h ! 2, h ! 3))) (\<lambda>n.
      io_bind (recv_exact os s (unat n)) (\<lambda>b. io_return (string_of_bytes b)))) w1 ?R
    | Throw e \<Rightarrow> ?R (Throw e) w1 | Undefined \<Rightarrow> ?R Undefined w1"
    using r by (auto split: outcome.splits)
qed

end
