(* ===== verification/Tcp_Properties.thy ===== *)
theory Tcp_Properties
  imports Tcp_Stream
begin

text \<open>
  What the socket layer promises: whole messages or an exception, whatever the fragmentation; bounded
  reads; deadlines that mean what they say (and where they do not); and no descriptor left open.
\<close>

section \<open>A sample operating system\<close>

text \<open>
  An executable instance of the system calls, used to show that the assumptions are consistent: it moves one
  byte per call, after a number of interruptions, and has a single free descriptor.
\<close>

record net =
  net_out :: "byte list"
  net_in :: "byte list"
  net_pending :: nat
  net_open :: "int set"

definition sample_os :: "net posix" where
  "sample_os = \<lparr>
     sys_send = (\<lambda>s data w.
       if net_pending w > 0 then Some ((- 1, EINTR), w\<lparr>net_pending := net_pending w - 1\<rparr>)
       else if data = [] then Some ((0, EOTHER 0), w)
       else Some ((1, EOTHER 0), w\<lparr>net_out := net_out w @ take 1 data\<rparr>)),
     sys_recv = (\<lambda>s k w.
       if net_pending w > 0 then Some ((- 1, [], EINTR), w\<lparr>net_pending := net_pending w - 1\<rparr>)
       else if k = 0 \<or> net_in w = [] then Some ((0, [], EOTHER 0), w)
       else Some ((1, [hd (net_in w)], EOTHER 0), w\<lparr>net_in := tl (net_in w)\<rparr>)),
     sys_setsockopt = (\<lambda>s opt tv w. Some (0, w)),
     sys_inet_pton = (\<lambda>host. (1, [127, 0, 0, 1])),
     sys_socket = (\<lambda>w. if 7 \<in> net_open w then Some (- 1, w) else Some (7, w\<lparr>net_open := insert 7 (net_open w)\<rparr>)),
     sys_connect = (\<lambda>s address w. Some ((- 1, EINPROGRESS), w)),
     sys_fcntl_getfl = (\<lambda>s w. Some (2, w)),
     sys_fcntl_setfl = (\<lambda>s flags w. Some (0, w)),
     sys_poll_out = (\<lambda>s timeout w. Some ((0, EOTHER 0), w)),
     sys_getsockopt_error = (\<lambda>s w. Some ((0, 0), w)),
     sys_close = (\<lambda>s w. w\<lparr>net_open := net_open w - {s}\<rparr>)\<rparr>"

lemma sample_os_out: "stream_out sample_os s net_out" "progress_out sample_os s net_pending"
  by (auto simp: stream_out_def progress_out_def sample_os_def Suc_le_eq)

lemma sample_os_in: "stream_in sample_os s net_in" "progress_in sample_os s net_in net_pending"
  by (auto simp: stream_in_def progress_in_def sample_os_def)

definition sample_net :: "byte list \<Rightarrow> net" where
  "sample_net bs = \<lparr>net_out = [], net_in = bs, net_pending = 3, net_open = {}\<rparr>"

section \<open>Messages\<close>

text \<open>
  Claim C13. A message of one byte to one MiB is delivered whole, whatever sizes the kernel splits it into on
  either side and however often the calls are interrupted: the sender puts some bytes on the stream,
  and a receiver whose stream starts with these bytes gets the message and leaves exactly what follows
  it, so that messages on one connection do not run into each other.
\<close>

theorem framed_message_delivered:
  assumes "stream_out os s outgoing" and "progress_out os s pending"
    and "stream_in os' s' incoming" and "progress_in os' s' incoming pending'"
    and "json \<noteq> []" and "length json \<le> 1048576"
  shows "\<exists>bs w'. send_framed_json os s json w = Some (Return (), w') \<and> outgoing w' = outgoing w @ bs \<and>
    (\<forall>v rest. incoming v = bs @ rest \<longrightarrow>
       (\<exists>v'. recv_framed_json os' s' v = Some (Return json, v') \<and> incoming v' = rest))"
proof -
  obtain bs where bs: "encode_frame json = Return bs"
    using assms(5,6) by (simp add: encode_frame_def Let_def kMaxFrameBytes_def)
  obtain w' where "send_framed_json os s json w = Some (Return (), w')" "outgoing w' = outgoing w @ bs"
    using send_all_ensures [OF assms(1,2), of bs w] by (auto simp: send_framed_json_def bs io_ensures_def)
  moreover have "\<exists>v'. recv_framed_json os' s' v = Some (Return json, v') \<and> incoming v' = rest"
    if "incoming v = bs @ rest" for v rest
    using recv_framed_json_ensures [OF assms(3,4), of v] take_frame_encode [OF bs] that
    by (auto simp: io_ensures_def consumed_def)
  ultimately show ?thesis by blast
qed

theorem framed_message_delivered_witness:
  "\<exists>bs w'. send_framed_json sample_os 7 ''hi'' (sample_net []) = Some (Return (), w') \<and> net_out w' = bs \<and>
     (\<exists>v'. recv_framed_json sample_os 7 (sample_net (bs @ [1, 2])) = Some (Return ''hi'', v') \<and> net_in v' = [1, 2])"
proof -
  have o: "stream_out sample_os 7 net_out" "progress_out sample_os 7 net_pending"
    "stream_in sample_os 7 net_in" "progress_in sample_os 7 net_in net_pending"
    by (rule sample_os_out sample_os_in)+
  obtain bs w' where "send_framed_json sample_os 7 ''hi'' (sample_net []) = Some (Return (), w')"
      "net_out w' = net_out (sample_net []) @ bs"
      "\<forall>v rest. net_in v = bs @ rest \<longrightarrow>
         (\<exists>v'. recv_framed_json sample_os 7 v = Some (Return ''hi'', v') \<and> net_in v' = rest)"
    using framed_message_delivered [OF o, of "''hi''" "sample_net []"] by auto
  then show ?thesis by (auto simp: sample_net_def)
qed

text \<open>
  Claim C16. The socket reader refines the decoder of byte streams: it comes back with the message that starts
  the stream, or with the decoder's exception (an empty or oversized size, or the end of the stream
  within the frame), and after a message it has consumed exactly its frame.
\<close>

theorem recv_framed_json_refines:
  assumes "stream_in os s incoming" and "progress_in os s incoming pending"
  shows "\<exists>w'. recv_framed_json os s w = Some (map_outcome fst (take_frame (incoming w)), w') \<and>
    (\<forall>json rest. take_frame (incoming w) = Return (json, rest) \<longrightarrow> incoming w' = rest)"
  using recv_framed_json_ensures [OF assms, of w] by (auto simp: io_ensures_def consumed_def)

theorem recv_framed_json_refines_witness:
  "\<exists>w'. recv_framed_json sample_os 7 (sample_net [0, 16, 0, 1, 65]) =
     Some (Throw (Length_Error ''frame too large''), w')"
proof -
  have "take_frame [0, 16, 0, 1, 65] = Throw (Length_Error ''frame too large'')"
    by (simp add: decode_frame_size_def header_word.simps kMaxFrameBytes_def Let_def)
  then show ?thesis
    using recv_framed_json_refines [OF sample_os_in, of 7 "sample_net [0, 16, 0, 1, 65]"]
    by (simp add: sample_net_def)
qed

text \<open>
  Claim C31. Whatever a socket delivers, with whatever errors, a receive never reads more than four bytes and
  one MiB, never writes beyond its buffer, and when it returns a message, the bytes it has read are
  exactly the frame of that message.
\<close>

theorem recv_framed_json_bounded:
  assumes "stream_in os s incoming" and "recv_framed_json os s w = Some (r, w')"
  shows "r \<noteq> Undefined \<and> (\<exists>bs. incoming w = bs @ incoming w' \<and> length bs \<le> 4 + 1048576 \<and>
    (\<forall>json. r = Return json \<longrightarrow> encode_frame json = Return bs))"
  using io_specD [OF recv_framed_json_spec [OF assms(1)] assms(2)] by (simp add: kMaxFrameBytes_def)

theorem recv_framed_json_bounded_witness:
  "\<exists>r w'. recv_framed_json sample_os 7 (sample_net [9]) = Some (r, w') \<and> r \<noteq> Undefined \<and>
     (\<exists>bs. [9] = bs @ net_in w')"
proof -
  obtain r w' where run: "recv_framed_json sample_os 7 (sample_net [9]) = Some (r, w')"
    using recv_framed_json_ensures [OF sample_os_in, of 7 "sample_net [9]"] by (auto simp: io_ensures_def)
  then show ?thesis
    using recv_framed_json_bounded [OF sample_os_in(1) run] by (auto simp: sample_net_def)
qed

section \<open>Timeouts\<close>

text \<open>
  The socket timeouts are set to exactly the requested time: the \<open>timeval\<close> is normalised (less than a
  million microseconds), stands for the requested number of milliseconds, and is never the zero that
  would switch the timeout off.
\<close>

lemma timeval_of_exact:
  assumes "0 < sint timeout"
  shows "0 \<le> tv_usec (timeval_of timeout) \<and> tv_usec (timeval_of timeout) < 1000000 \<and>
    tv_sec (timeval_of timeout) * 1000000 + tv_usec (timeval_of timeout) = sint timeout * 1000 \<and>
    (0 < tv_sec (timeval_of timeout) \<or> 0 < tv_usec (timeval_of timeout))"
proof -
  define q m where "q = sint timeout div 1000" and "m = sint timeout mod 1000"
  have "sint timeout = q * 1000 + m" "0 \<le> m" "m < 1000" "0 \<le> q"
    using assms by (simp_all add: q_def m_def pos_imp_zdiv_nonneg_iff)
  moreover have "timeval_of timeout = \<lparr>tv_sec = q, tv_usec = m * 1000\<rparr>"
    by (simp add: timeval_of_def q_def m_def)
  ultimately show ?thesis using assms by auto
qed

lemma poll_timeout_small:
  assumes "0 < sint timeout" and "sint timeout < 2 ^ 31"
  shows "poll_timeout timeout = sint timeout"
proof -
  have "(ucast timeout :: 32 word) = word_of_int (sint timeout)"
    by (rule bit_word_eqI) (simp add: bit_unsigned_iff bit_signed_iff min_def)
  moreover have "sint (word_of_int i :: 32 word) = i" if "0 < i" "i < 2 ^ 31" for i
    using that by (simp add: signed_of_int signed_take_bit_int_eq_self)
  ultimately show ?thesis using assms by (simp only: poll_timeout_def)
qed

lemma poll_timeout_less: "poll_timeout timeout < 2 ^ 31"
  using sint_less [of "ucast timeout :: 32 word"] by (simp add: poll_timeout_def)

text \<open>
  Claim C40. The connect deadline given to \<open>poll\<close> is the requested one exactly as long as it fits 31 bits.  A
  longer one is cut to its low 32 bits: \<open>2 ^ 31\<close> milliseconds (about 25 days) become a negative number,
  for which \<open>poll\<close> waits without limit, and \<open>2 ^ 32\<close> become 0, an immediate timeout.
\<close>

theorem poll_timeout_exact:
  assumes "0 < sint timeout"
  shows "(poll_timeout timeout = sint timeout \<longleftrightarrow> sint timeout < 2 ^ 31) \<and>
    poll_timeout (2 ^ 31) = - (2 ^ 31) \<and> poll_timeout (2 ^ 32) = 0"
proof (intro conjI)
  show "poll_timeout timeout = sint timeout \<longleftrightarrow> sint timeout < 2 ^ 31"
    using assms poll_timeout_small poll_timeout_less by metis
qed (simp_all add: poll_timeout_def)

theorem poll_timeout_exact_witness: "poll_timeout 1500 = 1500 \<and> poll_timeout (2 ^ 31) = - (2 ^ 31)"
  using poll_timeout_exact [of 1500] by simp

section \<open>Descriptors\<close>

text \<open>
  A view \<open>opened\<close> of the descriptors the process holds: \<open>socket\<close> adds a new one, \<open>close\<close> takes one away, and
  no other call changes them.
\<close>

definition tracks :: "'w posix \<Rightarrow> ('w \<Rightarrow> int set) \<Rightarrow> bool" where
  "tracks os opened \<longleftrightarrow>
     (\<forall>w s w'. sys_socket os w = Some (s, w') \<longrightarrow>
        (if s \<ge> 0 then s \<notin> opened w \<and> opened w' = insert s (opened w) else opened w' = opened w)) \<and>
     (\<forall>s w. opened (sys_close os s w) = opened w - {s}) \<and>
     (\<forall>s data. keeps opened (sys_call (sys_send os s data))) \<and>
     (\<forall>s k. keeps opened (sys_call (sys_recv os s k))) \<and>
     (\<forall>s opt tv. keeps opened (sys_call (sys_setsockopt os s opt tv))) \<and>
     (\<forall>s a. keeps opened (sys_call (sys_connect os s a))) \<and>
     (\<forall>s. keeps opened (sys_call (sys_fcntl_getfl os s))) \<and>
     (\<forall>s f. keeps opened (sys_call (sys_fcntl_setfl os s f))) \<and>
     (\<forall>s t. keeps opened (sys_call (sys_poll_out os s t))) \<and>
     (\<forall>s. keeps opened (sys_call (sys_getsockopt_error os s)))"

lemma keeps_sys_call: "(\<And>w x w'. f w = Some (x, w') \<Longrightarrow> view w' = view w) \<Longrightarrow> keeps view (sys_call f)"
  by (auto simp: keeps_def sys_call_def)

lemma tracks_socket:
  "tracks os opened \<Longrightarrow> sys_socket os w = Some (s, w') \<Longrightarrow>
     if s \<ge> 0 then s \<notin> opened w \<and> opened w' = insert s (opened w) else opened w' = opened w"
  unfolding tracks_def by (drule conjunct1) simp

lemma tracks_close: "tracks os opened \<Longrightarrow> opened (sys_close os s w) = opened w - {s}"
  unfolding tracks_def by (drule conjunct2, drule conjunct1) simp

lemma tracks_keeps:
  assumes "tracks os opened"
  shows "keeps opened (sys_call (sys_send os s data))" "keeps opened (sys_call (sys_recv os s k))"
    "keeps opened (sys_call (sys_setsockopt os s opt tv))" "keeps opened (sys_call (sys_connect os s a))"
    "keeps opened (sys_call (sys_fcntl_getfl os s))" "keeps opened (sys_call (sys_fcntl_setfl os s f))"
    "keeps opened (sys_call (sys_poll_out os s t))" "keeps opened (sys_call (sys_getsockopt_error os s))"
  using assms unfolding tracks_def by simp_all

lemma io_calls_keep:
  assumes "tracks os opened"
  shows "keeps opened (send_framed_json os s json)" "keeps opened (recv_framed_json os s)"
    "keeps opened (set_socket_io_timeout os s timeout)"
  unfolding send_framed_json_def send_all_def send_round_def recv_framed_json_def recv_exact_def recv_round_def
    set_socket_io_timeout_def
  by (intro keeps_intros tracks_keeps [OF assms])+

lemma connect_socket_keeps:
  assumes "tracks os opened"
  shows "keeps opened (connect_socket os s host port timeout)"
  unfolding connect_socket_def await_connect_def poll_loop_def
  by (intro keeps_intros tracks_keeps [OF assms])+

lemma io_spec_unwind:
  "io_spec (unwind_handle os h m) w R \<longleftrightarrow>
     io_spec m w (\<lambda>r w'. case r of Throw e \<Rightarrow> R (Throw e) (SocketHandle_destroy os h w') | _ \<Rightarrow> R r w')"
  unfolding io_spec_def unwind_handle_def by (auto split: option.splits outcome.splits prod.splits)

lemma io_spec_scoped:
  "io_spec (scoped_handle os h m) w R \<longleftrightarrow>
     io_spec m w (\<lambda>r w'. case r of Undefined \<Rightarrow> R Undefined w' | _ \<Rightarrow> R r (SocketHandle_destroy os h w'))"
  unfolding io_spec_def scoped_handle_def unwind_handle_def
  by (auto split: option.splits outcome.splits prod.splits)

lemma connect_unwind_spec:
  assumes "tracks os opened" and "keeps opened m" and "sys_socket os w = Some (s, w1)"
  shows "io_spec (unwind_handle os \<lparr>fd = s\<rparr> (if s < 0 then io_throw err
      else io_bind m (\<lambda>_. io_return \<lparr>fd = s\<rparr>))) w1 (\<lambda>r w'.
    case r of Return h \<Rightarrow> 0 \<le> fd h \<and> fd h \<notin> opened w \<and> opened w' = insert (fd h) (opened w)
    | Throw e \<Rightarrow> opened w' = opened w | Undefined \<Rightarrow> True)"
proof -
  note s = tracks_socket [OF assms(1,3)] and c = tracks_close [OF assms(1)]
  show ?thesis
  proof (cases "s < 0")
    case True
    then show ?thesis using s by (simp add: io_spec_unwind SocketHandle_destroy_def)
  next
    case False
    then show ?thesis
      using s c keeps_spec [OF assms(2), of w1]
      by (auto simp: io_spec_unwind io_spec_bind SocketHandle_destroy_def split: outcome.splits elim!: io_spec_mono)
  qed
qed

lemma connect_spec:
  assumes "tracks os opened"
  shows "io_spec (connect_ipv4_with_timeout os host port timeout) w (\<lambda>r w'.
    case r of Return h \<Rightarrow> 0 \<le> fd h \<and> fd h \<notin> opened w \<and> opened w' = insert (fd h) (opened w)
    | Throw e \<Rightarrow> opened w' = opened w | Undefined \<Rightarrow> True)"
  using connect_unwind_spec [OF assms connect_socket_keeps [OF assms]]
  by (auto simp: connect_ipv4_with_timeout_def spec_simps Let_def)

lemma ipv4_address_defined: "ipv4_address os host port \<noteq> Undefined"
  by (auto simp: ipv4_address_def split: prod.splits)

text \<open>
  Connecting leaks no descriptor: when it returns a handle, the process holds exactly one new
  descriptor, the one of the handle; when it throws, after whichever step, it holds what it held before.
\<close>

theorem connect_leaks_nothing:
  assumes "tracks os opened" and "connect_ipv4_with_timeout os host port timeout w = Some (r, w')"
  shows "(\<forall>h. r = Return h \<longrightarrow> 0 \<le> fd h \<and> fd h \<notin> opened w \<and> opened w' = insert (fd h) (opened w)) \<and>
    (\<forall>e. r = Throw e \<longrightarrow> opened w' = opened w)"
  using io_specD [OF connect_spec [OF assms(1)] assms(2)] by (auto split: outcome.splits)

lemma sample_os_tracks: "tracks sample_os net_open"
  by (auto simp: tracks_def sample_os_def intro!: keeps_sys_call split: if_splits)

theorem connect_leaks_nothing_witness:
  "\<exists>w'. connect_ipv4_with_timeout sample_os ''127.0.0.1'' 9 1500 (sample_net [])
      = Some (Throw (Runtime_Error ''socket connect timeout''), w') \<and> net_open w' = {}"
proof -
  obtain w' where "connect_ipv4_with_timeout sample_os ''127.0.0.1'' 9 1500 (sample_net [])
      = Some (Throw (Runtime_Error ''socket connect timeout''), w')"
    by (simp add: connect_ipv4_with_timeout_def connect_socket_def await_connect_def poll_loop_def
        io_loop.simps sys_call_def io_bind_def unwind_handle_def ipv4_address_def sample_os_def sample_net_def)
  then show ?thesis using connect_leaks_nothing [OF sample_os_tracks] by (fastforce simp: sample_net_def)
qed

end
