(* ===== verification/Handles.thy ===== *)
theory Handles
  imports Tcp_Properties
begin

text \<open>
  The ownership of descriptors.  A process holds \<open>SocketHandle\<close> objects at addresses; it connects, moves and
  assigns handles, uses them and lets them go out of scope, in any order.  The step relation runs the
  operations of \<open>tcp.hpp\<close> on this store.
\<close>

record 'w process =
  objects :: "nat \<rightharpoonup> SocketHandle"
  world :: 'w

inductive handle_step :: "'w posix \<Rightarrow> 'w process \<Rightarrow> 'w process \<Rightarrow> bool" for os where
  step_default: "objects p a = None \<Longrightarrow> handle_step os p (p\<lparr>objects := (objects p)(a \<mapsto> SocketHandle_empty)\<rparr>)"
| step_connect: "objects p a = None \<Longrightarrow>
    connect_ipv4_with_timeout os addr num timeout (world p) = Some (Return h, w') \<or>
    connect_ipv4 os addr num (world p) = Some (Return h, w') \<Longrightarrow>
    handle_step os p \<lparr>objects = (objects p)(a \<mapsto> h), world = w'\<rparr>"
| step_connect_failed: "connect_ipv4_with_timeout os addr num timeout (world p) = Some (Throw e, w') \<or>
    connect_ipv4 os addr num (world p) = Some (Throw e, w') \<Longrightarrow>
    handle_step os p (p\<lparr>world := w'\<rparr>)"
| step_move: "objects p a = Some h \<Longrightarrow> objects p b = None \<Longrightarrow> SocketHandle_move h = (new, old) \<Longrightarrow>
    handle_step os p (p\<lparr>objects := (objects p)(a \<mapsto> old, b \<mapsto> new)\<rparr>)"
| step_assign: "objects p a = Some this \<Longrightarrow> objects p b = Some other \<Longrightarrow>
    SocketHandle_assign os (a = b) this other (world p) = (this', other', w') \<Longrightarrow>
    handle_step os p \<lparr>objects = (objects p)(b \<mapsto> other', a \<mapsto> this'), world = w'\<rparr>"
| step_use: "objects p a = Some h \<Longrightarrow>
    send_framed_json os (fd h) json (world p) = Some (r, w') \<or> recv_framed_json os (fd h) (world p) = Some (r', w') \<or>
    set_socket_io_timeout os (fd h) timeout (world p) = Some (r, w') \<Longrightarrow>
    handle_step os p (p\<lparr>world := w'\<rparr>)"
| step_destroy: "objects p a = Some h \<Longrightarrow>
    handle_step os p \<lparr>objects = (objects p)(a := None), world = SocketHandle_destroy os h (world p)\<rparr>"

inductive_cases handle_stepE: "handle_step os p p'"

text \<open>The object at \<open>a\<close> holds the descriptor \<open>s\<close>.\<close>

definition holds :: "(nat \<rightharpoonup> SocketHandle) \<Rightarrow> nat \<Rightarrow> int \<Rightarrow> bool" where
  "holds objs a s \<longleftrightarrow> 0 \<le> s \<and> (\<exists>h. objs a = Some h \<and> fd h = s)"

lemma holds_update [simp]:
  "holds (objs(a \<mapsto> h)) b s \<longleftrightarrow> (if b = a then 0 \<le> s \<and> fd h = s else holds objs b s)"
  "holds (objs(a := None)) b s \<longleftrightarrow> b \<noteq> a \<and> holds objs b s"
  "\<not> holds Map.empty b s"
  by (auto simp: holds_def)

lemma holds_at: "objs a = Some h \<Longrightarrow> holds objs a s \<longleftrightarrow> 0 \<le> s \<and> fd h = s" "objs a = None \<Longrightarrow> \<not> holds objs a s"
  by (auto simp: holds_def)

text \<open>Beyond the descriptors \<open>base\<close> of the rest of the process, exactly those held by one object are open.\<close>

definition owned :: "int set \<Rightarrow> (nat \<rightharpoonup> SocketHandle) \<Rightarrow> int set \<Rightarrow> bool" where
  "owned base objs ds \<longleftrightarrow>
     (\<forall>a b s. holds objs a s \<longrightarrow> holds objs b s \<longrightarrow> a = b) \<and> (\<forall>a s. holds objs a s \<longrightarrow> s \<notin> base) \<and>
     (\<forall>s. s \<in> ds \<longleftrightarrow> s \<in> base \<or> (\<exists>a. holds objs a s))"

lemma owned_new:
  assumes "owned base objs ds" and "objs a = None" and "0 \<le> fd h \<Longrightarrow> fd h \<notin> ds"
  shows "owned base (objs(a \<mapsto> h)) (if 0 \<le> fd h then insert (fd h) ds else ds)"
  using assms holds_at(2) [of objs a, OF assms(2)] unfolding owned_def by (auto; metis)

lemma owned_drop:
  assumes "owned base objs ds" and "objs a = Some h"
  shows "owned base (objs(a := None)) (if 0 \<le> fd h then ds - {fd h} else ds)"
  using assms holds_at(1) [of objs a, OF assms(2)] unfolding owned_def by (auto; metis)

lemma owned_move:
  assumes "owned base objs ds" and "objs a = Some h" and "objs b = None \<or> (\<exists>g. objs b = Some g \<and> fd g < 0)" and "a \<noteq> b"
    and "fd old < 0" and "fd new = fd h"
  shows "owned base (objs(a \<mapsto> old, b \<mapsto> new)) ds"
proof -
  have "\<not> holds objs b s" for s using assms(3) by (auto simp: holds_def)
  then show ?thesis using assms(1,4-6) holds_at(1) [of objs a, OF assms(2)] unfolding owned_def by (auto; metis)
qed

lemma connect_ipv4_spec:
  assumes "tracks os opened"
  shows "io_spec (connect_ipv4 os addr num) w (\<lambda>r w'. case r of
      Return h \<Rightarrow> 0 \<le> fd h \<and> fd h \<notin> opened w \<and> opened w' = insert (fd h) (opened w)
    | Throw e \<Rightarrow> opened w' = opened w | Undefined \<Rightarrow> True)"
proof -
  let ?m = "\<lambda>s. io_bind (io_outcome (ipv4_address os addr num)) (\<lambda>address.
    io_bind (sys_call (sys_connect os s address)) (\<lambda>(r, err).
    if r \<noteq> 0 then io_throw (Runtime_Error ''socket connect failed'') else io_return \<lparr>fd = s\<rparr>))"
  have "keeps opened (?m s)" for s
    by (intro keeps_intros tracks_keeps [OF assms])
  then have keep: "io_spec (?m s) w1 (\<lambda>r w'. opened w' = opened w1 \<and> (\<forall>h. r = Return h \<longrightarrow> h = \<lparr>fd = s\<rparr>))" for s w1
    unfolding io_spec_def keeps_def by (auto simp: io_bind_eq_Return io_outcome_def split: if_splits)
  have "io_spec (unwind_handle os \<lparr>fd = s\<rparr> (if s < 0 then io_throw (Runtime_Error ''socket creation failed'') else ?m s)) w1
      (\<lambda>r w'. case r of Return h \<Rightarrow> 0 \<le> fd h \<and> fd h \<notin> opened w \<and> opened w' = insert (fd h) (opened w)
        | Throw e \<Rightarrow> opened w' = opened w | Undefined \<Rightarrow> True)" if new: "sys_socket os w = Some (s, w1)" for s w1
  proof (cases "s < 0")
    case True
    then show ?thesis using tracks_socket [OF assms new] by (simp add: io_spec_unwind SocketHandle_destroy_def)
  next
    case False
    then show ?thesis
      using tracks_socket [OF assms new] tracks_close [OF assms] keep [of s w1]
      by (auto simp: io_spec_unwind SocketHandle_destroy_def split: outcome.splits elim!: io_spec_mono)
  qed
  then show ?thesis by (auto simp: connect_ipv4_def spec_simps Let_def)
qed

section \<open>The invariant\<close>

lemma connected_handle:
  assumes "tracks os opened"
    and "connect_ipv4_with_timeout os addr num timeout w = Some (r, w') \<or> connect_ipv4 os addr num w = Some (r, w')"
  shows "case r of Return h \<Rightarrow> 0 \<le> fd h \<and> fd h \<notin> opened w \<and> opened w' = insert (fd h) (opened w)
    | Throw e \<Rightarrow> opened w' = opened w | Undefined \<Rightarrow> True"
  using assms(2) io_specD [OF connect_spec [OF assms(1)]] io_specD [OF connect_ipv4_spec [OF assms(1)]] by blast

lemma used_handle:
  assumes "tracks os opened"
    and "send_framed_json os s json w = Some (r, w') \<or> recv_framed_json os s w = Some (r', w') \<or>
      set_socket_io_timeout os s timeout w = Some (r, w')"
  shows "opened w' = opened w"
  using assms(2) io_calls_keep [OF assms(1)] unfolding keeps_def by blast

abbreviation process_owned :: "('w \<Rightarrow> int set) \<Rightarrow> int set \<Rightarrow> 'w process \<Rightarrow> bool" where
  "process_owned opened base p \<equiv> owned base (objects p) (opened (world p))"

lemma owned_step:
  assumes "tracks os opened" and "process_owned opened base p" and "handle_step os p p'"
  shows "process_owned opened base p'"
  using assms(3)
proof cases
  case (step_default a)
  then show ?thesis using owned_new [OF assms(2), of a SocketHandle_empty] by (simp add: SocketHandle_empty_def)
next
  case (step_connect a addr num timeout h w')
  then show ?thesis
    using owned_new [OF assms(2), of a h] connected_handle [OF assms(1) step_connect(3)] by simp
next
  case (step_connect_failed addr num timeout e w')
  then show ?thesis using assms(2) connected_handle [OF assms(1) step_connect_failed(2)] by simp
next
  case (step_move a h b new old)
  then have "a \<noteq> b" by auto
  then show ?thesis
    using owned_move [OF assms(2), of a h b old new] step_move by (auto simp: SocketHandle_move_def)
next
  case (step_assign a this b other this' other' w')
  show ?thesis
  proof (cases "a = b")
    case True
    then show ?thesis using step_assign assms(2) by (auto simp: SocketHandle_assign_def map_upd_triv)
  next
    case False
    let ?objs = "(objects p)(a := None)"
    have "owned base ?objs (opened w')"
      using owned_drop [OF assms(2) step_assign(2)] step_assign(4) False tracks_close [OF assms(1)]
      by (auto simp: SocketHandle_assign_def Let_def split: if_splits)
    moreover have "fd other' < 0" "fd this' = fd other"
      using step_assign(4) False by (auto simp: SocketHandle_assign_def Let_def)
    ultimately have "owned base (?objs(b \<mapsto> other', a \<mapsto> this')) (opened w')"
      by (intro owned_move [of base ?objs _ b other]) (use step_assign(3) False in auto)
    then show ?thesis using step_assign(1) False by (simp add: fun_upd_twist)
  qed
next
  case (step_use a h json r w' r' timeout)
  then show ?thesis using assms(2) used_handle [OF assms(1) step_use(3)] by simp
next
  case (step_destroy a h)
  then show ?thesis
    using owned_drop [OF assms(2) step_destroy(2)] tracks_close [OF assms(1)]
    by (auto simp: SocketHandle_destroy_def split: if_splits)
qed

section \<open>Properties\<close>

text \<open>
  Claim C19. A descriptor has one owner.  However a process connects, moves, assigns, uses and destroys socket
  handles, the descriptors open beyond those it started with are exactly the ones its handles hold, and no
  two handles hold the same one; so a handle that goes out of scope closes a descriptor that is open and
  that no other handle uses, and once all handles are gone the process holds what it held at the start.
\<close>

theorem handles_own_descriptors:
  assumes "tracks os opened" and "(handle_step os)\<^sup>*\<^sup>* \<lparr>objects = Map.empty, world = w\<rparr> p"
  shows "opened (world p) = opened w \<union> {s. \<exists>a. holds (objects p) a s} \<and>
    (\<forall>a s. holds (objects p) a s \<longrightarrow> s \<in> opened (world p) \<and> s \<notin> opened w \<and> (\<forall>b. holds (objects p) b s \<longrightarrow> b = a)) \<and>
    (objects p = Map.empty \<longrightarrow> opened (world p) = opened w)"
proof -
  have "process_owned opened (opened w) p"
    using assms(2)
  proof (induction rule: rtranclp_induct)
    case base
    then show ?case by (simp add: owned_def)
  next
    case (step p p')
    then show ?case using owned_step [OF assms(1)] by blast
  qed
  then show ?thesis by (auto simp: owned_def)
qed

definition accepting_os :: "net posix" where
  "accepting_os = sample_os\<lparr>sys_connect := (\<lambda>s address w. Some ((0, EOTHER 0), w))\<rparr>"

lemma accepting_os_tracks: "tracks accepting_os net_open"
  by (auto simp: tracks_def accepting_os_def sample_os_def intro!: keeps_sys_call split: if_splits)

lemma accepting_os_connects:
  "connect_ipv4 accepting_os ''127.0.0.1'' 9 (sample_net []) = Some (Return \<lparr>fd = 7\<rparr>, (sample_net [])\<lparr>net_open := {7}\<rparr>)"
  by (simp add: connect_ipv4_def ipv4_address_def io_outcome_def sys_call_def io_bind_def unwind_handle_def Let_def
      accepting_os_def sample_os_def sample_net_def)

theorem handles_own_descriptors_witness:
  "(handle_step accepting_os)\<^sup>*\<^sup>* \<lparr>objects = Map.empty, world = sample_net []\<rparr>
       \<lparr>objects = [0 \<mapsto> \<lparr>fd = - 1\<rparr>, 1 \<mapsto> \<lparr>fd = 7\<rparr>], world = (sample_net [])\<lparr>net_open := {7}\<rparr>\<rparr> \<and>
   net_open ((sample_net [])\<lparr>net_open := {7}\<rparr>) = {7} \<and>
   {b. holds [0 \<mapsto> \<lparr>fd = - 1\<rparr>, 1 \<mapsto> \<lparr>fd = 7\<rparr>] b 7} = {1}"
proof -
  let ?w = "(sample_net [])\<lparr>net_open := {7}\<rparr>" and ?objs = "[0 \<mapsto> \<lparr>fd = - 1\<rparr>, 1 \<mapsto> \<lparr>fd = 7\<rparr>]"
  have "handle_step accepting_os \<lparr>objects = Map.empty, world = sample_net []\<rparr> \<lparr>objects = [0 \<mapsto> \<lparr>fd = 7\<rparr>], world = ?w\<rparr>"
    using step_connect [OF _ disjI2, of "\<lparr>objects = Map.empty, world = sample_net []\<rparr>" 0 accepting_os "''127.0.0.1''" 9]
    by (simp add: accepting_os_connects)
  moreover have "handle_step accepting_os \<lparr>objects = [0 \<mapsto> \<lparr>fd = 7\<rparr>], world = ?w\<rparr> \<lparr>objects = ?objs, world = ?w\<rparr>"
    using step_move [of "\<lparr>objects = [0 \<mapsto> \<lparr>fd = 7\<rparr>], world = ?w\<rparr>" 0 "\<lparr>fd = 7\<rparr>" 1] by (simp add: SocketHandle_move_def)
  ultimately have run: "(handle_step accepting_os)\<^sup>*\<^sup>* \<lparr>objects = Map.empty, world = sample_net []\<rparr> \<lparr>objects = ?objs, world = ?w\<rparr>"
    by (rule converse_rtranclp_into_rtranclp [OF _ r_into_rtranclp])
  have held: "holds ?objs 1 7" by simp
  have one: "{b. holds ?objs b 7} = {1}"
    using handles_own_descriptors [OF accepting_os_tracks run, THEN conjunct2, THEN conjunct1, rule_format, of 1 7] held
    unfolding process.select_convs by blast
  show ?thesis by (rule conjI [OF run conjI [OF _ one]]) simp
qed

end
