(* ===== verification/Base64.thy ===== *)
theory Base64
  imports MA2A_Prelude
begin

text \<open>
  The base64 encoding of RFC 4648, which the documentation of \<open>EVP_EncodeBlock\<close> and \<open>EVP_DecodeBlock\<close>
  refers to: three bytes become four characters of the alphabet, a shorter last group is padded with
  \<open>=\<close>.  The decoder works as \<open>EVP_DecodeBlock\<close> is documented to: every four characters give three
  bytes, the padding included.  Nothing here is code of the repository; it is the vocabulary in
  which the behaviour of the two calls is stated.
\<close>

definition b64_char :: "nat \<Rightarrow> char" where
  "b64_char d =
     (if d < 26 then char_of (65 + d) else if d < 52 then char_of (71 + d)
      else if d < 62 then char_of (d - 4) else if d = 62 then CHR ''+'' else CHR ''/'')"

definition b64_val :: "char \<Rightarrow> nat option" where
  "b64_val c = (let n = of_char c :: nat in
     if 65 \<le> n \<and> n \<le> 90 then Some (n - 65) else if 97 \<le> n \<and> n \<le> 122 then Some (n - 71)
     else if 48 \<le> n \<and> n \<le> 57 then Some (n + 4) else if c = CHR ''+'' then Some 62
     else if c = CHR ''/'' then Some 63 else if c = CHR ''='' then Some 0 else None)"

definition quad :: "nat \<Rightarrow> string" where
  "quad n = [b64_char (n div 262144 mod 64), b64_char (n div 4096 mod 64),
             b64_char (n div 64 mod 64), b64_char (n mod 64)]"

fun base64 :: "byte list \<Rightarrow> string" where
  "base64 [] = []"
| "base64 [a] = take 2 (quad (unat a * 65536)) @ ''==''"
| "base64 [a, b] = take 3 (quad (unat a * 65536 + unat b * 256)) @ ''=''"
| "base64 (a # b # c # xs) = quad (unat a * 65536 + unat b * 256 + unat c) @ base64 xs"

definition unquad :: "nat \<Rightarrow> byte list" where
  "unquad n = [word_of_nat (n div 65536 mod 256), word_of_nat (n div 256 mod 256), word_of_nat (n mod 256)]"

fun unbase64 :: "string \<Rightarrow> byte list option" where
  "unbase64 [] = Some []"
| "unbase64 (p # q # r # s # xs) =
     (case (b64_val p, b64_val q, b64_val r, b64_val s, unbase64 xs) of
        (Some a, Some b, Some c, Some d, Some ys) \<Rightarrow>
          Some (unquad (a * 262144 + b * 4096 + c * 64 + d) @ ys)
      | _ \<Rightarrow> None)"
| "unbase64 _ = None"

text \<open>The zero bytes the padding of a shorter last group decodes to.\<close>

definition b64_pad :: "nat \<Rightarrow> nat" where
  "b64_pad n = (if n mod 3 = 0 then 0 else 3 - n mod 3)"

lemma less_64_cases: "d < 64 \<Longrightarrow> d < 26 \<or> (26 \<le> d \<and> d < 52) \<or> (52 \<le> d \<and> d < 62) \<or> d = 62 \<or> d = 63"
  for d :: nat
  by linarith

lemma of_b64_char:
  "d < 64 \<Longrightarrow> (of_char (b64_char d) :: nat) =
     (if d < 26 then 65 + d else if d < 52 then 71 + d else if d < 62 then d - 4
      else if d = 62 then 43 else 47)"
  using less_64_cases [of d] by (auto simp: b64_char_def of_char_of)

lemma b64_val_char [simp]: "d < 64 \<Longrightarrow> b64_val (b64_char d) = Some d"
proof -
  assume d: "d < 64"
  consider "d < 26" | "26 \<le> d" "d < 52" | "52 \<le> d" "d < 62" | "d = 62" | "d = 63"
    using less_64_cases [OF d] by blast
  then show ?thesis
  proof cases
    case 4
    then show ?thesis by (simp add: b64_char_def b64_val_def Let_def)
  next
    case 5
    then show ?thesis by (simp add: b64_char_def b64_val_def Let_def)
  qed (auto simp: b64_val_def Let_def of_b64_char [OF d])
qed

lemma b64_char_not_special:
  "d < 64 \<Longrightarrow> b64_char d \<notin> {CHR ''='', CHR ''-'', CHR ''_''}"
proof -
  assume d: "d < 64"
  have "(of_char (b64_char d) :: nat) \<notin> {61, 45, 95}"
    using less_64_cases [OF d] by (auto simp: of_b64_char [OF d])
  then show ?thesis by auto
qed

lemma quad_unquad:
  fixes n :: nat
  assumes "n < 16777216"
  shows "n div 262144 mod 64 * 262144 + n div 4096 mod 64 * 4096 + n div 64 mod 64 * 64 + n mod 64 = n"
proof -
  have q: "n div 4096 = n div 64 div 64" "n div 262144 = n div 64 div 64 div 64"
    by (simp_all add: div_mult2_eq [symmetric])
  have "n = n div 64 * 64 + n mod 64" "n div 64 = n div 4096 * 64 + n div 64 mod 64"
    "n div 4096 = n div 262144 * 64 + n div 4096 mod 64"
    unfolding q by simp_all
  moreover have "n div 262144 mod 64 = n div 262144" using assms by simp
  ultimately show ?thesis by linarith
qed

lemma length_base64: "length (base64 xs) = 4 * ((length xs + 2) div 3)"
proof (induction xs rule: base64.induct)
  case (4 a b c xs)
  have "(length (a # b # c # xs) + 2) div 3 = (length xs + 2) div 3 + 1" by simp
  then show ?case using 4 by (simp add: quad_def)
qed (simp_all add: quad_def)

lemma base64_chars:
  "c \<in> set (base64 xs) \<Longrightarrow> c \<notin> {CHR ''-'', CHR ''_''}"
  using b64_char_not_special
  by (induction xs rule: base64.induct) (auto simp: quad_def)

lemma unquad_bytes:
  "unquad (unat a * 65536 + unat b * 256 + unat c) = [a, b, c]"
proof -
  have "unat b < 256" "unat c < 256" "unat a < 256"
    using unsigned_less [of a, where ?'a = nat] unsigned_less [of b, where ?'a = nat]
      unsigned_less [of c, where ?'a = nat] by simp_all
  define n where "n = unat a * 65536 + unat b * 256 + unat c"
  have "(w * 256 + z) mod 256 = z" "(w * 256 + z) div 256 = w" if "z < 256" for w z :: nat
    using that by simp_all
  moreover have "n = (unat a * 256 + unat b) * 256 + unat c" by (simp add: n_def)
  ultimately have "n mod 256 = unat c" and d: "n div 256 = unat a * 256 + unat b"
    using \<open>unat c < 256\<close> by presburger+
  moreover have "n div 65536 = n div 256 div 256" by (simp add: div_mult2_eq [symmetric])
  ultimately show ?thesis
    using \<open>unat a < 256\<close> \<open>unat b < 256\<close> by (simp add: unquad_def n_def [symmetric] d)
qed

lemma unbase64_quad:
  assumes "n < 16777216" and "unbase64 xs = Some ys"
  shows "unbase64 (quad n @ xs) = Some (unquad n @ ys)"
  using assms quad_unquad [OF assms(1)] by (simp add: quad_def)

lemma byte_group_less: "unat (a :: byte) * 65536 + unat (b :: byte) * 256 + unat (c :: byte) < 16777216"
  using unsigned_less [of a, where ?'a = nat] unsigned_less [of b, where ?'a = nat]
    unsigned_less [of c, where ?'a = nat] by simp

text \<open>The padding character stands for the value 0, as the last digits of a padded group are.\<close>

lemma unbase64_padded:
  "unbase64 (take 2 (quad (unat a * 65536)) @ ''=='') = unbase64 (quad (unat (a :: byte) * 65536))"
  "unbase64 (take 3 (quad (unat a * 65536 + unat b * 256)) @ ''='')
     = unbase64 (quad (unat (a :: byte) * 65536 + unat (b :: byte) * 256))"
proof -
  have v: "b64_val CHR ''='' = Some 0" by (simp add: b64_val_def Let_def)
  have c: "unbase64 [p, q, r, s] = unbase64 [p, q, r', s']"
    if "b64_val r = b64_val r'" "b64_val s = b64_val s'" for p q r s r' s'
    using that by simp
  have e: "unat a * 65536 = 64 * (64 * (unat a * 16))"
    "unat a * 65536 + unat b * 256 = 64 * (unat a * 1024 + unat b * 4)"
    by simp_all
  have "unat a * 65536 mod 64 = 0" "unat a * 65536 div 64 mod 64 = 0"
    "(unat a * 65536 + unat b * 256) mod 64 = 0"
    unfolding e by simp_all
  with v c show "unbase64 (take 2 (quad (unat a * 65536)) @ ''=='') = unbase64 (quad (unat a * 65536))"
    "unbase64 (take 3 (quad (unat a * 65536 + unat b * 256)) @ ''='')
       = unbase64 (quad (unat a * 65536 + unat b * 256))"
    by (simp_all add: quad_def del: unbase64.simps)
qed

lemma replicate_two: "replicate 2 x = [x, x]"
  by (simp add: numeral_2_eq_2)

lemma unbase64_base64: "unbase64 (base64 xs) = Some (xs @ replicate (b64_pad (length xs)) 0)"
proof (induction xs rule: base64.induct)
  case (2 a)
  show ?case
    using unbase64_quad [OF byte_group_less [of a 0 0], of "[]"] unquad_bytes [of a 0 0]
    by (simp add: unbase64_padded b64_pad_def replicate_two)
next
  case (3 a b)
  show ?case
    using unbase64_quad [OF byte_group_less [of a b 0], of "[]"] unquad_bytes [of a b 0]
    by (simp add: unbase64_padded b64_pad_def)
next
  case (4 a b c xs)
  have "b64_pad (length (a # b # c # xs)) = b64_pad (length xs)" by (simp add: b64_pad_def)
  then show ?case
    using unbase64_quad [OF byte_group_less [of a b c] "4.IH"] unquad_bytes [of a b c]
    by (simp)
qed (simp add: b64_pad_def)

text \<open>How the text ends tells the padding.\<close>

lemma base64_ends:
  "xs \<noteq> [] \<Longrightarrow> last (base64 xs) = CHR ''='' \<longleftrightarrow> 1 \<le> b64_pad (length xs)"
  "xs \<noteq> [] \<Longrightarrow> base64 xs ! (length (base64 xs) - 2) = CHR ''='' \<longleftrightarrow> 2 \<le> b64_pad (length xs)"
proof (induction xs rule: base64.induct)
  case (4 a b c xs)
  have pad: "b64_pad (length (a # b # c # xs)) = b64_pad (length xs)" by (simp add: b64_pad_def)
  have q: "last (quad n) \<noteq> CHR ''=''" "quad n ! 2 \<noteq> CHR ''=''" "length (quad n) = 4" "quad n \<noteq> []" for n
    using b64_char_not_special by (auto simp: quad_def)
  have l: "4 \<le> length (base64 xs)" "base64 xs \<noteq> []" if "xs \<noteq> []"
    using that length_base64 [of xs] by (cases xs; auto)+
  { case 1
    show ?case using q l "4.IH" pad by (cases "xs = []") (auto simp: b64_pad_def)
  next
    case 2
    show ?case using q l "4.IH" pad by (cases "xs = []") (auto simp: b64_pad_def nth_append) }
qed (use b64_char_not_special in \<open>auto simp: quad_def b64_pad_def\<close>)

end
