(* ===== verification/Crypto.thy ===== *)
theory Crypto
  imports Base64
begin

text \<open>
  The cryptographic layer of \<open>crypto.hpp\<close>.  OpenSSL is not part of the repository: the calls the code
  makes are the fields of the record \<open>openssl\<close>, an argument of every definition here.  A key is an
  \<open>EVP_PKEY*\<close>, modelled as an option with \<open>None\<close> for the null pointer; a digest context is passed on
  from call to call.  A call that fills a buffer gives its return value and the bytes it writes;
  writing more bytes than the buffer the code supplies is undefined behaviour.  Memory allocation by
  the containers is taken to succeed.

  What the proofs rely on is stated by two predicates: \<open>evp_base64\<close> (the documented behaviour of the
  base64 calls) and \<open>evp_ed25519\<close> (signing and verification with a matching key pair).
\<close>

record ('k, 'c) openssl =
  EVP_EncodeBlock :: "byte list \<Rightarrow> int \<Rightarrow> int \<times> byte list"
  EVP_DecodeBlock :: "byte list \<Rightarrow> int \<Rightarrow> int \<times> byte list"
  EVP_PKEY_new_raw_private_key :: "byte list \<Rightarrow> 'k option"
  EVP_PKEY_new_raw_public_key :: "byte list \<Rightarrow> 'k option"
  EVP_MD_CTX_new :: "'c option"
  EVP_DigestSignInit :: "'c \<Rightarrow> 'k option \<Rightarrow> int \<times> 'c"
  EVP_DigestSign :: "'c \<Rightarrow> nat option \<Rightarrow> byte list \<Rightarrow> int \<times> nat \<times> byte list \<times> 'c"
  EVP_DigestVerifyInit :: "'c \<Rightarrow> 'k option \<Rightarrow> int \<times> 'c"
  EVP_DigestVerify :: "'c \<Rightarrow> byte list \<Rightarrow> byte list \<Rightarrow> int"

section \<open>base64url\<close>

definition base64url_encode :: "('k, 'c) openssl \<Rightarrow> byte list \<Rightarrow> string outcome" where
  "base64url_encode ssl input =
     (if input = [] then Return []
      else let capacity = 4 * ((length input + 2) div 3);
               (len, written) = EVP_EncodeBlock ssl input (int_of_size (length input)) in
        if length written > capacity then Undefined
        else if len < 0 then Throw (Runtime_Error ''base64 encode failed'')
        else let output = string_of_bytes (resized (nat len) 0
                            (written @ replicate (capacity - length written) 0)) in
          Return (replace_char CHR ''/'' CHR ''_'' (replace_char CHR ''+'' CHR ''-'' output)))"

text \<open>
  \<open>actual\<close> is a \<open>std::size_t\<close>: the decrements for the padding wrap around, and a size beyond what a
  vector can hold makes \<open>resize\<close> throw.
\<close>

definition vector_max_size :: nat where
  "vector_max_size = 2 ^ 63 - 1"

definition base64url_decode :: "('k, 'c) openssl \<Rightarrow> string \<Rightarrow> byte list outcome" where
  "base64url_decode ssl text =
     (let input = replace_char CHR ''_'' CHR ''/'' (replace_char CHR ''-'' CHR ''+'' text) in
      if length input mod 4 \<noteq> 0 then Throw (Invalid_Argument ''invalid base64 length'')
      else let capacity = 3 * (length input div 4);
               (len, written) = EVP_DecodeBlock ssl (bytes_of_string input) (int_of_size (length input)) in
        if length written > capacity then Undefined
        else if len < 0 then Throw (Invalid_Argument ''invalid base64'')
        else let output = written @ replicate (capacity - length written) 0;
                 actual = word_of_int len :: 64 word;
                 actual = (if input \<noteq> [] \<and> last input = CHR ''='' then actual - 1 else actual);
                 actual = (if length input \<ge> 2 \<and> input ! (length input - 2) = CHR ''='' then actual - 1
                           else actual) in
          if unat actual > vector_max_size then Throw (Length_Error ''vector::_M_default_append'')
          else Return (resized (unat actual) 0 output))"

section \<open>Keys and signatures\<close>

definition ed25519_private_key_from_seed :: "('k, 'c) openssl \<Rightarrow> byte list \<Rightarrow> 'k option outcome" where
  "ed25519_private_key_from_seed ssl seed =
     (let raw = EVP_PKEY_new_raw_private_key ssl seed in
      if raw = None then Throw (Runtime_Error ''failed to create Ed25519 private key'') else Return raw)"

definition ed25519_public_key_from_raw :: "('k, 'c) openssl \<Rightarrow> byte list \<Rightarrow> 'k option outcome" where
  "ed25519_public_key_from_raw ssl key =
     (let raw = EVP_PKEY_new_raw_public_key ssl key in
      if raw = None then Throw (Runtime_Error ''failed to create Ed25519 public key'') else Return raw)"

definition ed25519_sign :: "('k, 'c) openssl \<Rightarrow> 'k option \<Rightarrow> string \<Rightarrow> byte list outcome" where
  "ed25519_sign ssl private_key message =
     (case EVP_MD_CTX_new ssl of
        None \<Rightarrow> Throw (Runtime_Error ''failed to allocate digest context'')
      | Some ctx \<Rightarrow>
          let (ok, ctx) = EVP_DigestSignInit ssl ctx private_key in
          if ok \<noteq> 1 then Throw (Runtime_Error ''Ed25519 sign init failed'')
          else let (ok, signature_len, _, ctx) = EVP_DigestSign ssl ctx None (bytes_of_string message) in
            if ok \<noteq> 1 then Throw (Runtime_Error ''Ed25519 signature sizing failed'')
            else let (ok, final_len, written, _) =
                EVP_DigestSign ssl ctx (Some signature_len) (bytes_of_string message) in
              if length written > signature_len then Undefined
              else if ok \<noteq> 1 then Throw (Runtime_Error ''Ed25519 signing failed'')
              else Return (resized final_len 0
                     (written @ replicate (signature_len - length written) 0)))"

definition ed25519_verify :: "('k, 'c) openssl \<Rightarrow> 'k option \<Rightarrow> string \<Rightarrow> byte list \<Rightarrow> bool outcome" where
  "ed25519_verify ssl public_key message signature =
     (case EVP_MD_CTX_new ssl of
        None \<Rightarrow> Throw (Runtime_Error ''failed to allocate digest context'')
      | Some ctx \<Rightarrow>
          let (ok, ctx) = EVP_DigestVerifyInit ssl ctx public_key in
          if ok \<noteq> 1 then Throw (Runtime_Error ''Ed25519 verify init failed'')
          else Return (EVP_DigestVerify ssl ctx signature (bytes_of_string message) = 1))"

section \<open>What the code relies on\<close>

text \<open>
  The base64 calls, as documented: encoding a block writes its base64 text and returns its length;
  decoding such a text writes three bytes for every four characters, the padding decoded to zero
  bytes, and returns their number.  The \<open>int\<close> lengths of the interface limit it to texts below
  \<open>2 ^ 31\<close> characters.
\<close>

definition evp_base64 :: "('k, 'c) openssl \<Rightarrow> bool" where
  "evp_base64 ssl \<longleftrightarrow>
     (\<forall>x. 4 * ((length x + 2) div 3) < 2 ^ 31 \<longrightarrow>
        EVP_EncodeBlock ssl x (int (length x)) = (int (length (base64 x)), bytes_of_string (base64 x)) \<and>
        EVP_DecodeBlock ssl (bytes_of_string (base64 x)) (int (length (base64 x)))
          = (int (length x + b64_pad (length x)), x @ replicate (b64_pad (length x)) 0))"

text \<open>No decoding, of whatever text, writes more than three bytes for every four characters.\<close>

definition evp_decode_bounded :: "('k, 'c) openssl \<Rightarrow> bool" where
  "evp_decode_bounded ssl \<longleftrightarrow>
     (\<forall>x n. length (snd (EVP_DecodeBlock ssl x n)) \<le> 3 * (length x div 4))"

text \<open>
  A matching pair of keys: the private one signs every message with 64 bytes, asked first for the
  length and then for the signature, and the public one accepts that signature for that message.
\<close>

definition evp_ed25519 :: "('k, 'c) openssl \<Rightarrow> 'k \<Rightarrow> 'k \<Rightarrow> bool" where
  "evp_ed25519 ssl private_key public_key \<longleftrightarrow>
     (\<exists>ctx sign_ctx verify_ctx.
        EVP_MD_CTX_new ssl = Some ctx \<and>
        EVP_DigestSignInit ssl ctx (Some private_key) = (1, sign_ctx) \<and>
        EVP_DigestVerifyInit ssl ctx (Some public_key) = (1, verify_ctx) \<and>
        (\<forall>m. \<exists>sized_ctx unused s last_ctx.
           EVP_DigestSign ssl sign_ctx None m = (1, 64, unused, sized_ctx) \<and>
           EVP_DigestSign ssl sized_ctx (Some 64) m = (1, 64, s, last_ctx) \<and>
           length s = 64 \<and> EVP_DigestVerify ssl verify_ctx s m = 1))"

section \<open>Shared lemmas\<close>

definition url_safe :: "string \<Rightarrow> string" where
  "url_safe s = replace_char CHR ''/'' CHR ''_'' (replace_char CHR ''+'' CHR ''-'' s)"

lemma url_safe_inverse:
  assumes "CHR ''-'' \<notin> set s" and "CHR ''_'' \<notin> set s"
  shows "replace_char CHR ''_'' CHR ''/'' (replace_char CHR ''-'' CHR ''+'' (url_safe s)) = s"
proof -
  have "CHR ''_'' \<notin> set (replace_char CHR ''+'' CHR ''-'' s)"
    using assms(2) by (auto dest: set_replace_char)
  then have "replace_char CHR ''_'' CHR ''/'' (url_safe s) = replace_char CHR ''+'' CHR ''-'' s"
    unfolding url_safe_def by (rule replace_char_inverse)
  then show ?thesis
    using assms(1) replace_char_commute [of "CHR ''_''" "CHR ''/''" "CHR ''-''" "CHR ''+''" "url_safe s"]
    by (simp add: replace_char_inverse)
qed

lemma length_url_safe [simp]: "length (url_safe s) = length s"
  by (simp add: url_safe_def)

lemma length_base64_pad: "3 * (length (base64 x) div 4) = length x + b64_pad (length x)"
proof -
  have "3 * ((n + 2) div 3) = n + b64_pad n" for n unfolding b64_pad_def by presburger
  then show ?thesis by (simp add: length_base64)
qed

lemma base64url_encode_eq:
  assumes "evp_base64 ssl" and "4 * ((length x + 2) div 3) < 2 ^ 31"
  shows "base64url_encode ssl x = Return (url_safe (base64 x))"
proof -
  have "length x < 2 ^ 31" using assms(2) by linarith
  then have "EVP_EncodeBlock ssl x (int_of_size (length x)) = (int (length (base64 x)), bytes_of_string (base64 x))"
    using assms by (simp add: evp_base64_def int_of_size_small)
  then show ?thesis
    using length_base64 [of x] by (simp add: base64url_encode_def url_safe_def resized_take replace_char_def)
qed

lemma b64_pad_cases:
  obtains "b64_pad n = 0" | "b64_pad n = 1" | "b64_pad n = 2"
proof -
  consider "n mod 3 = 0" | "n mod 3 = 1" | "n mod 3 = 2"
    using mod_less_divisor [of 3 n] by linarith
  then show thesis by cases (simp_all add: b64_pad_def that)
qed

lemma base64url_decode_encoded:
  assumes "evp_base64 ssl" and "4 * ((length x + 2) div 3) < 2 ^ 31"
  shows "base64url_decode ssl (url_safe (base64 x)) = Return x"
proof (cases "x = []")
  case True
  then show ?thesis
    using assms(1) [unfolded evp_base64_def, rule_format, of "[]"]
    by (simp add: base64url_decode_def url_safe_def replace_char_def b64_pad_def resized_def
        int_of_size_small vector_max_size_def)
next
  case False
  let ?t = "base64 x" and ?pad = "b64_pad (length x)"
  have u: "replace_char CHR ''_'' CHR ''/'' (replace_char CHR ''-'' CHR ''+'' (url_safe ?t)) = ?t"
    using base64_chars by (intro url_safe_inverse) blast+
  have l: "length ?t < 2 ^ 31" "length ?t mod 4 = 0" "2 \<le> length ?t" "?t \<noteq> []"
    using assms(2) False length_base64 [of x] by (cases x; auto)+
  have d: "EVP_DecodeBlock ssl (bytes_of_string ?t) (int_of_size (length ?t))
      = (int (length x + ?pad), x @ replicate ?pad 0)"
    using assms l by (simp add: evp_base64_def int_of_size_small)
  have p: "length x + ?pad < 2 ^ 31" using length_base64_pad [of x] l(1) by linarith
  have s: "unat (word_of_nat (length x) :: 64 word) = length x" using p by (intro unat_of_nat_eq) simp
  show ?thesis
    using l(2-4) base64_ends [OF False] p d length_base64_pad [of x] s
    by (cases rule: b64_pad_cases [of "length x"])
      (simp_all add: base64url_decode_def u Let_def resized_take vector_max_size_def)
qed

lemma base64url_decode_defined:
  assumes "evp_decode_bounded ssl"
  shows "base64url_decode ssl t \<noteq> Undefined"
proof -
  define input where "input = replace_char CHR ''_'' CHR ''/'' (replace_char CHR ''-'' CHR ''+'' t)"
  obtain len written where d: "EVP_DecodeBlock ssl (bytes_of_string input) (int_of_size (length input)) = (len, written)"
    by fastforce
  have "length (snd (EVP_DecodeBlock ssl (bytes_of_string input) (int_of_size (length input))))
      \<le> 3 * (length (bytes_of_string input) div 4)"
    using assms unfolding evp_decode_bounded_def by blast
  then have "\<not> 3 * (length input div 4) < length written" using d by simp
  then show ?thesis unfolding base64url_decode_def Let_def input_def [symmetric] d by simp
qed

lemma ed25519_sign_verify:
  assumes "evp_ed25519 ssl private_key public_key"
  shows "\<exists>s. length s = 64 \<and> ed25519_sign ssl (Some private_key) m = Return s \<and>
           ed25519_verify ssl (Some public_key) m s = Return True"
proof -
  obtain ctx c v where "EVP_MD_CTX_new ssl = Some ctx"
    and "EVP_DigestSignInit ssl ctx (Some private_key) = (1, c)"
    and "EVP_DigestVerifyInit ssl ctx (Some public_key) = (1, v)"
    and "\<exists>d u s l. EVP_DigestSign ssl c None (bytes_of_string m) = (1, 64, u, d) \<and>
           EVP_DigestSign ssl d (Some 64) (bytes_of_string m) = (1, 64, s, l) \<and>
           length s = 64 \<and> EVP_DigestVerify ssl v s (bytes_of_string m) = 1"
    using assms unfolding evp_ed25519_def by blast
  then show ?thesis by (auto simp: ed25519_sign_def ed25519_verify_def resized_take)
qed

text \<open>What a positive verification says: OpenSSL accepted these very bytes under this key.\<close>

definition evp_accepts :: "('k, 'c) openssl \<Rightarrow> 'k option \<Rightarrow> string \<Rightarrow> byte list \<Rightarrow> bool" where
  "evp_accepts ssl key message signature \<longleftrightarrow>
     (\<exists>ctx v. EVP_MD_CTX_new ssl = Some ctx \<and> EVP_DigestVerifyInit ssl ctx key = (1, v) \<and>
        EVP_DigestVerify ssl v signature (bytes_of_string message) = 1)"

lemma ed25519_verify_eq_True:
  "ed25519_verify ssl key m s = Return True \<longleftrightarrow> evp_accepts ssl key m s"
  by (auto simp: ed25519_verify_def evp_accepts_def split: option.splits prod.splits)

lemma ed25519_verify_defined: "ed25519_verify ssl key m s \<noteq> Undefined"
  by (auto simp: ed25519_verify_def split: option.splits prod.splits)

section \<open>A stand-in for OpenSSL\<close>

text \<open>
  An executable instance of the interface with the documented behaviour.  Its signatures are no
  signatures in the cryptographic sense; it serves to show that the assumptions on OpenSSL are
  consistent and to run the model on concrete messages.
\<close>

definition sample_signature :: "nat \<Rightarrow> byte list \<Rightarrow> byte list" where
  "sample_signature k m = resized 64 0 (word_of_nat k # rev m)"

definition sample_ssl :: "(nat, nat option) openssl" where
  "sample_ssl = \<lparr>
     EVP_EncodeBlock = (\<lambda>x n. (int (length (base64 x)), bytes_of_string (base64 x))),
     EVP_DecodeBlock = (\<lambda>x n. case unbase64 (string_of_bytes x) of
         None \<Rightarrow> (- 1, []) | Some y \<Rightarrow> (int (length y), y)),
     EVP_PKEY_new_raw_private_key = (\<lambda>x. Some (unat (hd x))),
     EVP_PKEY_new_raw_public_key = (\<lambda>x. Some (unat (hd x))),
     EVP_MD_CTX_new = Some None,
     EVP_DigestSignInit = (\<lambda>ctx k. (if k = None then 0 else 1, k)),
     EVP_DigestSign = (\<lambda>ctx buffer m.
         (1, 64, if buffer = None then [] else sample_signature (the ctx) m, ctx)),
     EVP_DigestVerifyInit = (\<lambda>ctx k. (if k = None then 0 else 1, k)),
     EVP_DigestVerify = (\<lambda>ctx s m. if s = sample_signature (the ctx) m then 1 else 0)\<rparr>"

lemma unbase64_length: "unbase64 s = Some y \<Longrightarrow> length y = 3 * (length s div 4)"
proof (induction s arbitrary: y rule: unbase64.induct)
  case (2 p q r s xs)
  have "length (p # q # r # s # xs) div 4 = Suc (length xs div 4)" by simp
  with 2 show ?case by (auto simp: unquad_def split: option.splits)
qed auto

lemma sample_ssl_base64: "evp_base64 sample_ssl"
  by (simp add: evp_base64_def sample_ssl_def unbase64_base64)

lemma sample_ssl_bounded: "evp_decode_bounded sample_ssl"
  by (auto simp: evp_decode_bounded_def sample_ssl_def dest: unbase64_length split: option.splits)

lemma sample_ssl_ed25519: "evp_ed25519 sample_ssl k k"
  by (auto simp: evp_ed25519_def sample_ssl_def sample_signature_def)

section \<open>Properties\<close>

text \<open>
  With the documented base64 calls, encoding any byte vector whose text fits the \<open>int\<close>
  lengths gives a text without \<open>+\<close> and \<open>/\<close>, and decoding that text gives the vector back: the
  replacement of the two characters and the removal of the padding bytes undo each other.
\<close>

theorem base64url_roundtrip:
  assumes "evp_base64 ssl" and "4 * ((length x + 2) div 3) < 2 ^ 31"
  shows "\<exists>t. base64url_encode ssl x = Return t \<and> CHR ''+'' \<notin> set t \<and> CHR ''/'' \<notin> set t \<and>
           length t = 4 * ((length x + 2) div 3) \<and> base64url_decode ssl t = Return x"
proof -
  have "CHR ''+'' \<notin> set (url_safe (base64 x))" "CHR ''/'' \<notin> set (url_safe (base64 x))"
    by (auto simp: url_safe_def dest!: set_replace_char)
  then show ?thesis
    using base64url_encode_eq [OF assms] base64url_decode_encoded [OF assms] by (simp add: length_base64)
qed

theorem base64url_roundtrip_witness:
  "\<exists>t. base64url_encode sample_ssl [0xfb, 0xff] = Return t \<and> CHR ''+'' \<notin> set t \<and> CHR ''/'' \<notin> set t \<and>
     length t = 4 \<and> base64url_decode sample_ssl t = Return [0xfb, 0xff]"
  using base64url_roundtrip [OF sample_ssl_base64, of "[0xfb, 0xff]"] by simp

end
