(* ===== verification/Job_Auth.thy ===== *)
theory Job_Auth
  imports Crypto Messages
begin

text \<open>
  Signing and verification of messages: \<open>job_auth.hpp\<close> and the second half of \<open>failure_notice.hpp\<close>.
  A function that changes a message through a reference gives the changed message back.  The three
  kinds of message follow one contract, stated as the locales \<open>signable\<close> and \<open>verifiable\<close>; the
  lemmas on signing and verifying are proved once there and interpreted for each kind.
\<close>

definition sign_job_request ::
    "('k, 'c) openssl \<Rightarrow> JobRequest \<Rightarrow> 'k option \<Rightarrow> JobRequest outcome" where
  "sign_job_request ssl request private_key =
     (if private_key = None then Throw (Invalid_Argument ''private key is required'')
      else let request = request\<lparr>JobRequest.signature_algorithm := ''Ed25519''\<rparr>;
               request = request\<lparr>JobRequest.signature := []\<rparr> in
        bind (ed25519_sign ssl private_key (canonical_job_request_json request)) (\<lambda>raw.
        bind (base64url_encode ssl raw) (\<lambda>text.
        Return (request\<lparr>JobRequest.signature := text\<rparr>))))"

definition sign_job_result ::
    "('k, 'c) openssl \<Rightarrow> JobResult \<Rightarrow> 'k option \<Rightarrow> JobResult outcome" where
  "sign_job_result ssl result private_key =
     (if private_key = None then Throw (Invalid_Argument ''private key is required'')
      else let result = result\<lparr>JobResult.signature_algorithm := ''Ed25519''\<rparr>;
               result = result\<lparr>JobResult.signature := []\<rparr> in
        bind (ed25519_sign ssl private_key (canonical_job_result_json result)) (\<lambda>raw.
        bind (base64url_encode ssl raw) (\<lambda>text.
        Return (result\<lparr>JobResult.signature := text\<rparr>))))"

definition verify_job_result ::
    "('k, 'c) openssl \<Rightarrow> JobResult \<Rightarrow> 'k option \<Rightarrow> bool outcome" where
  "verify_job_result ssl result public_key =
     (if public_key = None \<or> JobResult.signature_algorithm result \<noteq> ''Ed25519'' \<or>
         JobResult.signature result = []
      then Return False
      else try_catch_all
        (bind (base64url_decode ssl (JobResult.signature result))
          (ed25519_verify ssl public_key (canonical_job_result_json result)))
        (Return False))"

definition sign_failure_notice ::
    "('k, 'c) openssl \<Rightarrow> FailureNotice \<Rightarrow> 'k option \<Rightarrow> FailureNotice outcome" where
  "sign_failure_notice ssl notice private_key =
     (let notice = notice\<lparr>FailureNotice.signature_algorithm := ''Ed25519''\<rparr> in
      bind (ed25519_sign ssl private_key (canonical_failure_notice_json notice)) (\<lambda>raw.
      bind (base64url_encode ssl raw) (\<lambda>text.
      Return (notice\<lparr>FailureNotice.signature := text\<rparr>))))"

definition verify_failure_notice ::
    "('k, 'c) openssl \<Rightarrow> FailureNotice \<Rightarrow> 'k option \<Rightarrow> bool outcome" where
  "verify_failure_notice ssl notice public_key =
     (if FailureNotice.signature_algorithm notice \<noteq> ''Ed25519'' \<or> FailureNotice.signature notice = []
      then Return False
      else try_catch_all
        (bind (base64url_decode ssl (FailureNotice.signature notice))
          (ed25519_verify ssl public_key (canonical_failure_notice_json notice)))
        (Return False))"

lemma caught_verify_eq_True:
  "try_catch_all (bind (base64url_decode ssl t) (ed25519_verify ssl k m)) (Return False) = Return True \<longleftrightarrow>
     (\<exists>s. base64url_decode ssl t = Return s \<and> evp_accepts ssl k m s)"
  by (auto simp: try_catch_all_eq_Return bind_eq_Return ed25519_verify_eq_True)

lemma caught_verify_total:
  assumes "evp_decode_bounded ssl"
  shows "\<exists>b. try_catch_all (bind (base64url_decode ssl t) (ed25519_verify ssl k m)) (Return False) = Return b"
proof (cases "base64url_decode ssl t")
  case (Return s)
  then show ?thesis using ed25519_verify_defined [of ssl k m s] by (cases "ed25519_verify ssl k m s") auto
next
  case Undefined
  then show ?thesis using base64url_decode_defined [OF assms] by blast
qed auto

section \<open>The contract of signed messages\<close>

text \<open>
  A signable message has a canonical text that does not depend on the signature; \<open>put t m\<close> is the
  message with algorithm \<open>Ed25519\<close> and signature \<open>t\<close>.
\<close>

locale signable =
  fixes canonical :: "'m \<Rightarrow> string" and sig_of :: "'m \<Rightarrow> string" and alg_of :: "'m \<Rightarrow> string"
    and put :: "string \<Rightarrow> 'm \<Rightarrow> 'm"
    and sign :: "('k, 'c) openssl \<Rightarrow> 'm \<Rightarrow> 'k option \<Rightarrow> 'm outcome"
  assumes sig_put: "sig_of (put t m) = t"
    and alg_put: "alg_of (put t m) = ''Ed25519''"
    and canonical_put: "canonical (put t m) = canonical (put [] m)"
    and sign_eq: "sign ssl m (Some k) =
      bind (ed25519_sign ssl (Some k) (canonical (put [] m))) (\<lambda>raw.
      bind (base64url_encode ssl raw) (\<lambda>text. Return (put text m)))"
begin

lemma sign_signature:
  assumes "evp_base64 ssl" and "ed25519_sign ssl (Some k) (canonical (put [] m)) = Return s"
    and "length s = 64"
  shows "\<exists>t. sign ssl m (Some k) = Return (put t m) \<and> length t = 88 \<and> base64url_decode ssl t = Return s"
proof (intro exI conjI)
  show "sign ssl m (Some k) = Return (put (url_safe (base64 s)) m)"
    using assms base64url_encode_eq [of ssl s] by (simp add: sign_eq)
  show "base64url_decode ssl (url_safe (base64 s)) = Return s"
    using assms base64url_decode_encoded [of ssl s] by simp
qed (simp add: length_base64 assms(3))

end

locale verifiable = signable canonical sig_of alg_of put sign
  for canonical :: "'m \<Rightarrow> string" and sig_of alg_of put
    and sign :: "('k, 'c) openssl \<Rightarrow> 'm \<Rightarrow> 'k option \<Rightarrow> 'm outcome" +
  fixes verify :: "('k, 'c) openssl \<Rightarrow> 'm \<Rightarrow> 'k option \<Rightarrow> bool outcome"
  assumes verify_eq: "verify ssl m (Some k) =
      (if alg_of m \<noteq> ''Ed25519'' \<or> sig_of m = [] then Return False
       else try_catch_all (bind (base64url_decode ssl (sig_of m)) (ed25519_verify ssl (Some k) (canonical m)))
         (Return False))"
    and verify_null: "verify ssl m None \<in> {Return False,
      try_catch_all (bind (base64url_decode ssl (sig_of m)) (ed25519_verify ssl None (canonical m))) (Return False)}"
begin

lemma sign_then_verify:
  assumes "evp_base64 ssl" and "evp_ed25519 ssl private_key public_key"
  shows "\<exists>t. sign ssl m (Some private_key) = Return (put t m) \<and> t \<noteq> [] \<and> length t = 88 \<and>
           verify ssl (put t m) (Some public_key) = Return True"
proof -
  obtain s where s: "length s = 64" "ed25519_sign ssl (Some private_key) (canonical (put [] m)) = Return s"
    "ed25519_verify ssl (Some public_key) (canonical (put [] m)) s = Return True"
    using ed25519_sign_verify [OF assms(2)] by blast
  obtain t where t: "sign ssl m (Some private_key) = Return (put t m)" "length t = 88"
    "base64url_decode ssl t = Return s"
    using sign_signature [OF assms(1) s(2,1)] by blast
  have "t \<noteq> []" using t(2) by auto
  moreover have "verify ssl (put t m) (Some public_key) = Return True"
    using \<open>t \<noteq> []\<close> t(3) s(3) by (simp add: verify_eq sig_put alg_put canonical_put [of t])
  ultimately show ?thesis using t(1,2) by blast
qed

lemma verify_total:
  assumes "evp_decode_bounded ssl"
  shows "\<exists>b. verify ssl m k = Return b"
  using caught_verify_total [OF assms] verify_null [of ssl m]
  by (cases k) (auto simp: verify_eq)

lemma verify_sound:
  assumes "verify ssl m k = Return True"
  shows "\<exists>s. base64url_decode ssl (sig_of m) = Return s \<and> evp_accepts ssl k (canonical m) s"
  using assms verify_null [of ssl m] caught_verify_eq_True [of ssl "sig_of m" k "canonical m"]
  by (cases k) (auto simp: verify_eq split: if_splits)

end

interpretation request_sig: signable canonical_job_request_json JobRequest.signature
  JobRequest.signature_algorithm
  "\<lambda>t m. m\<lparr>JobRequest.signature_algorithm := ''Ed25519'', JobRequest.signature := t\<rparr>" sign_job_request
  by unfold_locales (simp_all add: canonical_job_request_json_def sign_job_request_def)

interpretation result_auth: verifiable canonical_job_result_json JobResult.signature
  JobResult.signature_algorithm
  "\<lambda>t m. m\<lparr>JobResult.signature_algorithm := ''Ed25519'', JobResult.signature := t\<rparr>" sign_job_result
  verify_job_result
  by unfold_locales (simp_all add: canonical_job_result_json_def sign_job_result_def verify_job_result_def)

interpretation failure_auth: verifiable canonical_failure_notice_json FailureNotice.signature
  FailureNotice.signature_algorithm
  "\<lambda>t m. m\<lparr>FailureNotice.signature_algorithm := ''Ed25519'', FailureNotice.signature := t\<rparr>"
  sign_failure_notice verify_failure_notice
  by unfold_locales
    (simp_all add: canonical_failure_notice_json_def sign_failure_notice_def verify_failure_notice_def)

section \<open>Keys and their owners\<close>

text \<open>
  A key that accepts only the canonical payloads of the requests, results and notices its owner signed: what
  the signature scheme promises of a key whose private part only the owner holds.
\<close>

definition signs_only ::
    "('k, 'c) openssl \<Rightarrow> 'k option \<Rightarrow> JobRequest set \<Rightarrow> JobResult set \<Rightarrow> FailureNotice set \<Rightarrow> bool" where
  "signs_only ssl public_key Q R N \<longleftrightarrow>
     (\<forall>m s. evp_accepts ssl public_key m s \<longrightarrow>
        m \<in> canonical_job_request_json ` Q \<union> canonical_job_result_json ` R \<union> canonical_failure_notice_json ` N)"

lemma result_issued:
  assumes "signs_only ssl k Q R N" and "verify_job_result ssl r k = Return True"
  shows "\<exists>r' \<in> R. r\<lparr>JobResult.signature := []\<rparr> = r'\<lparr>JobResult.signature := []\<rparr>"
proof -
  have "canonical_job_result_json r \<in> canonical_job_request_json ` Q \<union> canonical_job_result_json ` R
      \<union> canonical_failure_notice_json ` N"
    using result_auth.verify_sound [OF assms(2)] assms(1) unfolding signs_only_def by blast
  then obtain r' where "r' \<in> R" "canonical_job_result_json r = canonical_job_result_json r'"
    using canonical_kinds_differ(1,3) by (metis UnE imageE)
  then show ?thesis using canonical_job_result_unique [of r r' "[]"] by blast
qed

lemma failure_issued:
  assumes "signs_only ssl k Q R N" and "verify_failure_notice ssl n k = Return True"
  shows "\<exists>n' \<in> N. n\<lparr>FailureNotice.signature := []\<rparr> = n'\<lparr>FailureNotice.signature := []\<rparr>"
proof -
  have "canonical_failure_notice_json n \<in> canonical_job_request_json ` Q \<union> canonical_job_result_json ` R
      \<union> canonical_failure_notice_json ` N"
    using failure_auth.verify_sound [OF assms(2)] assms(1) unfolding signs_only_def by blast
  then obtain n' where "n' \<in> N" "canonical_failure_notice_json n = canonical_failure_notice_json n'"
    using canonical_kinds_differ(2,3) by (metis UnE imageE)
  then show ?thesis using canonical_failure_notice_unique [of n n' "[]"] by blast
qed

section \<open>Properties\<close>

text \<open>
  Claim C11. A job result signed with a private key, sent as an envelope and parsed on the other side
  is the signed result and verifies under the matching public key; and so it is with a failure notice.
\<close>

theorem signed_message_end_to_end:
  assumes "evp_base64 ssl" and "evp_ed25519 ssl private_key public_key"
    and "completed_at r \<noteq> int64_min" and "observed_at n \<noteq> int64_min"
  shows "(\<exists>r'. sign_job_result ssl r (Some private_key) = Return r' \<and>
            parse_job_result_envelope_json (job_result_envelope_json r') = Return r' \<and>
            verify_job_result ssl r' (Some public_key) = Return True) \<and>
         (\<exists>n'. sign_failure_notice ssl n (Some private_key) = Return n' \<and>
            parse_failure_notice_envelope_json (failure_notice_envelope_json n') = Return n' \<and>
            verify_failure_notice ssl n' (Some public_key) = Return True)"
proof
  show "\<exists>r'. sign_job_result ssl r (Some private_key) = Return r' \<and>
      parse_job_result_envelope_json (job_result_envelope_json r') = Return r' \<and>
      verify_job_result ssl r' (Some public_key) = Return True"
    using result_auth.sign_then_verify [OF assms(1,2), of r] result_message.roundtrip assms(3) by force
  show "\<exists>n'. sign_failure_notice ssl n (Some private_key) = Return n' \<and>
      parse_failure_notice_envelope_json (failure_notice_envelope_json n') = Return n' \<and>
      verify_failure_notice ssl n' (Some public_key) = Return True"
    using failure_auth.sign_then_verify [OF assms(1,2), of n] failure_message.roundtrip assms(4) by force
qed

theorem signed_message_end_to_end_witness:
  "(\<exists>r'. sign_job_result sample_ssl JobResult_default (Some 7) = Return r' \<and>
      parse_job_result_envelope_json (job_result_envelope_json r') = Return r' \<and>
      verify_job_result sample_ssl r' (Some 7) = Return True) \<and>
   (\<exists>n'. sign_failure_notice sample_ssl FailureNotice_default (Some 7) = Return n' \<and>
      parse_failure_notice_envelope_json (failure_notice_envelope_json n') = Return n' \<and>
      verify_failure_notice sample_ssl n' (Some 7) = Return True)"
proof (rule signed_message_end_to_end [OF sample_ssl_base64 sample_ssl_ed25519])
  show "completed_at JobResult_default \<noteq> int64_min" by (simp add: JobResult_default_def)
  show "observed_at FailureNotice_default \<noteq> int64_min" by (simp add: FailureNotice_default_def)
qed

text \<open>
  Claim C32. Verification of a result and of a failure notice always returns a truth value, whatever
  the message, the signature text and the key (the null pointer included): malformed base64, a
  failed allocation or a rejected key never escape as an exception.
\<close>

theorem verification_never_throws:
  assumes "evp_decode_bounded ssl"
  shows "verify_job_result ssl r k \<in> {Return True, Return False} \<and>
         verify_failure_notice ssl n k \<in> {Return True, Return False}"
  using result_auth.verify_total [OF assms, of r k] failure_auth.verify_total [OF assms, of n k] by auto

theorem verification_never_throws_witness:
  "verify_job_result sample_ssl JobResult_default None \<in> {Return True, Return False} \<and>
   verify_failure_notice sample_ssl (FailureNotice_default\<lparr>FailureNotice.signature := ''?''\<rparr>) None
     \<in> {Return True, Return False}"
  by (rule verification_never_throws [OF sample_ssl_bounded])

text \<open>
  Claim C10. Authenticity: if the verification key accepts only texts that its owner signed, and the owner
  signs only canonical payloads (of requests, results and notices), then every result that verifies is one
  of the owner's results, and every failure notice one of the owner's notices, unchanged in every field but
  the signature; a payload signed for another message or another kind of message never makes one verify.
\<close>

theorem verified_message_authentic:
  assumes "signs_only ssl public_key Q R N"
  shows "(verify_job_result ssl r public_key = Return True \<longrightarrow>
      (\<exists>r' \<in> R. r\<lparr>JobResult.signature := []\<rparr> = r'\<lparr>JobResult.signature := []\<rparr>)) \<and>
    (verify_failure_notice ssl n public_key = Return True \<longrightarrow>
      (\<exists>n' \<in> N. n\<lparr>FailureNotice.signature := []\<rparr> = n'\<lparr>FailureNotice.signature := []\<rparr>))"
  using result_issued [OF assms, of r] failure_issued [OF assms, of n] by blast

text \<open>A verifier that knows a single signed text.\<close>

definition single_text_ssl :: "string \<Rightarrow> (nat, nat option) openssl" where
  "single_text_ssl known =
     sample_ssl\<lparr>EVP_DigestVerify := (\<lambda>ctx s m. if m = bytes_of_string known then 1 else 0)\<rparr>"

theorem verified_message_authentic_witness:
  "\<exists>r' \<in> {JobResult_default}.
     (JobResult_default\<lparr>JobResult.signature := url_safe (base64 [1, 2, 3])\<rparr>)\<lparr>JobResult.signature := []\<rparr>
       = r'\<lparr>JobResult.signature := []\<rparr>"
proof -
  let ?ssl = "single_text_ssl (canonical_job_result_json JobResult_default)"
  have c: "canonical_job_result_json (r\<lparr>JobResult.signature := s\<rparr>) = canonical_job_result_json r" for r s
    by (simp add: canonical_job_result_json_def)
  have "evp_base64 ?ssl"
    using sample_ssl_base64 by (simp add: evp_base64_def single_text_ssl_def)
  then have "base64url_decode ?ssl (url_safe (base64 [1, 2, 3])) = Return [1, 2, 3]"
    using base64url_decode_encoded [of ?ssl "[1, 2, 3]"] by simp
  moreover have "url_safe (base64 [1, 2, 3]) \<noteq> []"
    by (simp add: url_safe_def replace_char_def quad_def)
  ultimately have "verify_job_result ?ssl
      (JobResult_default\<lparr>JobResult.signature := url_safe (base64 [1, 2, 3])\<rparr>) (Some 1) = Return True"
    by (simp add: verify_job_result_def c ed25519_verify_def)
      (simp add: JobResult_default_def single_text_ssl_def sample_ssl_def)
  moreover have "signs_only ?ssl (Some 1) {} {JobResult_default} {}"
  proof -
    have "m = m'" if "bytes_of_string m = bytes_of_string m'" for m m'
      using that by (metis string_of_bytes_of_string)
    then show ?thesis by (auto simp: signs_only_def evp_accepts_def single_text_ssl_def split: if_splits)
  qed
  ultimately show ?thesis using verified_message_authentic by blast
qed

end
