(* ===== verification/Python_Messages.thy ===== *)
theory Python_Messages
  imports Python_Interop Messages Framing Job_Auth "HOL-Library.List_Lexorder" "HOL-Library.Char_ord"
begin

text \<open>
  The messages a Python node sends to a C++ node: the results of \<open>job.py\<close> and the failure notices of
  \<open>capability.py\<close>, printed by \<open>json.dumps\<close>, signed over \<open>canonical_json\<close> and framed by \<open>send_frame\<close> of
  \<open>transport.py\<close>.  The text \<open>json.dumps\<close> makes is ASCII, so encoding it as UTF-8 gives its characters as bytes;
  the signing function of the \<open>cryptography\<close> package is a parameter.
\<close>

section \<open>Values and their printed form\<close>

datatype py_value =
    PyNone | PyInt int | PyStr "nat list" | PyList "py_value list" | PyDict "(string \<times> py_value) list"

text \<open>A literal of the source as a Python string.\<close>

abbreviation py_str :: "string \<Rightarrow> nat list" where
  "py_str s \<equiv> map of_char s"

fun py_members :: "(string \<times> string) list \<Rightarrow> string" where
  "py_members [] = []"
| "py_members [(k, t)] = python_json_string (py_str k) @ [CHR '':''] @ t"
| "py_members ((k, t) # m # ms) = python_json_string (py_str k) @ [CHR '':''] @ t @ [CHR '',''] @ py_members (m # ms)"

fun py_elements :: "string list \<Rightarrow> string" where
  "py_elements [] = []"
| "py_elements [t] = t"
| "py_elements (t # u # us) = t @ [CHR '',''] @ py_elements (u # us)"

lemma py_member_size: "(k, v) \<in> set kvs \<Longrightarrow> size v < Suc (size_list (size_prod (\<lambda>x. 0) size) kvs)"
  by (induction kvs) auto

text \<open>\<open>json.dumps(value, sort_keys=True, separators=(",", ":"))\<close>\<close>

function json_dumps :: "py_value \<Rightarrow> string" where
  "json_dumps PyNone = ''null''"
| "json_dumps (PyInt i) = dec_int i"
| "json_dumps (PyStr s) = python_json_string s"
| "json_dumps (PyList vs) = [CHR ''[''] @ py_elements (map json_dumps vs) @ [CHR '']'']"
| "json_dumps (PyDict kvs) =
     [CHR ''{''] @ py_members (map (\<lambda>(k, v). (k, json_dumps v)) (sort_key fst kvs)) @ [CHR ''}'']"
  by pat_completeness auto

termination json_dumps
  by (relation "measure size") (auto dest: py_member_size size_list_estimation' [where f = size, OF _ order_refl] simp: less_Suc_eq_le)

definition canonical_json :: "(string \<times> py_value) list \<Rightarrow> string" where
  "canonical_json value = json_dumps (PyDict value)"

text \<open>The flat objects of the messages, once sorted, are joined as on the C++ side.\<close>

lemma python_plain_key:
  "plain_key k \<Longrightarrow> \<forall>c \<in> set k. (of_char c :: nat) < 0x7f \<Longrightarrow> python_json_string (py_str k) @ [CHR '':''] = quoted_key k"
proof -
  assume a: "plain_key k" "\<forall>c \<in> set k. (of_char c :: nat) < 0x7f"
  then have "concat (map python_escape (py_str k)) = k"
    by (induction k) (simp_all add: python_escape_ascii plain_key_def)
  then show ?thesis by (simp add: python_json_string_def quoted_key_def)
qed

definition ascii_key :: "string \<Rightarrow> bool" where
  "ascii_key k \<longleftrightarrow> plain_key k \<and> (\<forall>c \<in> set k. (of_char c :: nat) < 0x7f)"

lemma py_members_join:
  assumes "\<forall>(k, v) \<in> set kvs. ascii_key k"
  shows "py_members (map (\<lambda>(k, v). (k, json_dumps v)) kvs) = join_fields json_dumps kvs"
  using assms
proof (induction kvs rule: induct_list012)
  case (3 e f kvs)
  then show ?case
    using python_plain_key [of "fst e"] by (cases e; cases f) (simp add: ascii_key_def flip: append_assoc)
next
  case (2 e)
  then show ?case using python_plain_key [of "fst e"] by (cases e) (simp add: ascii_key_def flip: append_assoc)
qed simp

lemma canonical_json_join:
  assumes "\<forall>(k, v) \<in> set kvs. ascii_key k"
  shows "canonical_json kvs = join_object json_dumps (sort_key fst kvs)"
  using py_members_join [of "sort_key fst kvs"] assms by (simp add: canonical_json_def join_object_def)

section \<open>The C++ reader on Python objects\<close>

lemma dec_int_word: "- (2 ^ 63) \<le> i \<Longrightarrow> i < 2 ^ 63 \<Longrightarrow> dec_int i = dec_int64 (word_of_int i)"
  by (simp add: dec_int64_def sint_word_of_int_64)

lemma scan_unit_escape:
  "spec_scan True False d i (unit_escape n @ s) = spec_scan True False d (i + length (unit_escape n)) s"
proof -
  have "\<forall>x \<in> set (hex4 n). x \<noteq> CHR 0x5C \<and> x \<noteq> CHR 0x22"
    by (simp add: hex4_def hex_char_quiet)
  then show ?thesis using spec_scan_in_string_plain [of "hex4 n" d "i + 2" s] by (simp add: unit_escape_def)
qed

lemma scan_python_escape:
  "spec_scan True False d i (python_escape c @ s) = spec_scan True False d (i + length (python_escape c)) s"
proof -
  consider (ascii) "c < 0x7f" | (unit) "0x7f \<le> c" "c < 0x10000" | (pair) "0x10000 \<le> c" by linarith
  then show ?thesis
  proof cases
    case ascii
    then show ?thesis by (simp only: python_escape_ascii spec_scan_escape)
  next
    case unit
    then show ?thesis by (simp add: python_escape_def scan_unit_escape)
  next
    case pair
    then show ?thesis by (simp add: python_escape_def scan_unit_escape add.assoc)
  qed
qed

lemma scan_python_string:
  "spec_scan False False d i (python_json_string v @ s) = spec_scan False False d (i + length (python_json_string v)) s"
proof -
  have "spec_scan True False d i (concat (map python_escape v) @ CHR 0x22 # s)
      = spec_scan False False d (i + length (concat (map python_escape v)) + 1) s" for i
    by (induction v arbitrary: i) (simp_all add: scan_python_escape add.assoc)
  from this [of "i + 1"] show ?thesis by (simp add: python_json_string_def add.commute)
qed

lemma scan_dec_int:
  "spec_scan False False d i (dec_int j @ s) = spec_scan False False d (i + length (dec_int j)) s"
  by (rule spec_scan_quiet) (auto simp: dec_int_def dest!: bspec [OF dec_nat_digits] digit_quiet)

text \<open>What a Python value stands for on the C++ side, and which values can be read there.\<close>

fun py_meaning :: "py_value \<Rightarrow> field_value" where
  "py_meaning (PyInt i) = IntV (word_of_int i)"
| "py_meaning (PyStr s) = StrV (concat (map utf8 s))"
| "py_meaning v = StrV []"

fun py_flat :: "py_value \<Rightarrow> bool" where
  "py_flat (PyInt i) \<longleftrightarrow> True"
| "py_flat (PyStr s) \<longleftrightarrow> True"
| "py_flat v \<longleftrightarrow> False"

fun py_readable :: "py_value \<Rightarrow> bool" where
  "py_readable (PyInt i) \<longleftrightarrow> - (2 ^ 63) < i \<and> i < 2 ^ 63"
| "py_readable (PyStr s) \<longleftrightarrow> (\<forall>c \<in> set s. scalar c)"
| "py_readable v \<longleftrightarrow> False"

lemma py_read_value:
  assumes "py_readable v" and "number_ends u"
  shows "spec_value (kind_of (py_meaning v)) (json_dumps v @ u) = Return (py_meaning v, u)"
proof (cases v)
  case (PyInt i)
  then have i: "- (2 ^ 63) < i" "i < 2 ^ 63" using assms(1) by simp_all
  then have "sint (word_of_int i :: int64) = i" by (intro sint_word_of_int_64) simp_all
  then have "word_of_int i \<noteq> int64_min" using i sint_int64_min by (metis less_irrefl)
  then have "spec_integer (dec_int64 (word_of_int i) @ u) = Return (word_of_int i, u)"
    using assms(2) by (rule i64.decode)
  then show ?thesis using PyInt i dec_int_word [of i] by simp
qed (use assms in \<open>simp_all add: spec_read_python_string\<close>)

interpretation py_codec: message_codec json_dumps py_meaning py_readable py_flat
proof
  fix v d i s
  show "spec_scan False False d i (json_dumps v @ s) = spec_scan False False d (i + length (json_dumps v)) s" if "py_flat v"
    using that by (cases v) (simp_all add: scan_python_string scan_dec_int)
  show "py_flat v" if "py_readable v"
    using that by (cases v) simp_all
qed (rule py_read_value)

section \<open>Frames\<close>

text \<open>The exceptions that occur; \<open>JSONDecodeError\<close> and the errors of Unicode are kinds of \<open>ValueError\<close>.
  \<open>Untyped\<close> is no exception: it marks values whose type is not the one the source annotates, where the model ends.\<close>

datatype py_error =
    ValueError string | UnicodeError | JSONDecodeError | TypeError string | ConnectionError string |
    KeyError string | RecursionError | AssertionError | Untyped

definition MAX_FRAME_BYTES :: nat where
  "MAX_FRAME_BYTES = 1024 * 1024"

text \<open>\<open>struct.pack("!I", n)\<close>\<close>

definition pack_uint :: "nat \<Rightarrow> byte list" where
  "pack_uint n = map (\<lambda>k. word_of_nat (n div 256 ^ k mod 256)) [3, 2, 1, 0]"

definition frame_body :: "nat list \<Rightarrow> (string \<times> py_value) list \<Rightarrow> string" where
  "frame_body message_type value = json_dumps (PyDict [(''type'', PyStr message_type), (''payload'', PyDict value)])"

text \<open>The bytes \<open>send_frame\<close> hands to \<open>sendall\<close>.\<close>

definition send_frame :: "nat list \<Rightarrow> (string \<times> py_value) list \<Rightarrow> py_error + byte list" where
  "send_frame message_type value =
     (let body = frame_body message_type value in
      if length body > MAX_FRAME_BYTES then Inl (ValueError ''frame too large'')
      else Inr (pack_uint (length body) @ bytes_of_string body))"

lemma pack_uint_size_bytes:
  assumes "n < 2 ^ 32"
  shows "pack_uint n = size_bytes (word_of_nat n)"
proof -
  have "unat (word_of_nat n :: uint32) = n" using assms by (simp add: unat_of_nat)
  then have "unat (drop_bit k (word_of_nat n :: uint32)) = n div 2 ^ k" for k
    using assms by (simp only: unsigned_drop_bit_eq) (simp add: drop_bit_eq_div take_bit_nat_eq_self)
  then have "ucast (drop_bit k (word_of_nat n :: uint32)) = (word_of_nat (n div 2 ^ k mod 256) :: byte)" for k
    by (simp only: word_unat_eq_iff unsigned_ucast_eq) (simp add: unat_of_nat take_bit_eq_mod)
  from this [of 24] this [of 16] this [of 8] this [of 0] show ?thesis
    by (simp add: pack_uint_def size_bytes_ucast)
qed

text \<open>A Python frame is a C++ frame of the same text.\<close>

lemma send_frame_encode:
  assumes "send_frame ty value = Inr bytes"
  shows "encode_frame (frame_body ty value) = Return bytes"
proof -
  have "length (frame_body ty value) \<le> 1024 * 1024"
    and b: "bytes = pack_uint (length (frame_body ty value)) @ bytes_of_string (frame_body ty value)"
    using assms by (auto simp: send_frame_def MAX_FRAME_BYTES_def Let_def split: if_splits)
  moreover have "frame_body ty value \<noteq> []" by (simp add: frame_body_def)
  ultimately show ?thesis
    using pack_uint_size_bytes [of "length (frame_body ty value)"]
    by (simp add: encode_frame_eq_Return kMaxFrameBytes_def)
qed

lemma frame_body_join:
  assumes "\<forall>(k, v) \<in> set kvs. ascii_key k" and "ascii_key ty"
  shows "frame_body (py_str ty) kvs = join_envelope ty (join_object json_dumps (sort_key fst kvs))"
proof -
  have "concat (map python_escape (py_str ty)) = ty"
    using assms(2) by (induction ty) (simp_all add: python_escape_ascii plain_key_def ascii_key_def)
  then have "python_json_string (py_str ty) = [CHR 0x22] @ ty @ [CHR 0x22]"
    by (simp add: python_json_string_def)
  moreover have \<open>python_json_string (py_str ''type'') = ''"type"''\<close> \<open>python_json_string (py_str ''payload'') = ''"payload"''\<close>
    by (simp_all add: python_json_string_def python_escape_def char_of_eq_iff)
  ultimately show ?thesis
    using canonical_json_join [OF assms(1)]
    by (simp add: frame_body_def canonical_json_def join_envelope_def envelope_prefix_def type_prefix_def
        less_eq_char_def less_char_def del: json_dumps.simps(5)) (simp add: less_eq_char_def less_char_def)
qed

section \<open>Where both sides print the same object\<close>

text \<open>Values of ASCII characters without DEL, and integers.\<close>

fun py_ascii :: "py_value \<Rightarrow> bool" where
  "py_ascii (PyStr s) \<longleftrightarrow> (\<forall>c \<in> set s. c < 0x7f)"
| "py_ascii v \<longleftrightarrow> True"

lemma not_py_ascii: "\<not> py_ascii v \<longleftrightarrow> (\<exists>s. v = PyStr s \<and> \<not> (\<forall>c \<in> set s. c < 0x7f))"
  by (cases v) auto

abbreviation on_cpp_side :: "(string \<times> py_value) list \<Rightarrow> (string \<times> field_value) list" where
  "on_cpp_side kvs \<equiv> map (\<lambda>(k, v). (k, py_meaning v)) kvs"

lemma json_dumps_ascii: "py_readable v \<Longrightarrow> py_ascii v \<Longrightarrow> json_dumps v = write_value (py_meaning v)"
  by (cases v) (simp_all add: dec_int_word strings_agree)

lemma join_fields_agree:
  "\<forall>(k, v) \<in> set kvs. json_dumps v = write_value (py_meaning v) \<Longrightarrow>
     join_fields json_dumps kvs = join_fields write_value (on_cpp_side kvs)"
  by (induction kvs rule: induct_list012) auto

lemma join_fields_contains: "(k, v) \<in> set kvs \<Longrightarrow> set (shown v) \<subseteq> set (join_fields shown kvs)"
  by (induction kvs rule: induct_list012) (force split: prod.splits)+

lemma json_dumps_printable:
  assumes "py_flat v" and "ch \<in> set (json_dumps v)"
  shows "(of_char ch :: nat) < 0x7f"
proof (cases v)
  case (PyInt i)
  then show ?thesis
    using assms(2) dec_nat_digits [of "nat i"] dec_nat_digits [of "nat (- i)"]
    by (auto simp: dec_int_def is_digit_def split: if_splits)
qed (use assms python_json_string_printable in auto)

lemma join_fields_printable:
  assumes "\<forall>(k, v) \<in> set kvs. ascii_key k \<and> py_flat v" and "ch \<in> set (join_fields json_dumps kvs)"
  shows "(of_char ch :: nat) < 0x7f"
  using assms
proof (induction kvs rule: induct_list012)
  case (2 e)
  then show ?case
    by (cases e) (auto simp: quoted_key_def ascii_key_def dest: json_dumps_printable)
next
  case (3 e f kvs)
  then show ?case
    by (cases e) (auto simp: quoted_key_def ascii_key_def dest: json_dumps_printable)
qed simp

lemma objects_agree:
  assumes "\<forall>(k, v) \<in> set kvs. ascii_key k \<and> py_readable v"
  shows "join_object json_dumps kvs = write_object (on_cpp_side kvs) \<longleftrightarrow> (\<forall>(k, v) \<in> set kvs. py_ascii v)"
proof
  assume eq: "join_object json_dumps kvs = write_object (on_cpp_side kvs)"
  show "\<forall>(k, v) \<in> set kvs. py_ascii v"
  proof (rule ccontr)
    assume "\<not> (\<forall>(k, v) \<in> set kvs. py_ascii v)"
    then obtain k v where "(k, v) \<in> set kvs" "\<not> py_ascii v" by blast
    then obtain s where s: "(k, PyStr s) \<in> set kvs" "\<not> (\<forall>c \<in> set s. c < 0x7f)"
      unfolding not_py_ascii by blast
    then obtain c where c: "c \<in> set s" "0x7f \<le> c" "c \<le> 0x10ffff" using assms by (fastforce simp: scalar_def)
    then obtain ch where ch: "ch \<in> set (utf8 c)" "0x7f \<le> (of_char ch :: nat)" using utf8_high by blast
    then have "ch \<in> set (write_value (py_meaning (PyStr s)))"
      using c(1) json_string_high [of ch "concat (map utf8 s)"] by auto
    moreover have "(k, py_meaning (PyStr s)) \<in> set (on_cpp_side kvs)" using s(1) by force
    ultimately have "ch \<in> set (join_fields write_value (on_cpp_side kvs))"
      using join_fields_contains [of k "py_meaning (PyStr s)" "on_cpp_side kvs" write_value] by auto
    moreover have "\<forall>(k, v) \<in> set kvs. ascii_key k \<and> py_flat v" using assms py_codec.ok_safe by fast
    ultimately show False
      using eq ch(2) join_fields_printable [of kvs ch] by (auto simp: join_object_def)
  qed
next
  assume "\<forall>(k, v) \<in> set kvs. py_ascii v"
  then have "\<forall>(k, v) \<in> set kvs. json_dumps v = write_value (py_meaning v)" using assms json_dumps_ascii by fast
  then show "join_object json_dumps kvs = write_object (on_cpp_side kvs)" by (simp add: join_object_def join_fields_agree)
qed

section \<open>The messages\<close>

record PyJobResult =
  protocol_version :: "nat list"
  message_id :: "nat list"
  request_id :: "nat list"
  responder_node_id :: "nat list"
  recipient_node_id :: "nat list"
  status :: "nat list"
  payload :: "nat list"
  completed_at :: int
  signature_algorithm :: "nat list"
  signature :: "nat list"

definition result_asdict :: "PyJobResult \<Rightarrow> (string \<times> py_value) list" where
  "result_asdict r =
     [(''protocol_version'', PyStr (protocol_version r)), (''message_id'', PyStr (message_id r)),
      (''request_id'', PyStr (request_id r)), (''responder_node_id'', PyStr (responder_node_id r)),
      (''recipient_node_id'', PyStr (recipient_node_id r)), (''status'', PyStr (status r)),
      (''payload'', PyStr (payload r)), (''completed_at'', PyInt (completed_at r)),
      (''signature_algorithm'', PyStr (signature_algorithm r)), (''signature'', PyStr (signature r))]"

text \<open>\<open>value.pop("signature")\<close>\<close>

definition without_signature :: "(string \<times> py_value) list \<Rightarrow> (string \<times> py_value) list" where
  "without_signature value = filter (\<lambda>kv. fst kv \<noteq> ''signature'') value"

lemma set_without_signature: "set (without_signature kvs) \<subseteq> set kvs"
  by (auto simp: without_signature_def)

lemma canonical_agrees:
  assumes "\<forall>(k, v) \<in> set kvs. ascii_key k" and "\<forall>(k, v) \<in> set kvs. py_readable v"
  shows "canonical_json (without_signature kvs) = write_object (on_cpp_side (sort_key fst (without_signature kvs))) \<longleftrightarrow>
    (\<forall>(k, v) \<in> set (without_signature kvs). py_ascii v)"
proof -
  have keys: "\<forall>(k, v) \<in> set (without_signature kvs). ascii_key k" using assms(1) set_without_signature by fast
  have "\<forall>(k, v) \<in> set (sort_key fst (without_signature kvs)). ascii_key k \<and> py_readable v"
    using keys assms(2) set_without_signature by fastforce
  from objects_agree [OF this] show ?thesis by (simp add: canonical_json_join [OF keys])
qed

lemma result_keys: "\<forall>(k, v) \<in> set (result_asdict r). ascii_key k"
  by (simp add: result_asdict_def ascii_key_def plain_key_def json_escape_def)

lemma result_sorted:
  "sort_key fst (result_asdict r) =
     [(''completed_at'', PyInt (completed_at r)), (''message_id'', PyStr (message_id r)), (''payload'', PyStr (payload r)),
      (''protocol_version'', PyStr (protocol_version r)), (''recipient_node_id'', PyStr (recipient_node_id r)),
      (''request_id'', PyStr (request_id r)), (''responder_node_id'', PyStr (responder_node_id r)),
      (''signature'', PyStr (signature r)), (''signature_algorithm'', PyStr (signature_algorithm r)),
      (''status'', PyStr (status r))]"
  by (simp add: result_asdict_def less_eq_char_def less_char_def)

lemma result_unsigned_sorted:
  "sort_key fst (without_signature (result_asdict r)) =
     [(''completed_at'', PyInt (completed_at r)), (''message_id'', PyStr (message_id r)), (''payload'', PyStr (payload r)),
      (''protocol_version'', PyStr (protocol_version r)), (''recipient_node_id'', PyStr (recipient_node_id r)),
      (''request_id'', PyStr (request_id r)), (''responder_node_id'', PyStr (responder_node_id r)),
      (''signature_algorithm'', PyStr (signature_algorithm r)), (''status'', PyStr (status r))]"
  by (simp add: result_asdict_def without_signature_def less_eq_char_def less_char_def)

text \<open>The result as C++ holds it: the UTF-8 bytes of every field.\<close>

abbreviation utf8_of :: "nat list \<Rightarrow> string" where
  "utf8_of s \<equiv> concat (map utf8 s)"

definition received_result :: "PyJobResult \<Rightarrow> JobResult" where
  "received_result r = \<lparr>JobResult.protocol_version = utf8_of (protocol_version r),
     JobResult.message_id = utf8_of (message_id r), JobResult.request_id = utf8_of (request_id r),
     JobResult.responder_node_id = utf8_of (responder_node_id r),
     JobResult.recipient_node_id = utf8_of (recipient_node_id r), JobResult.status = utf8_of (status r),
     JobResult.payload = utf8_of (payload r), JobResult.completed_at = word_of_int (completed_at r),
     JobResult.signature_algorithm = utf8_of (signature_algorithm r), JobResult.signature = utf8_of (signature r)\<rparr>"

lemma received_result_fields:
  "job_result_fields (received_result r) = on_cpp_side (sort_key fst (without_signature (result_asdict r)))"
  by (simp add: result_unsigned_sorted job_result_fields_def received_result_def)

lemma result_canonical_agrees:
  assumes "\<forall>(k, v) \<in> set (result_asdict r). py_readable v"
  shows "canonical_json (without_signature (result_asdict r)) = canonical_job_result_json (received_result r) \<longleftrightarrow>
    (\<forall>(k, v) \<in> set (without_signature (result_asdict r)). py_ascii v)"
  using canonical_agrees [OF result_keys assms] by (simp add: canonical_job_result_json_object received_result_fields)

lemma result_parsed:
  assumes "\<forall>(k, v) \<in> set (result_asdict r). py_readable v"
  shows "parse_job_result_envelope_json (frame_body (py_str ''JOB_RESULT'') (result_asdict r)) = Return (received_result r)"
proof -
  let ?kvs = "sort_key fst (result_asdict r)"
  have ok: "\<forall>(k, v) \<in> set ?kvs. plain_key k \<and> py_readable v"
    using assms result_keys [of r] by (fastforce simp: ascii_key_def)
  have ty: "ascii_key ''JOB_RESULT''" by (simp add: ascii_key_def plain_key_def json_escape_def)
  have "py_codec.schema ?kvs = job_result_schema"
    by (simp add: result_sorted job_result_schema_def with_signature_def job_result_fields_def)
  moreover have "job_result_of (map (\<lambda>(k, v). py_meaning v) ?kvs) = received_result r"
    by (simp add: result_sorted job_result_of_def received_result_def)
  ultimately show ?thesis
    unfolding frame_body_join [OF result_keys ty] parse_job_result_refines
    using py_codec.parse_joined [OF ok, of "''JOB_RESULT''" job_result_of] by simp
qed

section \<open>Signing\<close>

text \<open>\<open>base64.urlsafe_b64encode\<close>: the standard alphabet with the two characters replaced, padding kept.\<close>

definition py_b64 :: "byte list \<Rightarrow> nat list" where
  "py_b64 data = py_str (url_safe (base64 data))"

text \<open>\<open>JobResult.validate\<close>; an empty string is falsy.\<close>

definition result_validate :: "PyJobResult \<Rightarrow> py_error option" where
  "result_validate r =
     (if \<not> list_all (\<lambda>s. s \<noteq> []) [protocol_version r, message_id r, request_id r, responder_node_id r, recipient_node_id r,
          status r]
      then Some (ValueError ''missing job result field'')
      else if status r \<notin> {py_str ''OK'', py_str ''ERROR''} then Some (ValueError ''invalid job result status'')
      else if completed_at r < 0 then Some (ValueError ''negative completion time'')
      else if signature_algorithm r \<noteq> py_str ''Ed25519'' then Some (ValueError ''unsupported signature algorithm'')
      else None)"

definition py_sign_job_result :: "(byte list \<Rightarrow> byte list) \<Rightarrow> PyJobResult \<Rightarrow> py_error + PyJobResult" where
  "py_sign_job_result sign r =
     (case result_validate r of Some e \<Rightarrow> Inl e
      | None \<Rightarrow>
        let unsigned = r\<lparr>signature := []\<rparr>;
            sig = sign (bytes_of_string (canonical_json (without_signature (result_asdict unsigned))))
        in Inr (unsigned\<lparr>signature := py_b64 sig\<rparr>))"

text \<open>A private key of the \<open>cryptography\<close> package whose signatures the C++ side accepts under \<open>public_key\<close>.\<close>

definition signs_for :: "('k, 'c) openssl \<Rightarrow> 'k \<Rightarrow> (byte list \<Rightarrow> byte list) \<Rightarrow> bool" where
  "signs_for ssl public_key sign \<longleftrightarrow>
     (\<forall>m. length (sign m) = 64 \<and> evp_accepts ssl (Some public_key) (string_of_bytes m) (sign m))"

lemma b64_char_ascii: "(of_char (b64_char (d mod 64)) :: nat) < 0x7f"
  using of_b64_char [of "d mod 64"] by auto

lemma base64_ascii: "c \<in> set (base64 x) \<Longrightarrow> (of_char c :: nat) < 0x7f"
  by (induction x rule: base64.induct) (auto simp: quad_def b64_char_ascii)

lemma url_safe_ascii: "c \<in> set (url_safe (base64 x)) \<Longrightarrow> (of_char c :: nat) < 0x7f"
  unfolding url_safe_def replace_char_def by (auto dest: base64_ascii split: if_splits)

lemma utf8_of_ascii: "\<forall>c \<in> set s. (of_char c :: nat) < 0x7f \<Longrightarrow> utf8_of (py_str s) = s"
  by (induction s) (simp_all add: python_escape_ascii)

lemma received_signed:
  "received_result (r\<lparr>signature := py_b64 sig\<rparr>) = (received_result r)\<lparr>JobResult.signature := url_safe (base64 sig)\<rparr>"
  using utf8_of_ascii [of "url_safe (base64 sig)"] url_safe_ascii [of _ sig]
  by (simp add: received_result_def py_b64_def del: map_map)

lemma unsigned_signed: "without_signature (result_asdict (r\<lparr>signature := s\<rparr>)) = without_signature (result_asdict r)"
  by (simp add: result_asdict_def without_signature_def)

lemma validated_algorithm:
  assumes "result_validate r = None"
  shows "JobResult.signature_algorithm (received_result r) = ''Ed25519''"
proof -
  have "signature_algorithm r = py_str ''Ed25519''" using assms by (simp add: result_validate_def split: if_splits)
  moreover have "utf8_of (py_str ''Ed25519'') = ''Ed25519''" by (rule utf8_of_ascii) simp
  ultimately show ?thesis by (simp only: received_result_def JobResult.simps)
qed

lemma signed_readable:
  assumes "\<forall>(k, v) \<in> set (without_signature (result_asdict r)). py_readable v"
  shows "\<forall>(k, v) \<in> set (result_asdict (r\<lparr>signature := py_b64 sig\<rparr>)). py_readable v"
proof -
  have "\<forall>c \<in> set (py_b64 sig). scalar c" by (auto simp: py_b64_def scalar_def dest: url_safe_ascii)
  then show ?thesis using assms by (simp add: result_asdict_def without_signature_def)
qed

lemma signed_result_verifies:
  assumes "evp_base64 ssl" and "signs_for ssl public_key sign" and "py_sign_job_result sign r = Inr sr"
    and "\<forall>(k, v) \<in> set (without_signature (result_asdict r)). py_readable v \<and> py_ascii v"
  shows "verify_job_result ssl (received_result sr) (Some public_key) = Return True"
proof -
  let ?m = "canonical_json (without_signature (result_asdict r))"
  let ?s = "sign (bytes_of_string ?m)"
  have valid: "result_validate r = None" and sr: "sr = r\<lparr>signature := py_b64 ?s\<rparr>"
    using assms(3) by (auto simp: py_sign_job_result_def Let_def unsigned_signed split: option.splits)
  have s: "length ?s = 64" "evp_accepts ssl (Some public_key) ?m ?s"
    using assms(2) [unfolded signs_for_def, rule_format, of "bytes_of_string ?m"] by simp_all
  have "canonical_json (without_signature (result_asdict sr)) = canonical_job_result_json (received_result sr)"
    using result_canonical_agrees [OF signed_readable, of r ?s] assms(4) unfolding sr unsigned_signed by fast
  then have m: "canonical_job_result_json (received_result sr) = ?m" by (simp add: sr unsigned_signed)
  have "base64url_decode ssl (url_safe (base64 ?s)) = Return ?s"
    by (rule base64url_decode_encoded [OF assms(1)]) (simp add: s(1))
  moreover have "url_safe (base64 ?s) \<noteq> []"
  proof -
    have "length (url_safe (base64 ?s)) = 88" using s(1) by (simp add: length_base64)
    then show ?thesis by fastforce
  qed
  moreover have "JobResult.signature (received_result sr) = url_safe (base64 ?s)"
    "JobResult.signature_algorithm (received_result sr) = ''Ed25519''"
    using validated_algorithm [OF valid] by (simp_all add: sr received_signed)
  ultimately show ?thesis
    using s(2) by (simp add: verify_job_result_def m ed25519_verify_eq_True [symmetric])
qed

section \<open>Failure notices\<close>

record PyFailureNotice =
  protocol_version :: "nat list"
  message_id :: "nat list"
  request_id :: "nat list"
  reporting_node_id :: "nat list"
  failed_node_id :: "nat list"
  reason :: "nat list"
  observed_at :: int
  signature_algorithm :: "nat list"
  signature :: "nat list"

definition notice_asdict :: "PyFailureNotice \<Rightarrow> (string \<times> py_value) list" where
  "notice_asdict n =
     [(''protocol_version'', PyStr (protocol_version n)), (''message_id'', PyStr (message_id n)),
      (''request_id'', PyStr (request_id n)), (''reporting_node_id'', PyStr (reporting_node_id n)),
      (''failed_node_id'', PyStr (failed_node_id n)), (''reason'', PyStr (reason n)),
      (''observed_at'', PyInt (observed_at n)),
      (''signature_algorithm'', PyStr (signature_algorithm n)), (''signature'', PyStr (signature n))]"

definition received_notice :: "PyFailureNotice \<Rightarrow> FailureNotice" where
  "received_notice n = \<lparr>FailureNotice.protocol_version = utf8_of (protocol_version n),
     FailureNotice.message_id = utf8_of (message_id n), FailureNotice.request_id = utf8_of (request_id n),
     FailureNotice.reporting_node_id = utf8_of (reporting_node_id n),
     FailureNotice.failed_node_id = utf8_of (failed_node_id n), FailureNotice.reason = utf8_of (reason n),
     FailureNotice.observed_at = word_of_int (observed_at n),
     FailureNotice.signature_algorithm = utf8_of (signature_algorithm n),
     FailureNotice.signature = utf8_of (signature n)\<rparr>"

lemma notice_keys: "\<forall>(k, v) \<in> set (notice_asdict n). ascii_key k"
  by (simp add: notice_asdict_def ascii_key_def plain_key_def json_escape_def)

lemma notice_sorted:
  "sort_key fst (notice_asdict n) =
     [(''failed_node_id'', PyStr (failed_node_id n)), (''message_id'', PyStr (message_id n)),
      (''observed_at'', PyInt (observed_at n)), (''protocol_version'', PyStr (protocol_version n)),
      (''reason'', PyStr (reason n)), (''reporting_node_id'', PyStr (reporting_node_id n)),
      (''request_id'', PyStr (request_id n)), (''signature'', PyStr (signature n)),
      (''signature_algorithm'', PyStr (signature_algorithm n))]"
  by (simp add: notice_asdict_def less_eq_char_def less_char_def)

lemma received_notice_fields:
  "failure_notice_fields (received_notice n) = on_cpp_side (sort_key fst (without_signature (notice_asdict n)))"
  by (simp add: notice_asdict_def without_signature_def failure_notice_fields_def received_notice_def
      less_eq_char_def less_char_def)

lemma notice_canonical_agrees:
  assumes "\<forall>(k, v) \<in> set (notice_asdict n). py_readable v"
  shows "canonical_json (without_signature (notice_asdict n)) = canonical_failure_notice_json (received_notice n) \<longleftrightarrow>
    (\<forall>(k, v) \<in> set (without_signature (notice_asdict n)). py_ascii v)"
  using canonical_agrees [OF notice_keys assms] by (simp add: canonical_failure_notice_json_object received_notice_fields)

lemma notice_parsed:
  assumes "\<forall>(k, v) \<in> set (notice_asdict n). py_readable v"
  shows "parse_failure_notice_envelope_json (frame_body (py_str ''FAILURE_NOTICE'') (notice_asdict n))
    = Return (received_notice n)"
proof -
  let ?kvs = "sort_key fst (notice_asdict n)"
  have ok: "\<forall>(k, v) \<in> set ?kvs. plain_key k \<and> py_readable v"
    using assms notice_keys [of n] by (fastforce simp: ascii_key_def)
  have ty: "ascii_key ''FAILURE_NOTICE''" by (simp add: ascii_key_def plain_key_def json_escape_def)
  have "py_codec.schema ?kvs = failure_notice_schema"
    by (simp add: notice_sorted failure_notice_schema_def with_signature_def failure_notice_fields_def)
  moreover have "failure_notice_of (map (\<lambda>(k, v). py_meaning v) ?kvs) = received_notice n"
    by (simp add: notice_sorted failure_notice_of_def received_notice_def)
  ultimately show ?thesis
    unfolding frame_body_join [OF notice_keys ty] parse_failure_notice_refines
    using py_codec.parse_joined [OF ok, of "''FAILURE_NOTICE''" failure_notice_of] by simp
qed

section \<open>Properties\<close>

text \<open>
  Claim C21. The messages of a Python node on the C++ side: the body of every frame with a result or a failure
  notice of Unicode strings and of an integer between the bounds is parsed, field by field, into the UTF-8 bytes
  of the strings.  The text that Python signs is the one C++ verifies exactly when every signed string consists
  of ASCII characters without DEL; with any other character in one of them the two texts differ.
\<close>

theorem python_messages_interoperate:
  assumes "\<forall>(k, v) \<in> set (result_asdict r). py_readable v" and "\<forall>(k, v) \<in> set (notice_asdict n). py_readable v"
  shows "parse_job_result_envelope_json (frame_body (py_str ''JOB_RESULT'') (result_asdict r)) = Return (received_result r) \<and>
    parse_failure_notice_envelope_json (frame_body (py_str ''FAILURE_NOTICE'') (notice_asdict n)) = Return (received_notice n) \<and>
    (canonical_json (without_signature (result_asdict r)) = canonical_job_result_json (received_result r) \<longleftrightarrow>
      (\<forall>(k, v) \<in> set (without_signature (result_asdict r)). py_ascii v)) \<and>
    (canonical_json (without_signature (notice_asdict n)) = canonical_failure_notice_json (received_notice n) \<longleftrightarrow>
      (\<forall>(k, v) \<in> set (without_signature (notice_asdict n)). py_ascii v))"
  by (intro conjI result_parsed notice_parsed result_canonical_agrees notice_canonical_agrees assms)

definition py_result :: "nat list \<Rightarrow> PyJobResult" where
  "py_result text = \<lparr>PyJobResult.protocol_version = py_str ''0.2'', PyJobResult.message_id = py_str ''m'',
     PyJobResult.request_id = py_str ''job-1'', responder_node_id = py_str ''node-b'',
     recipient_node_id = py_str ''node-a'', status = py_str ''OK'', payload = text, completed_at = 1700000000,
     PyJobResult.signature_algorithm = py_str ''Ed25519'', PyJobResult.signature = []\<rparr>"

definition py_notice :: PyFailureNotice where
  "py_notice = \<lparr>protocol_version = py_str ''0.2'', message_id = py_str ''m'', request_id = py_str ''job-1'',
     reporting_node_id = py_str ''node-b'', failed_node_id = py_str ''node-c'', reason = py_str ''timeout'',
     observed_at = 1700000000, signature_algorithm = py_str ''Ed25519'', signature = []\<rparr>"

theorem python_messages_interoperate_witness:
  "parse_job_result_envelope_json (frame_body (py_str ''JOB_RESULT'') (result_asdict (py_result [0xe9])))
      = Return (received_result (py_result [0xe9])) \<and>
   JobResult.payload (received_result (py_result [0xe9])) = [CHR 0xC3, CHR 0xA9] \<and>
   canonical_json (without_signature (result_asdict (py_result [0xe9])))
      \<noteq> canonical_job_result_json (received_result (py_result [0xe9])) \<and>
   canonical_json (without_signature (notice_asdict py_notice)) = canonical_failure_notice_json (received_notice py_notice)"
  using python_messages_interoperate [of "py_result [0xe9]" py_notice]
  by (simp add: py_result_def py_notice_def result_asdict_def notice_asdict_def without_signature_def scalar_def
      received_result_def utf8_def char_of_eq_iff)

text \<open>
  A result that a Python node validates, signs and frames is accepted by a C++ node: for ASCII strings
  without DEL, the bytes decode to the body, the body parses to the result, and the result verifies under the
  public key of the signer, for every signing function whose signatures that key accepts.
\<close>

theorem python_signed_result_accepted:
  assumes "evp_base64 ssl" and "signs_for ssl public_key sign" and "py_sign_job_result sign r = Inr sr"
    and "\<forall>(k, v) \<in> set (without_signature (result_asdict r)). py_readable v \<and> py_ascii v"
    and "send_frame (py_str ''JOB_RESULT'') (result_asdict sr) = Inr bytes"
  shows "\<exists>body. decode_complete_frame bytes = Return body \<and> parse_job_result_envelope_json body = Return (received_result sr) \<and>
    verify_job_result ssl (received_result sr) (Some public_key) = Return True"
proof -
  obtain sig where "sr = r\<lparr>PyJobResult.signature := py_b64 sig\<rparr>"
    using assms(3) by (auto simp: py_sign_job_result_def Let_def split: option.splits)
  then have "\<forall>(k, v) \<in> set (result_asdict sr). py_readable v"
    using signed_readable [of r sig] assms(4) by fast
  then show ?thesis
    using take_frame_encode [OF send_frame_encode [OF assms(5)], of "[]"] result_parsed [of sr] signed_result_verifies [OF assms(1-4)]
    by (auto simp: decode_complete_frame_take)
qed

lemma length_python_json_string: "length (python_json_string v) \<le> 2 + 12 * length v"
proof -
  have "length (python_escape c) \<le> 12" for c by (simp add: python_escape_def unit_escape_def hex4_def)
  then have "length (concat (map python_escape v)) \<le> 12 * length v"
    by (induction v) (auto intro: add_le_mono)
  then show ?thesis by (simp add: python_json_string_def)
qed

theorem python_signed_result_accepted_witness:
  "\<exists>sr bytes body. py_sign_job_result (sample_signature 7) (py_result (py_str ''pong'')) = Inr sr \<and>
     send_frame (py_str ''JOB_RESULT'') (result_asdict sr) = Inr bytes \<and>
     decode_complete_frame bytes = Return body \<and> parse_job_result_envelope_json body = Return (received_result sr) \<and>
     verify_job_result sample_ssl (received_result sr) (Some 7) = Return True"
proof -
  let ?r = "py_result (py_str ''pong'')"
  have key: "signs_for sample_ssl 7 (sample_signature 7)"
    by (simp add: signs_for_def evp_accepts_def sample_ssl_def sample_signature_def)
  have "result_validate ?r = None" by (simp add: result_validate_def py_result_def)
  then obtain sig where sr: "py_sign_job_result (sample_signature 7) ?r = Inr (?r\<lparr>PyJobResult.signature := py_b64 sig\<rparr>)"
      "length sig = 64"
    by (simp add: py_sign_job_result_def Let_def sample_signature_def)
  let ?sr = "?r\<lparr>PyJobResult.signature := py_b64 sig\<rparr>"
  have "length (frame_body (py_str ''JOB_RESULT'') (result_asdict ?sr)) \<le> MAX_FRAME_BYTES"
    using length_python_json_string [of "py_b64 sig"] sr(2)
    by (simp add: frame_body_def result_sorted py_result_def MAX_FRAME_BYTES_def less_eq_char_def less_char_def)
      (simp add: python_json_string_def python_escape_def dec_int_def dec_nat.simps py_b64_def length_base64)
  then obtain bytes where "send_frame (py_str ''JOB_RESULT'') (result_asdict ?sr) = Inr bytes"
    by (auto simp: send_frame_def Let_def)
  then show ?thesis
    using python_signed_result_accepted [OF sample_ssl_base64 key sr(1)] sr(1)
    by (fastforce simp: py_result_def result_asdict_def without_signature_def scalar_def)
qed

end
