(* ===== verification/Python_Loads.thy ===== *)
theory Python_Loads
  imports Python_Messages "HOL-Library.AList"
begin

text \<open>
  What a Python node reads: \<open>bytes.decode("utf-8")\<close> and \<open>json.loads\<close> of the standard library, as \<open>recv_frame\<close> of
  \<open>transport.py\<close> and \<open>decode_reference_delta\<close> of \<open>wire.py\<close> use them.  Texts are lists of code points.  Floating-point
  numbers are kept as the text that \<open>float\<close> is given; the nesting that the interpreter's stack allows is a parameter.
\<close>

section \<open>Errors in sequence\<close>

definition py_bind :: "py_error + 'a \<Rightarrow> ('a \<Rightarrow> py_error + 'b) \<Rightarrow> py_error + 'b" where
  "py_bind m f = case_sum Inl f m"

lemma py_bind_simps [simp]: "py_bind (Inl e) f = Inl e" "py_bind (Inr x) f = f x"
  by (simp_all add: py_bind_def)

lemma py_bind_eq_Inr: "py_bind m f = Inr y \<longleftrightarrow> (\<exists>x. m = Inr x \<and> f x = Inr y)"
  by (cases m) simp_all

lemma py_bind_cong [fundef_cong]: "m = m' \<Longrightarrow> (\<And>x. m' = Inr x \<Longrightarrow> f x = g x) \<Longrightarrow> py_bind m f = py_bind m' g"
  by (cases m') simp_all

section \<open>UTF-8\<close>

definition continuation :: "char \<Rightarrow> bool" where
  "continuation b \<longleftrightarrow> 0x80 \<le> (of_char b :: nat) \<and> (of_char b :: nat) < 0xc0"

text \<open>The low six bits of a continuation byte.\<close>

definition low_six :: "char \<Rightarrow> nat" where
  "low_six b = of_char b - 0x80"

text \<open>One code point in its shortest form, no surrogate, at most U+10FFFF.\<close>

fun utf8_step :: "string \<Rightarrow> (nat \<times> string) option" where
  "utf8_step [] = None"
| "utf8_step (a # s) =
     (let x = of_char a in
      if x < 0x80 then Some (x, s)
      else if 0xc2 \<le> x \<and> x < 0xe0 then
        (case s of b # r \<Rightarrow>
           if continuation b then Some ((x - 0xc0) * 0x40 + low_six b, r) else None
         | _ \<Rightarrow> None)
      else if 0xe0 \<le> x \<and> x < 0xf0 then
        (case s of b # c # r \<Rightarrow>
           let v = ((x - 0xe0) * 0x40 + low_six b) * 0x40 + low_six c in
           if continuation b \<and> continuation c \<and> 0x800 \<le> v \<and> scalar v then Some (v, r) else None
         | _ \<Rightarrow> None)
      else if 0xf0 \<le> x \<and> x < 0xf5 then
        (case s of b # c # d # r \<Rightarrow>
           let v = (((x - 0xf0) * 0x40 + low_six b) * 0x40 + low_six c) * 0x40 + low_six d in
           if continuation b \<and> continuation c \<and> continuation d \<and> 0x10000 \<le> v \<and> scalar v then Some (v, r)
           else None
         | _ \<Rightarrow> None)
      else None)"

lemma utf8_step_shorter: "utf8_step s = Some (c, r) \<Longrightarrow> length r < length s"
  by (cases s) (auto simp: Let_def split: if_splits list.splits)

function decode_utf8 :: "string \<Rightarrow> nat list option" where
  "decode_utf8 s =
     (if s = [] then Some []
      else case utf8_step s of None \<Rightarrow> None | Some (c, r) \<Rightarrow> map_option ((#) c) (decode_utf8 r))"
  by auto

termination decode_utf8
  by (relation "measure length") (auto dest: utf8_step_shorter)

declare decode_utf8.simps [simp del]

lemma of_char_char_of: "c < 0x100 \<Longrightarrow> of_char (char_of c) = (c :: nat)"
  by simp

lemma utf8_step_utf8:
  assumes "scalar c"
  shows "utf8_step (utf8 c @ s) = Some (c, s)"
proof -
  have c: "c \<le> 0x10ffff" using assms by (auto simp: scalar_def)
  consider "c < 0x80" | "0x80 \<le> c" "c < 0x800" | "0x800 \<le> c" "c < 0x10000" | "0x10000 \<le> c" by linarith
  then show ?thesis
  proof cases
    case 2
    have "c div 0x40 < 0x20" "2 \<le> c div 0x40" using 2 by auto
    moreover have "c div 0x40 * 0x40 + c mod 0x40 = c" by (rule div_mult_mod_eq)
    ultimately show ?thesis using 2 by (simp add: utf8_def continuation_def low_six_def Let_def)
  next
    case 3
    have "c div 0x1000 < 0x10" using 3 by auto
    moreover have "(c div 0x1000 * 0x40 + c div 0x40 mod 0x40) * 0x40 + c mod 0x40 = c"
      using div_mult2_eq [where m = c and n = "0x40" and q = "0x40"] by (simp add: div_mult_mod_eq)
    ultimately show ?thesis using 3 assms by (simp add: utf8_def continuation_def low_six_def Let_def)
  next
    case 4
    define p q r s' where "p = c div 0x40000" and "q = c div 0x1000 mod 0x40" and "r = c div 0x40 mod 0x40" and "s' = c mod 0x40"
    have u: "utf8 c = map char_of [0xf0 + p, 0x80 + q, 0x80 + r, 0x80 + s']"
      using 4 by (simp add: utf8_def p_def q_def r_def s'_def)
    have "c div 0x40000 < 5" using c by auto
    then have less: "p < 5" "q < 0x40" "r < 0x40" "s' < 0x40" by (simp_all add: p_def q_def r_def s'_def)
    have "((p * 0x40 + q) * 0x40 + r) * 0x40 + s' = c"
      unfolding p_def q_def r_def s'_def
      using div_mult2_eq [where m = c and n = "0x40" and q = "0x40"] div_mult2_eq [where m = c and n = "0x1000" and q = "0x40"]
      by (simp add: div_mult_mod_eq)
    then show ?thesis using 4 assms less unfolding u by (simp add: continuation_def low_six_def Let_def)
  qed (simp add: utf8_def)
qed

lemma utf8_nonempty [simp]: "utf8 c \<noteq> []"
  by (simp add: utf8_def)

lemma decode_utf8_encoded:
  "\<forall>c \<in> set s. scalar c \<Longrightarrow> decode_utf8 (utf8_of s) = Some s"
  by (induction s) (simp_all add: decode_utf8.simps utf8_step_utf8)

section \<open>json.loads\<close>

datatype py_json =
    JNull | JBool bool | JInt int | JFloat "nat list" | JStr "nat list" | JArray "py_json list"
  | JObject "(nat list \<times> py_json) list"

type_synonym 'a scanner = "nat list \<Rightarrow> py_error + 'a \<times> nat list"

definition skip_white :: "nat list \<Rightarrow> nat list" where
  "skip_white s = dropWhile (\<lambda>c. c \<in> {0x20, 0x09, 0x0a, 0x0d}) s"

definition starts :: "nat \<Rightarrow> nat list \<Rightarrow> bool" where
  "starts c s \<longleftrightarrow> s \<noteq> [] \<and> hd s = c"

subsection \<open>Strings\<close>

definition hex_of :: "nat \<Rightarrow> nat option" where
  "hex_of c =
     (if 0x30 \<le> c \<and> c \<le> 0x39 then Some (c - 0x30)
      else if 0x61 \<le> c \<and> c \<le> 0x66 then Some (c - 0x61 + 10)
      else if 0x41 \<le> c \<and> c \<le> 0x46 then Some (c - 0x41 + 10)
      else None)"

fun hex_unit :: "nat list \<Rightarrow> (nat \<times> nat list) option" where
  "hex_unit (a # b # c # d # s) =
     Option.bind (hex_of a) (\<lambda>a. Option.bind (hex_of b) (\<lambda>b. Option.bind (hex_of c) (\<lambda>c. Option.bind (hex_of d) (\<lambda>d.
     Some (((a * 16 + b) * 16 + c) * 16 + d, s)))))"
| "hex_unit s = None"

text \<open>The second half of a pair of surrogates, if it follows.\<close>

definition low_half :: "nat list \<Rightarrow> (nat \<times> nat list) option" where
  "low_half s =
     (if take 2 s = [0x5c, 0x75]
      then Option.bind (hex_unit (drop 2 s)) (\<lambda>(l, r). if 0xdc00 \<le> l \<and> l \<le> 0xdfff then Some (l, r) else None)
      else None)"

definition scan_unicode :: "nat scanner" where
  "scan_unicode s =
     (case hex_unit s of
        None \<Rightarrow> Inl JSONDecodeError
      | Some (h, r) \<Rightarrow>
          if 0xd800 \<le> h \<and> h \<le> 0xdbff then
            (case low_half r of
               None \<Rightarrow> Inr (h, r)
             | Some (l, r') \<Rightarrow> Inr (0x10000 + (h - 0xd800) * 0x400 + (l - 0xdc00), r'))
          else Inr (h, r))"

fun scan_escape :: "nat scanner" where
  "scan_escape [] = Inl JSONDecodeError"
| "scan_escape (e # s) =
     (if e = 0x75 then scan_unicode s
      else case map_of [(0x22, 0x22), (0x5c, 0x5c), (0x2f, 0x2f), (0x62, 0x08), (0x66, 0x0c), (0x6e, 0x0a),
             (0x72, 0x0d), (0x74, 0x09)] e of
          None \<Rightarrow> Inl JSONDecodeError
        | Some c \<Rightarrow> Inr (c, s))"

lemma hex_unit_length: "hex_unit s = Some (n, r) \<Longrightarrow> length s = length r + 4"
  by (induction s rule: hex_unit.induct) (auto simp: bind_eq_Some_conv)

lemma low_half_shorter: "low_half s = Some (l, r) \<Longrightarrow> length r < length s"
  by (auto simp: low_half_def bind_eq_Some_conv split: if_splits dest: hex_unit_length)

lemma scan_escape_shorter: "scan_escape s = Inr (c, r) \<Longrightarrow> length r < length s"
  by (cases s) (auto simp: scan_unicode_def split: if_splits option.splits dest!: hex_unit_length low_half_shorter)

text \<open>The rest of a string behind its opening quote; control characters are not allowed.\<close>

function scan_string :: "nat list scanner" where
  "scan_string [] = Inl JSONDecodeError"
| "scan_string (c # s) =
     (if c = 0x22 then Inr ([], s)
      else if c = 0x5c then
        py_bind (scan_escape s) (\<lambda>(e, r). py_bind (scan_string r) (\<lambda>(t, r). Inr (e # t, r)))
      else if c < 0x20 then Inl JSONDecodeError
      else py_bind (scan_string s) (\<lambda>(t, r). Inr (c # t, r)))"
  by pat_completeness auto

termination scan_string
  by (relation "measure length") (auto dest: scan_escape_shorter)

subsection \<open>Numbers\<close>

abbreviation ascii_digit :: "nat \<Rightarrow> bool" where
  "ascii_digit c \<equiv> 0x30 \<le> c \<and> c \<le> 0x39"

text \<open>The optional parts of a number: the longest match and the rest.\<close>

definition scan_fraction :: "nat list \<Rightarrow> nat list \<times> nat list" where
  "scan_fraction s =
     (let ds = takeWhile ascii_digit (tl s) in
      if starts 0x2e s \<and> ds \<noteq> [] then (0x2e # ds, drop (length ds) (tl s)) else ([], s))"

definition scan_exponent :: "nat list \<Rightarrow> nat list \<times> nat list" where
  "scan_exponent s =
     (let sign = takeWhile (\<lambda>c. c \<in> {0x2b, 0x2d}) (take 1 (tl s));
          ds = takeWhile ascii_digit (drop (length sign) (tl s)) in
      if (starts 0x65 s \<or> starts 0x45 s) \<and> ds \<noteq> []
      then (hd s # sign @ ds, drop (length sign + length ds) (tl s)) else ([], s))"

text \<open>\<open>int\<close> refuses more than 4300 digits.\<close>

definition scan_number :: "py_json scanner" where
  "scan_number s =
     (let sign = takeWhile ((=) 0x2d) (take 1 s);
          u = drop (length sign) s;
          ds = (if starts 0x30 u then [0x30] else takeWhile ascii_digit u) in
      if ds = [] then Inl JSONDecodeError
      else
        let (frac, r) = scan_fraction (drop (length ds) u);
            (exp, r) = scan_exponent r in
        if frac = [] \<and> exp = [] then
          if length ds > 4300 then Inl (ValueError ''Exceeds the limit (4300 digits) for integer string conversion'')
          else
            let n = int (foldl (\<lambda>v d. v * 10 + (d - 0x30)) 0 ds) in
            Inr (JInt (if sign = [] then n else - n), r)
        else Inr (JFloat (sign @ ds @ frac @ exp), r))"

subsection \<open>Values\<close>

definition literals :: "(nat list \<times> py_json) list" where
  "literals =
     [(py_str ''null'', JNull), (py_str ''true'', JBool True), (py_str ''false'', JBool False),
      (py_str ''NaN'', JFloat (py_str ''NaN'')), (py_str ''Infinity'', JFloat (py_str ''Infinity'')),
      (py_str ''-Infinity'', JFloat (py_str ''-Infinity''))]"

definition scan_scalar :: "py_json scanner" where
  "scan_scalar s =
     (case find (\<lambda>(t, v). take (length t) s = t) literals of
        Some (t, v) \<Rightarrow> Inr (v, drop (length t) s)
      | None \<Rightarrow>
          if starts 0x22 s then py_bind (scan_string (tl s)) (\<lambda>(t, r). Inr (JStr t, r))
          else scan_number s)"

text \<open>
  The members of an object from the first key on, and the elements of an array; every round reads a character at
  least, so that the length of the text bounds their number.  A repeated key replaces the earlier value.
\<close>

primrec scan_members ::
    "py_json scanner \<Rightarrow> nat \<Rightarrow> (nat list \<times> py_json) list \<Rightarrow> ((nat list \<times> py_json) list) scanner" where
  "scan_members value 0 kvs s = Inl JSONDecodeError"
| "scan_members value (Suc n) kvs s =
     (if \<not> starts 0x22 s then Inl JSONDecodeError
      else py_bind (scan_string (tl s)) (\<lambda>(k, r).
        let r = skip_white r in
        if \<not> starts 0x3a r then Inl JSONDecodeError
        else py_bind (value (skip_white (tl r))) (\<lambda>(v, r).
          let kvs = AList.update k v kvs; r = skip_white r in
          if starts 0x7d r then Inr (kvs, tl r)
          else if starts 0x2c r then scan_members value n kvs (skip_white (tl r))
          else Inl JSONDecodeError)))"

primrec scan_elements :: "py_json scanner \<Rightarrow> nat \<Rightarrow> (py_json list) scanner" where
  "scan_elements value 0 s = Inl JSONDecodeError"
| "scan_elements value (Suc n) s =
     py_bind (value s) (\<lambda>(v, r).
       let r = skip_white r in
       if starts 0x5d r then Inr ([v], tl r)
       else if starts 0x2c r
       then py_bind (scan_elements value n (skip_white (tl r))) (\<lambda>(vs, r). Inr (v # vs, r))
       else Inl JSONDecodeError)"

text \<open>A value whose containers are nested at most \<open>depth\<close> deep.\<close>

primrec scan_value :: "nat \<Rightarrow> py_json scanner" where
  "scan_value 0 s = (if starts 0x7b s \<or> starts 0x5b s then Inl RecursionError else scan_scalar s)"
| "scan_value (Suc depth) s =
     (let r = skip_white (tl s) in
      if starts 0x7b s then
        if starts 0x7d r then Inr (JObject [], tl r)
        else py_bind (scan_members (scan_value depth) (length r) [] r) (\<lambda>(kvs, r). Inr (JObject kvs, r))
      else if starts 0x5b s then
        if starts 0x5d r then Inr (JArray [], tl r)
        else py_bind (scan_elements (scan_value depth) (length r) r) (\<lambda>(vs, r). Inr (JArray vs, r))
      else scan_scalar s)"

definition json_loads :: "nat \<Rightarrow> nat list \<Rightarrow> py_error + py_json" where
  "json_loads depth s =
     (if starts 0xfeff s then Inl JSONDecodeError
      else py_bind (scan_value depth (skip_white s)) (\<lambda>(v, r). if skip_white r = [] then Inr v else Inl JSONDecodeError))"

end
