(* ===== verification/Python_Reading.thy ===== *)
theory Python_Reading
  imports Python_Loads
begin

text \<open>
  What \<open>json.loads\<close> makes of printed objects: the loops over members and elements never run into their bound,
  and an object printed without spaces, its strings in UTF-8 as C++ writes them, is read back.
\<close>

section \<open>Progress\<close>

lemma skip_white_length: "length (skip_white s) \<le> length s"
  by (simp add: skip_white_def length_dropWhile_le)

lemma starts_tl: "starts c s \<Longrightarrow> Suc (length (tl s)) = length s"
  by (simp add: starts_def)

lemma scan_string_shorter: "scan_string s = Inr (t, r) \<Longrightarrow> length r < length s"
proof (induction s arbitrary: t r rule: scan_string.induct)
  case (2 c s)
  show ?case
  proof (cases "c = 0x5c")
    case True
    then obtain e s' t' where "scan_escape s = Inr (e, s')" "scan_string s' = Inr (t', r)"
      using "2.prems" by (auto simp: py_bind_eq_Inr)
    then show ?thesis using "2.IH"(1) [of "(e, s')" e s' t' r] True scan_escape_shorter [of s e s'] by simp
  next
    case False
    then show ?thesis using "2.prems" "2.IH"(2) by (fastforce simp: py_bind_eq_Inr split: if_splits)
  qed
qed simp

lemma scan_parts_shorter:
  "scan_fraction s = (f, r) \<Longrightarrow> length r \<le> length s" "scan_exponent s = (f, r) \<Longrightarrow> length r \<le> length s"
  by (auto simp: scan_fraction_def scan_exponent_def Let_def split: if_splits)

lemma scan_number_shorter: "scan_number s = Inr (v, r) \<Longrightarrow> length r < length s"
proof -
  assume a: "scan_number s = Inr (v, r)"
  define sign where "sign = takeWhile ((=) 0x2d) (take 1 s)"
  define u where "u = drop (length sign) s"
  define ds where "ds = (if starts 0x30 u then [0x30] else takeWhile ascii_digit u)"
  obtain f r1 x r2 where p: "scan_fraction (drop (length ds) u) = (f, r1)" "scan_exponent r1 = (x, r2)"
    by (metis surj_pair)
  have "ds \<noteq> []" "r = r2"
    using a p unfolding scan_number_def sign_def [symmetric] u_def [symmetric] ds_def [symmetric] Let_def
    by (auto split: if_splits)
  then have "length r \<le> length u - length ds" "0 < length ds" using scan_parts_shorter p by fastforce+
  moreover have "u \<noteq> []" using \<open>ds \<noteq> []\<close> by (auto simp: ds_def starts_def)
  moreover have "length u \<le> length s" by (simp add: u_def)
  ultimately show ?thesis by (cases u; cases ds) auto
qed

lemma scan_scalar_shorter: "scan_scalar s = Inr (v, r) \<Longrightarrow> length r < length s"
proof (cases "find (\<lambda>(t, v). take (length t) s = t) literals")
  case None
  assume "scan_scalar s = Inr (v, r)"
  then show ?thesis
    using None by (auto simp: scan_scalar_def py_bind_eq_Inr split: if_splits
        dest!: scan_string_shorter scan_number_shorter starts_tl)
next
  case (Some e)
  assume a: "scan_scalar s = Inr (v, r)"
  obtain t w where e: "e = (t, w)" by (cases e)
  then have "(t, w) \<in> set literals" "take (length t) s = t" using Some by (auto simp: find_Some_iff) (metis nth_mem)
  then have "t \<noteq> []" "take (length t) s = t" by (auto simp: literals_def)
  moreover have "r = drop (length t) s" using Some a e by (simp add: scan_scalar_def)
  ultimately show ?thesis by (cases s; cases t) auto
qed

text \<open>A scanner of values that reads at least one character of what it accepts.\<close>

locale value_scanner =
  fixes scan :: "py_json scanner"
  assumes shorter: "scan s = Inr (v, r) \<Longrightarrow> length r < length s"
begin

lemma member_rest:
  assumes "starts 0x22 s" and "scan_string (tl s) = Inr (k, r)" and "starts 0x3a (skip_white r)"
    and "scan (skip_white (tl (skip_white r))) = Inr (v, r')"
  shows "length (skip_white r') + 2 < length s"
  using starts_tl [OF assms(1)] scan_string_shorter [OF assms(2)] skip_white_length [of r] starts_tl [OF assms(3)]
    skip_white_length [of "tl (skip_white r)"] shorter [OF assms(4)] skip_white_length [of r'] by linarith

lemma members_shorter: "scan_members scan n kvs s = Inr (kvs', r) \<Longrightarrow> length r < length s"
proof (induction n arbitrary: kvs s)
  case (Suc n)
  then obtain k r1 v r2 where m: "starts 0x22 s" "scan_string (tl s) = Inr (k, r1)" "starts 0x3a (skip_white r1)"
      "scan (skip_white (tl (skip_white r1))) = Inr (v, r2)"
      "r = tl (skip_white r2) \<or> scan_members scan n (AList.update k v kvs) (skip_white (tl (skip_white r2))) = Inr (kvs', r)"
    by (auto simp: py_bind_eq_Inr Let_def split: if_splits)
  from member_rest [OF m(1-4)] have "length (skip_white (tl (skip_white r2))) < length s" "length (tl (skip_white r2)) < length s"
    using skip_white_length [of "tl (skip_white r2)"] by simp_all
  then show ?case using m(5) Suc.IH by fastforce
qed simp

lemma elements_shorter: "scan_elements scan n s = Inr (vs, r) \<Longrightarrow> length r < length s"
proof (induction n arbitrary: vs s)
  case (Suc n)
  then obtain v r1 where m: "scan s = Inr (v, r1)"
      "r = tl (skip_white r1) \<or> (\<exists>ws. scan_elements scan n (skip_white (tl (skip_white r1))) = Inr (ws, r))"
    by (auto simp: py_bind_eq_Inr Let_def split: if_splits)
  have "length (skip_white (tl (skip_white r1))) < length s" "length (tl (skip_white r1)) < length s"
    using shorter [OF m(1)] skip_white_length [of "tl (skip_white r1)"] skip_white_length [of r1] by simp_all
  then show ?case using m(2) Suc.IH by fastforce
qed simp

text \<open>The bounds are never met: as many rounds as characters are enough.\<close>

lemma members_bound:
  "length s \<le> n \<Longrightarrow> scan_members scan n kvs s = scan_members scan (Suc n) kvs s"
proof (induction n arbitrary: kvs s)
  case (Suc n)
  have "scan_members scan n kvs' (skip_white (tl (skip_white r2))) = scan_members scan (Suc n) kvs' (skip_white (tl (skip_white r2)))"
    if "starts 0x22 s" "scan_string (tl s) = Inr (k, r1)" "starts 0x3a (skip_white r1)"
      "scan (skip_white (tl (skip_white r1))) = Inr (v, r2)" for k r1 v r2 kvs'
    using member_rest [OF that] skip_white_length [of "tl (skip_white r2)"] Suc.prems by (intro Suc.IH) simp
  then show ?case unfolding scan_members.simps(2) [of scan n kvs s]  scan_members.simps(2) [of scan "Suc n" kvs s]
    by (auto simp: Let_def intro!: py_bind_cong simp del: scan_members.simps(2))
qed simp

lemma elements_bound:
  "0 < n \<Longrightarrow> length s \<le> n \<Longrightarrow> scan_elements scan n s = scan_elements scan (Suc n) s"
proof (induction n arbitrary: s)
  case (Suc n)
  have "scan_elements scan n (skip_white (tl (skip_white r))) = scan_elements scan (Suc n) (skip_white (tl (skip_white r)))"
    if "scan s = Inr (v, r)" "starts 0x2c (skip_white r)" for v r
    using shorter [OF that(1)] skip_white_length [of "tl (skip_white r)"] skip_white_length [of r] starts_tl [OF that(2)] Suc.prems
    by (intro Suc.IH) linarith+
  then show ?case unfolding scan_elements.simps(2) [of scan n s] scan_elements.simps(2) [of scan "Suc n" s]
    by (auto simp: Let_def intro!: py_bind_cong simp del: scan_elements.simps(2))
qed simp

end

lemma scan_value_shorter: "scan_value depth s = Inr (v, r) \<Longrightarrow> length r < length s"
proof (induction depth arbitrary: s v r)
  case 0
  then show ?case by (auto dest: scan_scalar_shorter split: if_splits)
next
  case (Suc depth)
  have "value_scanner (scan_value depth)" by unfold_locales (rule Suc.IH)
  note members = value_scanner.members_shorter [OF this] and elements = value_scanner.elements_shorter [OF this]
  show ?case
    using Suc.prems skip_white_length [of "tl s"]
    by (auto simp: Let_def py_bind_eq_Inr split: if_splits dest!: members elements scan_scalar_shorter starts_tl)
qed

interpretation loads: value_scanner "scan_value depth"
  by unfold_locales (rule scan_value_shorter)

section \<open>Printed strings\<close>

text \<open>A string as C++ prints it, as code points; \<open>json.dumps\<close> with \<open>ensure_ascii=False\<close> prints the same.\<close>

definition shown_char :: "nat \<Rightarrow> nat list" where
  "shown_char c = (if c < 0x7f then py_str (json_escape (char_of c)) else [c])"

definition shown_string :: "nat list \<Rightarrow> nat list" where
  "shown_string s = 0x22 # concat (map shown_char s) @ [0x22]"

lemma hex_of_hex_char: "d < 16 \<Longrightarrow> hex_of (of_char (hex_char d)) = Some d"
  by (auto simp: hex_of_def hex_char_def)

lemma hex_unit_hex4:
  assumes "n < 0x10000"
  shows "hex_unit (py_str (hex4 n) @ s) = Some (n, s)"
proof -
  have "n div 4096 mod 16 = n div 4096" using assms by simp
  moreover have "n div 4096 * 16 + n div 256 mod 16 = n div 256" "n div 256 * 16 + n div 16 mod 16 = n div 16"
    "n div 16 * 16 + n mod 16 = n"
    using div_mult2_eq [where m = n and n = "256" and q = "16"] div_mult2_eq [where m = n and n = "16" and q = "16"]
      div_mult_mod_eq [of "n div 256" 16] div_mult_mod_eq [of "n div 16" 16] div_mult_mod_eq [of n 16] by simp_all
  ultimately have "((n div 4096 mod 16 * 16 + n div 256 mod 16) * 16 + n div 16 mod 16) * 16 + n mod 16 = n" by simp
  moreover have "hex_of (of_char (hex_char (m mod 16))) = Some (m mod 16)" for m by (simp add: hex_of_hex_char)
  ultimately show ?thesis by (simp only: hex4_def list.map append.simps hex_unit.simps Option.bind.simps)
qed

lemma scan_shown_char:
  "scan_string (shown_char c @ s) = py_bind (scan_string s) (\<lambda>(t, r). Inr (c # t, r))"
proof (cases "c < 0x7f")
  case True
  then show ?thesis
    using hex_unit_hex4 [of c s]
    by (auto simp: shown_char_def json_escape_def char_of_is scan_unicode_def split: if_splits)
qed (simp add: shown_char_def)

lemma scan_shown_string: "scan_string (concat (map shown_char t) @ 0x22 # r) = Inr (t, r)"
  by (induction t) (simp_all add: scan_shown_char)

lemma utf8_bytes_high:
  assumes "0x80 \<le> c" and "c \<le> 0x10ffff" and "ch \<in> set (utf8 c)"
  shows "0x80 \<le> (of_char ch :: nat)"
proof -
  have "c div 0x40 < 0x40" if "c < 0x800" using that by auto
  moreover have "c div 0x1000 < 0x20" if "c < 0x10000" using that by auto
  moreover have "c div 0x40000 < 0x10" using assms(2) by auto
  ultimately show ?thesis using assms(1,3) by (auto simp: utf8_def split: if_splits)
qed

lemma json_escape_ascii: "(of_char ch :: nat) < 0x7f \<Longrightarrow> d \<in> set (json_escape ch) \<Longrightarrow> (of_char d :: nat) < 0x7f"
  by (auto simp: json_escape_def split: if_splits dest: hex4_printable)

lemma json_escape_utf8:
  assumes "scalar c"
  shows "concat (map json_escape (utf8 c)) = utf8_of (shown_char c)"
proof (cases "c < 0x7f")
  case True
  then have "\<forall>d \<in> set (json_escape (char_of c)). (of_char d :: nat) < 0x7f"
    using json_escape_ascii [of "char_of c"] by simp
  then show ?thesis using True utf8_of_ascii [of "json_escape (char_of c)"] by (simp add: python_escape_ascii shown_char_def)
next
  case False
  then have "\<forall>ch \<in> set (utf8 c). json_escape ch = [ch]"
    using assms utf8_bytes_high [of c] json_escape_high by (cases "c = 0x7f") (force simp: scalar_def utf8_def)+
  then have "concat (map json_escape (utf8 c)) = concat (map (\<lambda>ch. [ch]) (utf8 c))"
    by (metis (mono_tags, lifting) map_eq_conv)
  then show ?thesis using False by (simp add: shown_char_def concat_map_singleton)
qed

lemma marks [simp]:
  "char_of (0x22 :: nat) = CHR 0x22" "char_of (0x3a :: nat) = CHR '':''" "char_of (0x2c :: nat) = CHR '',''"
  "char_of (0x7b :: nat) = CHR ''{''" "char_of (0x7d :: nat) = CHR ''}''"
  "scalar 0x22" "scalar 0x3a" "scalar 0x2c" "scalar 0x7b" "scalar 0x7d" "scalar 0x5b" "scalar 0x5d"
  by (simp_all add: char_of_eq_iff scalar_def)

lemma json_string_utf8:
  assumes "\<forall>c \<in> set s. scalar c"
  shows "json_string (utf8_of s) = utf8_of (shown_string s)"
proof -
  have "concat (map json_escape (utf8_of s)) = utf8_of (concat (map shown_char s))"
    using assms by (induction s) (simp_all add: json_escape_utf8)
  then show ?thesis by (simp add: json_string_def shown_string_def python_escape_ascii)
qed

lemma scalar_shown_string: "\<forall>c \<in> set s. scalar c \<Longrightarrow> \<forall>c \<in> set (shown_string s). scalar c"
  using json_escape_ascii [of "char_of _"]
  by (auto simp: shown_string_def shown_char_def split: if_splits) (force simp: scalar_def)+

section \<open>Printed values\<close>

text \<open>The text \<open>t\<close> is read as \<open>v\<close> in front of the end of a member or of the whole text.\<close>

definition ends :: "nat list \<Rightarrow> bool" where
  "ends r \<longleftrightarrow> r = [] \<or> hd r \<in> {0x2c, 0x7d, 0x5d}"

definition reads :: "py_json scanner \<Rightarrow> nat list \<Rightarrow> py_json \<Rightarrow> bool" where
  "reads scan t v \<longleftrightarrow> t \<noteq> [] \<and> hd t \<notin> {0x20, 0x09, 0x0a, 0x0d} \<and> (\<forall>r. ends r \<longrightarrow> scan (t @ r) = Inr (v, r))"

lemma readsD: "reads scan t v \<Longrightarrow> ends r \<Longrightarrow> scan (t @ r) = Inr (v, r)"
  by (simp add: reads_def)

lemma reads_skip_white: "reads scan t v \<Longrightarrow> skip_white (t @ r) = t @ r"
  by (cases t) (simp_all add: reads_def skip_white_def)

lemma ends_skip_white [simp]: "ends r \<Longrightarrow> skip_white r = r"
  by (cases r) (auto simp: ends_def skip_white_def)

lemma ends_simps [simp]: "ends []" "ends (0x2c # r)" "ends (0x7d # r)" "ends (0x5d # r)"
  by (simp_all add: ends_def)

lemma starts_simps [simp]: "starts c (d # r) \<longleftrightarrow> d = c" "\<not> starts c []" "t \<noteq> [] \<Longrightarrow> starts c (t @ r) \<longleftrightarrow> starts c t"
  by (simp_all add: starts_def)

lemma reads_scalar:
  assumes "reads scan_scalar t v" and "\<not> starts 0x7b t" and "\<not> starts 0x5b t"
  shows "reads (scan_value depth) t v"
proof -
  have "scan_value depth (t @ r) = scan_scalar (t @ r)" for r
    using assms by (cases depth) (simp_all add: reads_def)
  then show ?thesis using assms(1) by (simp add: reads_def)
qed


lemma not_literal:
  assumes "s \<noteq> []" and "hd s \<notin> {0x6e, 0x74, 0x66, 0x4e, 0x49}" and "take 2 s \<noteq> [0x2d, 0x49]"
  shows "find (\<lambda>(t, v). take (length t) s = t) literals = None"
proof -
  have "take (length t) s \<noteq> t" if t: "(t, v) \<in> set literals" for t v
  proof
    assume a: "take (length t) s = t"
    have "2 \<le> length t" using t by (auto simp: literals_def)
    then have "take 2 s = take 2 t" using a take_take [of 2 "length t" s] by (simp add: min_absorb1)
    moreover have "hd s = hd (take 2 s)" using assms(1) by simp
    ultimately have "take 2 t \<noteq> [0x2d, 0x49]" "hd (take 2 t) \<notin> {0x6e, 0x74, 0x66, 0x4e, 0x49}" using assms(2,3) by simp_all
    then show False using t by (auto simp: literals_def numeral_2_eq_2)
  qed
  then show ?thesis by (auto simp: find_None_iff)
qed

lemma reads_string: "reads (scan_value depth) (shown_string s) (JStr s)"
proof (rule reads_scalar)
  have "scan_scalar (shown_string s @ r) = Inr (JStr s, r)" for r
    using not_literal [of "shown_string s @ r"] scan_shown_string [of s r]
    by (simp add: scan_scalar_def shown_string_def numeral_2_eq_2)
  then show "reads scan_scalar (shown_string s) (JStr s)" by (simp add: reads_def shown_string_def)
qed (simp_all add: shown_string_def)

lemma reads_null: "reads (scan_value depth) (py_str ''null'') JNull"
  by (rule reads_scalar) (simp_all add: reads_def scan_scalar_def literals_def)

subsection \<open>Integers\<close>

lemma dec_nat_leading: "of_char (hd (dec_nat n)) = (0x30 :: nat) \<longleftrightarrow> n = 0"
proof (induction n rule: dec_nat.induct)
  case (1 n)
  then show ?case by (subst dec_nat.simps) (auto simp: hd_append)
qed

lemma dec_nat_zero: "dec_nat 0 = ''0''"
  by (subst dec_nat.simps) (simp add: digit_char_def char_of_eq_iff)

lemma length_dec_nat: "n < 10 ^ Suc k \<Longrightarrow> length (dec_nat n) \<le> Suc k"
proof (induction k arbitrary: n)
  case 0
  then show ?case by (subst dec_nat.simps) simp
next
  case (Suc k)
  then show ?case by (subst dec_nat.simps) simp
qed

lemma digits_of_text: "foldl (\<lambda>v d. v * 10 + (d - 0x30)) v (py_str ds) = digits_value v ds"
  by (induction ds arbitrary: v) (simp_all add: digit_val_def)

lemma scan_digits:
  assumes "ends r"
  shows "(if starts 0x30 (py_str (dec_nat n) @ r) then [0x30] else takeWhile ascii_digit (py_str (dec_nat n) @ r))
    = py_str (dec_nat n)"
proof (cases "n = 0")
  case False
  have "\<not> starts 0x30 (py_str (dec_nat n))"
    using dec_nat_leading [of n] False by (simp add: starts_def hd_map)
  moreover have "takeWhile ascii_digit (py_str (dec_nat n) @ r) = py_str (dec_nat n) @ takeWhile ascii_digit r"
    using dec_nat_digits [of n] by (intro takeWhile_append2) (auto simp: is_digit_def)
  moreover have "takeWhile ascii_digit r = []" using assms by (cases r) (auto simp: ends_def)
  ultimately show ?thesis by simp
qed (simp add: dec_nat_zero)

lemma ends_no_parts: "ends r \<Longrightarrow> scan_fraction r = ([], r)" "ends r \<Longrightarrow> scan_exponent r = ([], r)"
  by (auto simp: scan_fraction_def scan_exponent_def ends_def starts_def)

lemma scan_number_parts:
  assumes "takeWhile ((=) 0x2d) (take 1 s) = sign" and "drop (length sign) s = u"
    and "(if starts 0x30 u then [0x30] else takeWhile ascii_digit u) = ds" and "ds \<noteq> []" and "length ds \<le> 4300"
    and "scan_fraction (drop (length ds) u) = ([], r)" and "scan_exponent r = ([], r')"
  shows "scan_number s = Inr (JInt ((if sign = [] then 1 else - 1) * int (foldl (\<lambda>v d. v * 10 + (d - 0x30)) 0 ds)), r')"
  unfolding scan_number_def Let_def assms(1-3) using assms(4-7) by simp

lemma scan_number_dec_int:
  assumes "ends r" and "length (dec_nat (nat \<bar>i\<bar>)) \<le> 4300"
  shows "scan_number (py_str (dec_int i) @ r) = Inr (JInt i, r)"
proof -
  let ?n = "nat \<bar>i\<bar>"
  let ?D = "py_str (dec_nat ?n)"
  define sign :: "nat list" where "sign = (if i < 0 then [0x2d] else [])"
  have shown: "py_str (dec_int i) @ r = sign @ ?D @ r" by (simp add: dec_int_def sign_def)
  have "hd ?D \<noteq> 0x2d" using dec_nat_hd [of ?n] by (simp add: hd_map is_digit_def)
  then have s: "takeWhile ((=) 0x2d) (take 1 (sign @ ?D @ r)) = sign" "drop (length sign) (sign @ ?D @ r) = ?D @ r"
    by (cases "dec_nat ?n"; simp add: sign_def)+
  have d: "?D \<noteq> []" "length ?D \<le> 4300" using assms(2) by simp_all
  have e: "scan_fraction (drop (length ?D) (?D @ r)) = ([], r)" by (simp add: ends_no_parts(1) [OF assms(1)])
  show ?thesis
    unfolding shown scan_number_parts [OF s scan_digits [OF assms(1)] d e ends_no_parts(2) [OF assms(1)]] digits_of_text
    by (simp add: sign_def)
qed

lemma reads_int:
  assumes "length (dec_nat (nat \<bar>i\<bar>)) \<le> 4300"
  shows "reads (scan_value depth) (py_str (dec_int i)) (JInt i)"
proof (rule reads_scalar)
  obtain d ds where D: "dec_nat (nat \<bar>i\<bar>) = d # ds" by (cases "dec_nat (nat \<bar>i\<bar>)") simp_all
  have d: "0x30 \<le> (of_char d :: nat)" "(of_char d :: nat) \<le> 0x39" using dec_nat_hd [of "nat \<bar>i\<bar>"] D by (simp_all add: is_digit_def)
  have shown: "py_str (dec_int i) = (if i < 0 then [0x2d, of_char d] else [of_char d]) @ py_str ds"
    using D by (auto simp: dec_int_def)
  have "scan_scalar (py_str (dec_int i) @ r) = Inr (JInt i, r)" if "ends r" for r
    using not_literal [of "py_str (dec_int i) @ r"] scan_number_dec_int [OF that assms] d
    by (auto simp: scan_scalar_def shown numeral_2_eq_2 split: if_splits)
  then show "reads scan_scalar (py_str (dec_int i)) (JInt i)" using d by (auto simp: reads_def shown)
  show "\<not> starts 0x7b (py_str (dec_int i))" "\<not> starts 0x5b (py_str (dec_int i))" using d by (auto simp: shown)
qed

section \<open>Printed objects\<close>

text \<open>Members with their keys and the texts of their values, joined without spaces.\<close>

fun shown_members :: "(nat list \<times> nat list) list \<Rightarrow> nat list" where
  "shown_members [] = []"
| "shown_members [(k, t)] = shown_string k @ 0x3a # t"
| "shown_members ((k, t) # m # ms) = shown_string k @ 0x3a # t @ 0x2c # shown_members (m # ms)"

definition shown_object :: "(nat list \<times> nat list) list \<Rightarrow> nat list" where
  "shown_object ms = 0x7b # shown_members ms @ [0x7d]"

lemma update_new: "k \<notin> fst ` set kvs \<Longrightarrow> AList.update k v kvs = kvs @ [(k, v)]"
  by (induction kvs) auto

lemma quote_not_white [simp]: "skip_white (shown_string k @ r) = shown_string k @ r"
  by (simp add: shown_string_def skip_white_def)

lemma scan_shown_member:
  assumes "reads scan t v" and "ends r" and "k \<notin> fst ` set kvs"
  shows "scan_members scan (Suc n) kvs (shown_string k @ 0x3a # t @ r) =
    (if starts 0x7d r then Inr (kvs @ [(k, v)], tl r)
     else if starts 0x2c r then scan_members scan n (kvs @ [(k, v)]) (skip_white (tl r)) else Inl JSONDecodeError)"
proof -
  have "starts 0x22 (shown_string k @ 0x3a # t @ r)" by (simp add: shown_string_def)
  moreover have "scan_string (tl (shown_string k @ 0x3a # t @ r)) = Inr (k, 0x3a # t @ r)"
    using scan_shown_string [of k "0x3a # t @ r"] by (simp add: shown_string_def)
  moreover have "skip_white (0x3a # t @ r) = 0x3a # t @ r" by (simp add: skip_white_def)
  ultimately show ?thesis
    using reads_skip_white [OF assms(1), of r] readsD [OF assms(1,2)] assms(2) by (simp add: Let_def update_new [OF assms(3)])
qed

lemma scan_shown_members:
  assumes "\<forall>(k, t, v) \<in> set ms. reads scan t v" and "distinct (map fst kvs @ map fst ms)" and "ms \<noteq> []" and "length ms \<le> n"
  shows "scan_members scan n kvs (shown_members (map (\<lambda>(k, t, v). (k, t)) ms) @ 0x7d # r)
    = Inr (kvs @ map (\<lambda>(k, t, v). (k, v)) ms, r)"
  using assms
proof (induction ms arbitrary: kvs n rule: induct_list012)
  case (2 e)
  obtain k t v where e: "e = (k, t, v)" by (cases e)
  obtain m where "n = Suc m" using "2.prems"(4) by (cases n) auto
  then show ?case
    using "2.prems" scan_shown_member [of scan t v "0x7d # r" k kvs m] by (simp add: e del: scan_members.simps)
next
  case (3 e f ms)
  obtain k t v where e: "e = (k, t, v)" by (cases e)
  obtain l u w where f: "f = (l, u, w)" by (cases f)
  obtain m where m: "n = Suc m" using "3.prems"(4) by (cases n) auto
  let ?rest = "shown_members (map (\<lambda>(k, t, v). (k, t)) (f # ms)) @ 0x7d # r"
  have "skip_white ?rest = ?rest" by (cases ms) (simp_all add: f split: prod.splits)
  moreover have "scan_members scan m (kvs @ [(k, v)]) ?rest = Inr ((kvs @ [(k, v)]) @ map (\<lambda>(k, t, v). (k, v)) (f # ms), r)"
    using "3.prems" m by (intro "3.IH"(2)) (auto simp: e)
  ultimately show ?case
    using "3.prems" scan_shown_member [of scan t v "0x2c # ?rest" k kvs m]
    by (simp add: e f m del: scan_members.simps)
qed simp

lemma length_shown_members: "length ms \<le> length (shown_members ms)"
  by (induction ms rule: shown_members.induct) simp_all

lemma reads_object:
  assumes "\<forall>(k, t, v) \<in> set ms. reads (scan_value depth) t v" and "distinct (map fst ms)" and "ms \<noteq> []"
  shows "reads (scan_value (Suc depth)) (shown_object (map (\<lambda>(k, t, v). (k, t)) ms)) (JObject (map (\<lambda>(k, t, v). (k, v)) ms))"
proof -
  let ?kts = "map (\<lambda>(k, t, v). (k, t)) ms"
  have "scan_value (Suc depth) (shown_object ?kts @ r) = Inr (JObject (map (\<lambda>(k, t, v). (k, v)) ms), r)" for r
  proof -
    let ?s = "shown_members ?kts @ 0x7d # r"
    obtain k t v ms' where "ms = (k, t, v) # ms'" using assms(3) by (cases ms) auto
    then have "skip_white ?s = ?s" "\<not> starts 0x7d ?s" by (cases ms'; simp add: shown_string_def skip_white_def split: prod.splits)+
    moreover have "length ms \<le> length ?s" using length_shown_members [of ?kts] by simp
    then have "scan_members (scan_value depth) (length ?s) [] ?s = Inr (map (\<lambda>(k, t, v). (k, v)) ms, r)"
      using scan_shown_members [of ms "scan_value depth" "[]" "length ?s" r] assms by simp
    ultimately show ?thesis by (simp add: shown_object_def Let_def)
  qed
  then show ?thesis by (simp add: reads_def shown_object_def)
qed

lemma loads_shown: "reads (scan_value depth) t v \<Longrightarrow> \<not> starts 0xfeff t \<Longrightarrow> json_loads depth t = Inr v"
  using readsD [of "scan_value depth" t v "[]"] reads_skip_white [of "scan_value depth" t v "[]"]
  by (simp add: json_loads_def)

section \<open>Printed arrays\<close>

fun shown_elements :: "nat list list \<Rightarrow> nat list" where
  "shown_elements [] = []"
| "shown_elements [t] = t"
| "shown_elements (t # u # us) = t @ 0x2c # shown_elements (u # us)"

lemma shown_elements_starts: "ts \<noteq> [] \<Longrightarrow> \<exists>r. shown_elements ts = hd ts @ r"
  by (cases ts rule: shown_elements.cases) auto

lemma length_shown_elements: "\<forall>t \<in> set ts. t \<noteq> [] \<Longrightarrow> length ts \<le> length (shown_elements ts)"
proof (induction ts rule: shown_elements.induct)
  case (2 t)
  then show ?case by (cases t) simp_all
qed auto

lemma scan_shown_elements:
  assumes "\<forall>(t, v) \<in> set ms. reads scan t v" and "ms \<noteq> []" and "length ms \<le> n"
  shows "scan_elements scan n (shown_elements (map fst ms) @ 0x5d # r) = Inr (map snd ms, r)"
  using assms
proof (induction ms arbitrary: n rule: induct_list012)
  case (2 e)
  then show ?case using readsD [of scan "fst e" "snd e" "0x5d # r"] by (cases n; cases e) (simp_all add: Let_def)
next
  case (3 e f ms)
  obtain m where m: "n = Suc m" using "3.prems"(3) by (cases n) auto
  let ?rest = "shown_elements (map fst (f # ms)) @ 0x5d # r"
  have reads: "reads scan (fst e) (snd e)" "reads scan (fst f) (snd f)" using "3.prems"(1) by (cases e; cases f; simp)+
  obtain u where "?rest = fst f @ u" using shown_elements_starts [of "map fst (f # ms)"] by auto
  then have "skip_white ?rest = ?rest" using reads_skip_white [OF reads(2), of u] by (simp only:)
  moreover have "scan_elements scan m ?rest = Inr (map snd (f # ms), r)" using "3.prems" m by (intro "3.IH"(2)) auto
  moreover have "skip_white (0x2c # ?rest) = 0x2c # ?rest" by (simp add: skip_white_def)
  ultimately show ?case using readsD [OF reads(1), of "0x2c # ?rest"] by (simp add: m)
qed simp

lemma reads_array:
  assumes "\<forall>(t, v) \<in> set ms. reads (scan_value depth) t v"
  shows "reads (scan_value (Suc depth)) (0x5b # shown_elements (map fst ms) @ [0x5d]) (JArray (map snd ms))"
proof (cases "ms = []")
  case True
  then show ?thesis by (simp add: reads_def skip_white_def)
next
  case False
  have "scan_value (Suc depth) ((0x5b # shown_elements (map fst ms) @ [0x5d]) @ r) = Inr (JArray (map snd ms), r)" for r
  proof -
    let ?s = "shown_elements (map fst ms) @ 0x5d # r"
    obtain t v ms' where ms: "ms = (t, v) # ms'" using False by (cases ms) auto
    then have t: "reads (scan_value depth) t v" using assms by simp
    obtain u where u: "?s = t @ u" using shown_elements_starts [of "map fst ms"] ms by auto
    have "skip_white ?s = ?s" unfolding u by (rule reads_skip_white [OF t])
    moreover have "\<not> starts 0x5d ?s"
    proof
      assume "starts 0x5d ?s"
      then have "hd t = 0x5d" using t unfolding u by (simp add: reads_def starts_def)
      then have "scan_value depth (t @ []) = Inl JSONDecodeError"
        using t by (cases t; cases depth) (auto simp: reads_def scan_scalar_def scan_number_def literals_def)
      then show False using readsD [OF t, of "[]"] by simp
    qed
    moreover have "\<forall>t \<in> set (map fst ms). t \<noteq> []" using assms by (auto simp: reads_def)
    then have "length ms \<le> length ?s" using length_shown_elements [of "map fst ms"] by simp
    then have "scan_elements (scan_value depth) (length ?s) ?s = Inr (map snd ms, r)"
      by (rule scan_shown_elements [OF assms False])
    ultimately show ?thesis by (simp add: Let_def)
  qed
  then show ?thesis by (simp add: reads_def)
qed

section \<open>Dumps without escaping, and back\<close>

text \<open>\<open>json.dumps(value, sort_keys=True, separators=(",", ":"), ensure_ascii=False)\<close>\<close>

function dumps_raw :: "py_value \<Rightarrow> nat list" where
  "dumps_raw PyNone = py_str ''null''"
| "dumps_raw (PyInt i) = py_str (dec_int i)"
| "dumps_raw (PyStr s) = shown_string s"
| "dumps_raw (PyList vs) = 0x5b # shown_elements (map dumps_raw vs) @ [0x5d]"
| "dumps_raw (PyDict kvs) = shown_object (map (\<lambda>(k, v). (py_str k, dumps_raw v)) (sort_key fst kvs))"
  by pat_completeness auto

termination dumps_raw
  by (relation "measure size")
    (auto dest: py_member_size size_list_estimation' [where f = size, OF _ order_refl] simp: less_Suc_eq_le)

text \<open>The objects \<open>json.loads\<close> makes of what was printed.\<close>

function loaded :: "py_value \<Rightarrow> py_json" where
  "loaded PyNone = JNull"
| "loaded (PyInt i) = JInt i"
| "loaded (PyStr s) = JStr s"
| "loaded (PyList vs) = JArray (map loaded vs)"
| "loaded (PyDict kvs) = JObject (map (\<lambda>(k, v). (py_str k, loaded v)) (sort_key fst kvs))"
  by pat_completeness auto

termination loaded
  by (relation "measure size")
    (auto dest: py_member_size size_list_estimation' [where f = size, OF _ order_refl] simp: less_Suc_eq_le)

text \<open>Objects and lists of numbers and strings, nested at most \<open>depth\<close> deep.\<close>

fun loadable :: "nat \<Rightarrow> py_value \<Rightarrow> bool" where
  "loadable depth PyNone \<longleftrightarrow> True"
| "loadable depth (PyInt i) \<longleftrightarrow> length (dec_nat (nat \<bar>i\<bar>)) \<le> 4300"
| "loadable depth (PyStr s) \<longleftrightarrow> True"
| "loadable 0 (PyList vs) \<longleftrightarrow> False"
| "loadable (Suc depth) (PyList vs) \<longleftrightarrow> list_all (loadable depth) vs"
| "loadable 0 (PyDict kvs) \<longleftrightarrow> False"
| "loadable (Suc depth) (PyDict kvs) \<longleftrightarrow>
     kvs \<noteq> [] \<and> distinct (map fst kvs) \<and> list_all (\<lambda>(k, v). loadable depth v) kvs"

lemma inj_py_str: "inj (map (of_char :: char \<Rightarrow> nat))"
  by (rule inj_mapI) (rule inj_of_char)

lemma reads_members:
  assumes "\<forall>(k, v) \<in> set kvs. reads (scan_value depth) (tx v) (loaded v)" and "kvs \<noteq> []" and "distinct (map fst kvs)"
  shows "reads (scan_value (Suc depth)) (shown_object (map (\<lambda>(k, v). (py_str k, tx v)) (sort_key fst kvs))) (loaded (PyDict kvs))"
proof -
  let ?ms = "map (\<lambda>(k, v). (py_str k, tx v, loaded v)) (sort_key fst kvs)"
  have "\<forall>(k, t, v) \<in> set ?ms. reads (scan_value depth) t v" using assms(1) by fastforce
  moreover have "distinct (map fst ?ms)"
  proof -
    have "distinct (map fst (sort_key fst kvs))" using assms(3) by (simp add: distinct_map)
    then have "distinct (map py_str (map fst (sort_key fst kvs)))"
      using inj_py_str by (simp only: distinct_map inj_on_subset [OF inj_py_str subset_UNIV])
    moreover have "map fst ?ms = map py_str (map fst (sort_key fst kvs))" by (simp add: case_prod_beta)
    ultimately show ?thesis by (simp only:)
  qed
  moreover have "?ms \<noteq> []" using assms(2) by simp (metis length_0_conv length_sort)
  ultimately have "reads (scan_value (Suc depth)) (shown_object (map (\<lambda>(k, t, v). (k, t)) ?ms)) (JObject (map (\<lambda>(k, t, v). (k, v)) ?ms))"
    by (rule reads_object)
  moreover have "map (\<lambda>(k, t, v). (k, t)) ?ms = map (\<lambda>(k, v). (py_str k, tx v)) (sort_key fst kvs)"
    "map (\<lambda>(k, t, v). (k, v)) ?ms = map (\<lambda>(k, v). (py_str k, loaded v)) (sort_key fst kvs)"
    by (simp_all add: case_prod_beta)
  ultimately show ?thesis by (simp only: loaded.simps)
qed

lemma reads_list:
  assumes "\<forall>v \<in> set vs. reads (scan_value depth) (tx v) (loaded v)"
  shows "reads (scan_value (Suc depth)) (0x5b # shown_elements (map tx vs) @ [0x5d]) (loaded (PyList vs))"
  using reads_array [of "map (\<lambda>v. (tx v, loaded v)) vs" depth] assms by (simp add: comp_def)

lemma reads_dumps_raw: "loadable depth v \<Longrightarrow> reads (scan_value depth) (dumps_raw v) (loaded v)"
proof (induction depth v rule: loadable.induct)
  case (5 depth vs)
  then show ?case unfolding dumps_raw.simps by (intro reads_list) (simp add: list_all_iff)
next
  case (7 depth kvs)
  then have "\<forall>(k, v) \<in> set kvs. reads (scan_value depth) (dumps_raw v) (loaded v)" by (fastforce simp: list_all_iff)
  then show ?case unfolding dumps_raw.simps by (rule reads_members) (use "7.prems" in simp_all)
qed (simp_all add: reads_null [simplified] reads_int reads_string del: scan_value.simps)

lemma loads_dumps_raw: "loadable depth (PyDict kvs) \<Longrightarrow> json_loads depth (dumps_raw (PyDict kvs)) = Inr (loaded (PyDict kvs))"
  by (rule loads_shown [OF reads_dumps_raw]) (simp_all add: shown_object_def)

section \<open>Objects as bytes\<close>

lemma join_fields_shown: "join_fields shown fs = join_fields (\<lambda>t. t) (map (\<lambda>(k, v). (k, shown v)) fs)"
  by (induction shown fs rule: join_fields.induct) (auto simp: case_prod_beta)

lemma join_object_cong:
  "map (\<lambda>(k, v). (k, shown v)) fs = map (\<lambda>(k, v). (k, shown' v)) gs \<Longrightarrow> join_object shown fs = join_object shown' gs"
  using join_fields_shown [of shown fs] join_fields_shown [of shown' gs] by (simp add: join_object_def)

lemma quoted_key_utf8:
  assumes "ascii_key k"
  shows "quoted_key k = utf8_of (shown_string (py_str k) @ [0x3a])"
proof -
  have "concat (map shown_char (py_str k)) = py_str k"
    using assms by (induction k) (auto simp: ascii_key_def plain_key_def shown_char_def)
  moreover have "utf8_of (py_str k) = k" using assms by (intro utf8_of_ascii) (simp add: ascii_key_def)
  ultimately show ?thesis
    by (simp add: quoted_key_def shown_string_def python_escape_ascii)
qed

text \<open>An object of the C++ side is the encoding of one of the Python side, if its values are.\<close>

lemma join_fields_utf8:
  assumes "\<forall>(k, v) \<in> set fs. ascii_key k \<and> shown v = utf8_of (tx v)"
  shows "join_fields shown fs = utf8_of (shown_members (map (\<lambda>(k, v). (py_str k, tx v)) fs))"
  using assms
proof (induction shown fs rule: join_fields.induct)
  case (2 shown k v)
  then show ?case using quoted_key_utf8 [of k] by simp
next
  case (3 shown k v f fs)
  have "utf8_of [0x2c] = [CHR '','']" by (simp add: python_escape_ascii)
  then show ?case using 3 quoted_key_utf8 [of k] by (cases f) simp
qed simp

lemma join_object_utf8:
  assumes "\<forall>(k, v) \<in> set fs. ascii_key k \<and> shown v = utf8_of (tx v)"
  shows "join_object shown fs = utf8_of (shown_object (map (\<lambda>(k, v). (py_str k, tx v)) fs))"
  unfolding join_object_def shown_object_def join_fields_utf8 [OF assms]
  by (simp add: python_escape_ascii)

text \<open>Strings without surrogates and ASCII keys, so that the text can be encoded.\<close>

function encodable :: "py_value \<Rightarrow> bool" where
  "encodable PyNone \<longleftrightarrow> True"
| "encodable (PyInt i) \<longleftrightarrow> True"
| "encodable (PyStr s) \<longleftrightarrow> (\<forall>c \<in> set s. scalar c)"
| "encodable (PyList vs) \<longleftrightarrow> (\<forall>v \<in> set vs. encodable v)"
| "encodable (PyDict kvs) \<longleftrightarrow> (\<forall>(k, v) \<in> set kvs. ascii_key k \<and> encodable v)"
  by pat_completeness auto

termination encodable
  by (relation "measure size")
    (auto dest: py_member_size size_list_estimation' [where f = size, OF _ order_refl] simp: less_Suc_eq_le)

lemma scalar_ascii: "\<forall>c \<in> set s. (of_char c :: nat) < 0x7f \<Longrightarrow> \<forall>c \<in> set (py_str s). scalar c"
  by (auto simp: scalar_def)

lemma scalar_shown_members:
  "\<forall>(k, t) \<in> set ms. (\<forall>c \<in> set k. scalar c) \<and> (\<forall>c \<in> set t. scalar c) \<Longrightarrow> \<forall>c \<in> set (shown_members ms). scalar c"
  by (induction ms rule: shown_members.induct) (auto dest: scalar_shown_string)

lemma scalar_shown_elements: "\<forall>t \<in> set ts. \<forall>c \<in> set t. scalar c \<Longrightarrow> \<forall>c \<in> set (shown_elements ts). scalar c"
  by (induction ts rule: shown_elements.induct) auto

lemma dec_int_ascii: "c \<in> set (dec_int i) \<Longrightarrow> (of_char c :: nat) < 0x7f"
  using json_dumps_printable [of "PyInt i" c] by simp

lemma encodable_dumps_raw: "encodable v \<Longrightarrow> \<forall>c \<in> set (dumps_raw v). scalar c"
proof (induction v rule: encodable.induct)
  case (2 i)
  then show ?case using scalar_ascii [of "dec_int i"] dec_int_ascii by simp
next
  case (3 s)
  then show ?case using scalar_shown_string [of s] by simp
next
  case (4 vs)
  then show ?case using scalar_shown_elements [of "map dumps_raw vs"] by auto
next
  case (5 kvs)
  then have "\<forall>(k, t) \<in> set (map (\<lambda>(k, v). (py_str k, dumps_raw v)) (sort_key fst kvs)).
      (\<forall>c \<in> set k. scalar c) \<and> (\<forall>c \<in> set t. scalar c)"
    using scalar_ascii by (fastforce simp: ascii_key_def)
  from scalar_shown_members [OF this] show ?case
    by (auto simp: shown_object_def)
qed (simp add: scalar_def)

lemma decode_dumps_raw: "encodable v \<Longrightarrow> decode_utf8 (utf8_of (dumps_raw v)) = Some (dumps_raw v)"
  by (rule decode_utf8_encoded) (rule encodable_dumps_raw)

end
