(* ===== verification/Python_Requests.thy ===== *)
theory Python_Requests
  imports Python_Reading Job
begin

text \<open>
  A Python node that serves a C++ node: \<open>JobRequest\<close> of \<open>job.py\<close> with its validation, signing and verification, the
  reference job, and \<open>recv_frame\<close> and \<open>serve_one_job\<close> of \<open>transport.py\<close>.  The \<open>cryptography\<close> package (\<open>sign\<close>, \<open>verify\<close>)
  is a parameter, and so is \<open>base64.b64decode\<close>, whose treatment of malformed text depends on the version.
\<close>

section \<open>Requests\<close>

record PyJobRequest =
  protocol_version :: "nat list"
  message_id :: "nat list"
  request_id :: "nat list"
  sender_node_id :: "nat list"
  target_node_id :: "nat list"
  organization_id :: "nat list option"
  operation :: "nat list"
  payload :: "nat list"
  issued_at :: int
  expires_at :: int
  signature_algorithm :: "nat list"
  signature :: "nat list"

definition py_optional :: "nat list option \<Rightarrow> py_value" where
  "py_optional x = (case x of None \<Rightarrow> PyNone | Some s \<Rightarrow> PyStr s)"

definition request_asdict :: "PyJobRequest \<Rightarrow> (string \<times> py_value) list" where
  "request_asdict r =
     [(''protocol_version'', PyStr (protocol_version r)), (''message_id'', PyStr (message_id r)),
      (''request_id'', PyStr (request_id r)), (''sender_node_id'', PyStr (sender_node_id r)),
      (''target_node_id'', PyStr (target_node_id r)), (''organization_id'', py_optional (organization_id r)),
      (''operation'', PyStr (operation r)), (''payload'', PyStr (payload r)),
      (''issued_at'', PyInt (issued_at r)), (''expires_at'', PyInt (expires_at r)),
      (''signature_algorithm'', PyStr (signature_algorithm r)), (''signature'', PyStr (signature r))]"

definition request_validate :: "int option \<Rightarrow> PyJobRequest \<Rightarrow> py_error option" where
  "request_validate now r =
     (if \<not> list_all (\<lambda>s. s \<noteq> []) [protocol_version r, message_id r, request_id r, sender_node_id r, target_node_id r,
          operation r]
      then Some (ValueError ''missing job request field'')
      else if operation r \<notin> {py_str ''PING'', py_str ''ECHO''} then Some (ValueError ''unsupported job operation'')
      else if issued_at r < 0 \<or> expires_at r \<le> issued_at r then Some (ValueError ''invalid job validity window'')
      else if (case now of None \<Rightarrow> False | Some t \<Rightarrow> \<not> (issued_at r \<le> t \<and> t \<le> expires_at r))
      then Some (ValueError ''job request expired or not yet valid'')
      else if signature_algorithm r \<noteq> py_str ''Ed25519'' then Some (ValueError ''unsupported signature algorithm'')
      else None)"

definition py_sign_job_request :: "(byte list \<Rightarrow> byte list) \<Rightarrow> PyJobRequest \<Rightarrow> py_error + PyJobRequest" where
  "py_sign_job_request sign r =
     (case request_validate None r of Some e \<Rightarrow> Inl e
      | None \<Rightarrow>
        let unsigned = r\<lparr>signature := []\<rparr>;
            sig = sign (bytes_of_string (canonical_json (without_signature (request_asdict unsigned))))
        in Inr (unsigned\<lparr>signature := py_b64 sig\<rparr>))"

text \<open>\<open>_unb64\<close>: \<open>encode("ascii")\<close> fails on other characters, \<open>b64decode\<close> on other texts than Base64.\<close>

definition py_unb64 :: "(string \<Rightarrow> byte list option) \<Rightarrow> nat list \<Rightarrow> byte list option" where
  "py_unb64 b64decode s = (if \<forall>c \<in> set s. c < 0x80 then b64decode (map char_of s) else None)"

lemma py_unb64_b64: "py_unb64 b64decode (py_b64 data) = b64decode (url_safe (base64 data))"
proof -
  have "\<forall>c \<in> set (py_b64 data). c < 0x80" by (auto simp: py_b64_def dest!: url_safe_ascii)
  then show ?thesis by (simp add: py_unb64_def py_b64_def comp_def)
qed

text \<open>Every exception of the \<open>try\<close> block is among those it catches.\<close>

definition py_verify_job_request ::
    "(string \<Rightarrow> byte list option) \<Rightarrow> (byte list \<Rightarrow> byte list \<Rightarrow> bool) \<Rightarrow> int option \<Rightarrow> PyJobRequest \<Rightarrow> bool" where
  "py_verify_job_request b64decode verify now r =
     (case request_validate now r of
        Some e \<Rightarrow> False
      | None \<Rightarrow>
          if signature r = [] then False
          else case py_unb64 b64decode (signature r) of
              None \<Rightarrow> False
            | Some sig \<Rightarrow> verify sig (bytes_of_string (canonical_json (without_signature (request_asdict r)))))"

definition py_execute_reference_job :: "PyJobRequest \<Rightarrow> nat list \<times> nat list" where
  "py_execute_reference_job r =
     (if operation r = py_str ''PING'' then (py_str ''OK'', py_str ''PONG'')
      else if operation r = py_str ''ECHO'' then (py_str ''OK'', payload r)
      else (py_str ''ERROR'', py_str ''unsupported_operation''))"

section \<open>Frames and the server\<close>

text \<open>
  \<open>_recv_exact\<close>: the peer's bytes arrive in pieces; an empty piece, or none, is the end of the connection.  What is not
  asked for stays in the buffer of the socket.
\<close>

fun py_recv_exact :: "nat \<Rightarrow> byte list list \<Rightarrow> py_error + byte list \<times> byte list list" where
  "py_recv_exact 0 pieces = Inr ([], pieces)"
| "py_recv_exact (Suc n) [] = Inl (ConnectionError ''connection closed before frame completed'')"
| "py_recv_exact (Suc n) (piece # pieces) =
     (if piece = [] then Inl (ConnectionError ''connection closed before frame completed'')
      else if length piece \<le> Suc n
      then py_bind (py_recv_exact (Suc n - length piece) pieces) (\<lambda>(bs, rest). Inr (piece @ bs, rest))
      else Inr (take (Suc n) piece, drop (Suc n) piece # pieces))"

text \<open>\<open>struct.unpack("!I", bs)\<close>\<close>

definition unpack_uint :: "byte list \<Rightarrow> nat" where
  "unpack_uint bs = foldl (\<lambda>v b. v * 256 + unat b) 0 bs"

definition recv_frame ::
    "nat \<Rightarrow> byte list list \<Rightarrow> py_error + (nat list \<times> (nat list \<times> py_json) list) \<times> byte list list" where
  "recv_frame depth pieces =
     py_bind (py_recv_exact 4 pieces) (\<lambda>(header, pieces).
     let size = unpack_uint header in
     if size = 0 \<or> size > MAX_FRAME_BYTES then Inl (ValueError ''invalid frame length'')
     else py_bind (py_recv_exact size pieces) (\<lambda>(body, pieces).
       case decode_utf8 (string_of_bytes body) of
         None \<Rightarrow> Inl UnicodeError
       | Some t \<Rightarrow>
           py_bind (json_loads depth t) (\<lambda>raw.
             case raw of
               JObject kvs \<Rightarrow>
                 if set (map fst kvs) \<noteq> {py_str ''type'', py_str ''payload''} then Inl (ValueError ''invalid frame envelope'')
                 else (case (map_of kvs (py_str ''type''), map_of kvs (py_str ''payload'')) of
                     (Some (JStr ty), Some (JObject members)) \<Rightarrow> Inr ((ty, members), pieces)
                   | _ \<Rightarrow> Inl (ValueError ''invalid frame fields''))
             | _ \<Rightarrow> Inl (ValueError ''invalid frame envelope''))))"

text \<open>
  \<open>JobRequest(**payload)\<close>: every keyword is a field, and every field without a default is given.  The types of the
  values are not checked at run time; the model goes on only with those the source annotates.
\<close>

definition str_field :: "(nat list \<times> py_json) list \<Rightarrow> string \<Rightarrow> py_error + nat list" where
  "str_field kvs k = (case map_of kvs (py_str k) of Some (JStr s) \<Rightarrow> Inr s | _ \<Rightarrow> Inl Untyped)"

definition int_field :: "(nat list \<times> py_json) list \<Rightarrow> string \<Rightarrow> py_error + int" where
  "int_field kvs k = (case map_of kvs (py_str k) of Some (JInt i) \<Rightarrow> Inr i | _ \<Rightarrow> Inl Untyped)"

definition opt_field :: "(nat list \<times> py_json) list \<Rightarrow> string \<Rightarrow> py_error + nat list option" where
  "opt_field kvs k =
     (case map_of kvs (py_str k) of Some (JStr s) \<Rightarrow> Inr (Some s) | Some JNull \<Rightarrow> Inr None | _ \<Rightarrow> Inl Untyped)"

definition default_field :: "(nat list \<times> py_json) list \<Rightarrow> string \<Rightarrow> nat list \<Rightarrow> py_error + nat list" where
  "default_field kvs k d = (if map_of kvs (py_str k) = None then Inr d else str_field kvs k)"

definition required_fields :: "string list" where
  "required_fields =
     [''protocol_version'', ''message_id'', ''request_id'', ''sender_node_id'', ''target_node_id'', ''organization_id'',
      ''operation'', ''payload'', ''issued_at'', ''expires_at'']"

definition job_request_of :: "(nat list \<times> py_json) list \<Rightarrow> py_error + PyJobRequest" where
  "job_request_of kvs =
     (if \<not> set (map fst kvs) \<subseteq> py_str ` set (required_fields @ [''signature_algorithm'', ''signature''])
      then Inl (TypeError ''unexpected keyword argument'')
      else if \<not> py_str ` set required_fields \<subseteq> set (map fst kvs) then Inl (TypeError ''missing required arguments'')
      else
        py_bind (str_field kvs ''protocol_version'') (\<lambda>pv.
        py_bind (str_field kvs ''message_id'') (\<lambda>mid.
        py_bind (str_field kvs ''request_id'') (\<lambda>rid.
        py_bind (str_field kvs ''sender_node_id'') (\<lambda>sender.
        py_bind (str_field kvs ''target_node_id'') (\<lambda>target.
        py_bind (opt_field kvs ''organization_id'') (\<lambda>org.
        py_bind (str_field kvs ''operation'') (\<lambda>op.
        py_bind (str_field kvs ''payload'') (\<lambda>pl.
        py_bind (int_field kvs ''issued_at'') (\<lambda>iat.
        py_bind (int_field kvs ''expires_at'') (\<lambda>exp.
        py_bind (default_field kvs ''signature_algorithm'' (py_str ''Ed25519'')) (\<lambda>alg.
        py_bind (default_field kvs ''signature'' []) (\<lambda>sig.
        Inr \<lparr>protocol_version = pv, message_id = mid, request_id = rid, sender_node_id = sender, target_node_id = target,
           organization_id = org, operation = op, payload = pl, issued_at = iat, expires_at = exp,
           signature_algorithm = alg, signature = sig\<rparr>)))))))))))))"

text \<open>The bytes that \<open>serve_one_job\<close> sends on the accepted connection.\<close>

definition serve_one_job ::
    "nat \<Rightarrow> (PyJobRequest \<Rightarrow> py_error + PyJobResult) \<Rightarrow> byte list list \<Rightarrow> py_error + byte list" where
  "serve_one_job depth handler pieces =
     py_bind (recv_frame depth pieces) (\<lambda>((message_type, members), pieces).
     if message_type \<noteq> py_str ''JOB_REQUEST'' then Inl (ValueError ''unexpected request type'')
     else py_bind (job_request_of members) (\<lambda>request.
       py_bind (handler request) (\<lambda>result.
       send_frame (py_str ''JOB_RESULT'') (result_asdict result))))"

text \<open>
  The handler of a node in the manner of \<open>tests/test_job_transport.py\<close>: the request must be for this node and verify at
  this time; the job is run and its result, in the protocol version of the request, is signed.
\<close>

definition node_handler ::
    "(string \<Rightarrow> byte list option) \<Rightarrow> (byte list \<Rightarrow> byte list \<Rightarrow> bool) \<Rightarrow> (byte list \<Rightarrow> byte list) \<Rightarrow> nat list \<Rightarrow>
       nat list \<Rightarrow> int \<Rightarrow> int \<Rightarrow> PyJobRequest \<Rightarrow> py_error + PyJobResult" where
  "node_handler b64decode verify sign node reply_id now completed incoming =
     (if target_node_id incoming \<noteq> node \<or> \<not> py_verify_job_request b64decode verify (Some now) incoming then Inl AssertionError
      else
        let (status, text) = py_execute_reference_job incoming in
        py_sign_job_result sign
          \<lparr>PyJobResult.protocol_version = protocol_version incoming, PyJobResult.message_id = reply_id,
           PyJobResult.request_id = request_id incoming, responder_node_id = node,
           recipient_node_id = sender_node_id incoming, status = status, PyJobResult.payload = text,
           completed_at = completed, PyJobResult.signature_algorithm = py_str ''Ed25519'', PyJobResult.signature = []\<rparr>)"

section \<open>Receiving\<close>

lemma py_recv_exact_pieces:
  assumes "[] \<notin> set pieces" and "concat pieces = bs @ rest" and "length bs = n"
  shows "\<exists>pieces'. py_recv_exact n pieces = Inr (bs, pieces') \<and> [] \<notin> set pieces' \<and> concat pieces' = rest"
  using assms
proof (induction n pieces arbitrary: bs rule: py_recv_exact.induct)
  case (3 n piece pieces)
  show ?case
  proof (cases "length piece \<le> Suc n")
    case True
    have "piece @ concat pieces = bs @ rest" using "3.prems"(2) by simp
    then obtain us where us: "bs = piece @ us" "concat pieces = us @ rest"
      using True "3.prems"(3) by (auto simp: append_eq_append_conv2)
    moreover have "piece \<noteq> []" using "3.prems"(1) by auto
    ultimately have "\<exists>pieces'. py_recv_exact (Suc n - length piece) pieces = Inr (us, pieces') \<and> [] \<notin> set pieces' \<and>
        concat pieces' = rest"
      using "3.prems" True by (intro "3.IH") auto
    then show ?thesis using us True \<open>piece \<noteq> []\<close> by auto
  next
    case False
    then show ?thesis using "3.prems" by (auto simp: append_eq_append_conv_if split: if_splits)
  qed
qed auto

lemma unpack_pack_uint:
  assumes "n < 2 ^ 32"
  shows "unpack_uint (pack_uint n) = n"
proof -
  have top: "n div 256 ^ 3 mod 256 = n div 256 ^ 3" using assms by simp
  have "n div 256 ^ 3 * 256 + n div 256 ^ 2 mod 256 = n div 256 ^ 2" "n div 256 ^ 2 * 256 + n div 256 mod 256 = n div 256"
    "n div 256 * 256 + n mod 256 = n"
    using div_mult2_eq [where m = n and n = "256 ^ 2" and q = "256"] div_mult2_eq [where m = n and n = "256" and q = "256"]
      div_mult_mod_eq [of "n div 256 ^ 2" 256] div_mult_mod_eq [of "n div 256" 256] div_mult_mod_eq [of n 256] by simp_all
  then have "((n div 256 ^ 3 * 256 + n div 256 ^ 2 mod 256) * 256 + n div 256 mod 256) * 256 + n mod 256 = n"
    by presburger
  then show ?thesis using top by (simp add: unpack_uint_def pack_uint_def unat_of_nat)
qed

lemma length_pack_uint: "length (pack_uint n) = 4"
  by (simp add: pack_uint_def)

text \<open>A frame of C++ is received, in whatever pieces it arrives.\<close>

lemma frame_received:
  assumes "encode_frame body = Return frame" and "[] \<notin> set pieces" and "concat pieces = frame @ rest"
  shows "\<exists>mid pieces'. py_recv_exact 4 pieces = Inr (pack_uint (length body), mid) \<and>
    py_recv_exact (length body) mid = Inr (bytes_of_string body, pieces') \<and> concat pieces' = rest"
proof -
  have n: "length body \<le> MAX_FRAME_BYTES" "body \<noteq> []" and frame: "frame = size_bytes (word_of_nat (length body)) @ bytes_of_string body"
    using assms(1) by (auto simp: encode_frame_eq_Return kMaxFrameBytes_def MAX_FRAME_BYTES_def)
  have "size_bytes (word_of_nat (length body)) = pack_uint (length body)"
    using n by (intro pack_uint_size_bytes [symmetric]) (simp add: MAX_FRAME_BYTES_def)
  then have "concat pieces = pack_uint (length body) @ bytes_of_string body @ rest" using assms(3) frame by simp
  from py_recv_exact_pieces [OF assms(2) this length_pack_uint]
  obtain mid where mid: "py_recv_exact 4 pieces = Inr (pack_uint (length body), mid)" "[] \<notin> set mid"
      "concat mid = bytes_of_string body @ rest" by blast
  moreover have "length (bytes_of_string body) = length body" by simp
  ultimately show ?thesis using py_recv_exact_pieces [OF mid(2,3)] by blast
qed

lemma frame_size:
  assumes "encode_frame body = Return frame"
  shows "unpack_uint (pack_uint (length body)) = length body" "0 < length body" "length body \<le> MAX_FRAME_BYTES"
proof -
  show "0 < length body" "length body \<le> MAX_FRAME_BYTES"
    using assms by (auto simp: encode_frame_eq_Return kMaxFrameBytes_def MAX_FRAME_BYTES_def)
  then show "unpack_uint (pack_uint (length body)) = length body"
    by (intro unpack_pack_uint) (simp add: MAX_FRAME_BYTES_def)
qed

lemma recv_frame_loaded:
  assumes "encode_frame (utf8_of (dumps_raw (PyDict [(''payload'', PyDict kvs), (''type'', PyStr (py_str ty))]))) = Return frame"
    and "encodable (PyDict kvs)" and "ascii_key ty" and "loadable (Suc depth) (PyDict kvs)"
    and "[] \<notin> set pieces" and "concat pieces = frame @ rest"
  shows "\<exists>pieces'. recv_frame (Suc (Suc depth)) pieces
      = Inr ((py_str ty, map (\<lambda>(k, v). (py_str k, loaded v)) (sort_key fst kvs)), pieces') \<and> concat pieces' = rest"
proof -
  let ?v = "PyDict [(''payload'', PyDict kvs), (''type'', PyStr (py_str ty))]"
  have "encodable (PyStr (py_str ty))" using assms(3) scalar_ascii [of ty] by (auto simp: ascii_key_def)
  moreover have "ascii_key ''payload''" "ascii_key ''type''" by (simp_all add: ascii_key_def plain_key_def json_escape_def)
  ultimately have "encodable ?v" using assms(2) by simp
  then have decoded: "decode_utf8 (utf8_of (dumps_raw ?v)) = Some (dumps_raw ?v)" by (rule decode_dumps_raw)
  have "loadable (Suc (Suc depth)) ?v" using assms(4) by simp
  then have loads: "json_loads (Suc (Suc depth)) (dumps_raw ?v) = Inr (loaded ?v)" by (rule loads_dumps_raw)
  have raw: "loaded ?v = JObject [(py_str ''payload'', loaded (PyDict kvs)), (py_str ''type'', JStr (py_str ty))]"
    by (simp add: less_eq_char_def less_char_def)
  obtain mid pieces' where recv: "py_recv_exact 4 pieces = Inr (pack_uint (length (utf8_of (dumps_raw ?v))), mid)"
      "py_recv_exact (length (utf8_of (dumps_raw ?v))) mid = Inr (bytes_of_string (utf8_of (dumps_raw ?v)), pieces')"
      "concat pieces' = rest"
    using frame_received [OF assms(1,5,6)] by blast
  show ?thesis
    unfolding recv_frame_def recv(1) py_bind_simps prod.case Let_def frame_size(1) [OF assms(1)] recv(2)
      string_of_bytes_of_string decoded option.case loads raw
    using frame_size(2,3) [OF assms(1)] recv(3) by (simp add: insert_commute)
qed

section \<open>Requests on both sides\<close>

text \<open>The request as C++ holds it; it writes an empty organisation as \<open>null\<close>.\<close>

definition cpp_request :: "PyJobRequest \<Rightarrow> JobRequest" where
  "cpp_request r = \<lparr>JobRequest.protocol_version = utf8_of (protocol_version r),
     JobRequest.message_id = utf8_of (message_id r), JobRequest.request_id = utf8_of (request_id r),
     JobRequest.sender_node_id = utf8_of (sender_node_id r), JobRequest.target_node_id = utf8_of (target_node_id r),
     JobRequest.organization_id = (case organization_id r of None \<Rightarrow> [] | Some s \<Rightarrow> utf8_of s),
     JobRequest.operation = utf8_of (operation r), JobRequest.payload = utf8_of (payload r),
     JobRequest.issued_at = word_of_int (issued_at r), JobRequest.expires_at = word_of_int (expires_at r),
     JobRequest.signature_algorithm = utf8_of (signature_algorithm r), JobRequest.signature = utf8_of (signature r)\<rparr>"

definition int64_range :: "int \<Rightarrow> bool" where
  "int64_range i \<longleftrightarrow> - (2 ^ 63) \<le> i \<and> i < 2 ^ 63"

text \<open>Requests of Unicode strings and 64-bit times; the organisation is none or a name.\<close>

definition portable :: "PyJobRequest \<Rightarrow> bool" where
  "portable r \<longleftrightarrow> encodable (PyDict (request_asdict r)) \<and> int64_range (issued_at r) \<and> int64_range (expires_at r) \<and>
     organization_id r \<noteq> Some []"

lemma request_sorted:
  "sort_key fst (request_asdict r) =
     [(''expires_at'', PyInt (expires_at r)), (''issued_at'', PyInt (issued_at r)), (''message_id'', PyStr (message_id r)),
      (''operation'', PyStr (operation r)), (''organization_id'', py_optional (organization_id r)),
      (''payload'', PyStr (payload r)), (''protocol_version'', PyStr (protocol_version r)),
      (''request_id'', PyStr (request_id r)), (''sender_node_id'', PyStr (sender_node_id r)),
      (''signature'', PyStr (signature r)), (''signature_algorithm'', PyStr (signature_algorithm r)),
      (''target_node_id'', PyStr (target_node_id r))]"
  by (simp add: request_asdict_def less_eq_char_def less_char_def)

lemma request_keys: "\<forall>(k, v) \<in> set (request_asdict r). ascii_key k"
  by (simp add: request_asdict_def ascii_key_def plain_key_def json_escape_def)

lemma write_organization:
  assumes "\<forall>s. x = Some s \<longrightarrow> (\<forall>c \<in> set s. scalar c)" and "x \<noteq> Some []"
  shows "json_organization (case x of None \<Rightarrow> [] | Some s \<Rightarrow> utf8_of s) = utf8_of (dumps_raw (py_optional x))"
proof (cases x)
  case None
  have "utf8_of (py_str ''null'') = ''null''" by (rule utf8_of_ascii) simp
  then show ?thesis using None by (simp add: json_organization_def py_optional_def)
next
  case (Some s)
  then have "utf8_of s \<noteq> []" using assms(2) by (cases s) simp_all
  then show ?thesis using Some assms(1) by (simp add: json_organization_def py_optional_def json_string_utf8)
qed

lemma utf8_dec_int64: "int64_range i \<Longrightarrow> dec_int64 (word_of_int i) = utf8_of (dumps_raw (PyInt i))"
  using utf8_of_ascii [of "dec_int i"] dec_int_ascii [of _ i] dec_int_word [of i] by (simp add: int64_range_def)

lemma shown_ascii: "ascii_key k \<Longrightarrow> utf8_of (shown_string (py_str k)) = [CHR 0x22] @ k @ [CHR 0x22]"
  using quoted_key_utf8 [of k] by (simp add: quoted_key_def python_escape_ascii)

lemma envelope_utf8:
  assumes "ascii_key ty"
  shows "join_envelope ty (utf8_of (dumps_raw v)) = utf8_of (dumps_raw (PyDict [(''payload'', v), (''type'', PyStr (py_str ty))]))"
proof -
  have "ascii_key ''payload''" "ascii_key ''type''" by (simp_all add: ascii_key_def plain_key_def json_escape_def)
  from this [THEN shown_ascii] shown_ascii [OF assms] show ?thesis
    by (simp add: shown_object_def less_eq_char_def less_char_def join_envelope_def envelope_prefix_def type_prefix_def
        python_escape_ascii)
qed

text \<open>C++ sends what \<open>json.dumps\<close> without escaping would print.\<close>

lemma request_envelope_utf8:
  assumes "portable r"
  shows "job_request_envelope_json (cpp_request r)
    = utf8_of (dumps_raw (PyDict [(''payload'', PyDict (request_asdict r)), (''type'', PyStr (py_str ''JOB_REQUEST''))]))"
proof -
  let ?q = "cpp_request r"
  let ?fs = "with_signature (JobRequest.signature ?q) (job_request_fields ?q)"
  have strings: "\<forall>(k, v) \<in> set (request_asdict r). encodable v" using assms by (auto simp: portable_def)
  have org: "\<forall>s. organization_id r = Some s \<longrightarrow> (\<forall>c \<in> set s. scalar c)"
    using strings by (auto simp: request_asdict_def py_optional_def)
  have "map (\<lambda>(k, v). (k, write_value v)) ?fs = map (\<lambda>(k, v). (k, utf8_of (dumps_raw v))) (sort_key fst (request_asdict r))"
    using strings assms write_organization [OF org]
    by (simp add: request_sorted with_signature_def job_request_fields_def cpp_request_def portable_def utf8_dec_int64
        json_string_utf8 request_asdict_def del: dumps_raw.simps(2)) 
  then have "write_object ?fs = join_object (\<lambda>v. utf8_of (dumps_raw v)) (sort_key fst (request_asdict r))"
    by (rule join_object_cong)
  also have "\<dots> = utf8_of (dumps_raw (PyDict (request_asdict r)))"
    using request_keys [of r] join_object_utf8 [of "sort_key fst (request_asdict r)" "\<lambda>v. utf8_of (dumps_raw v)" dumps_raw]
    by fastforce
  finally show ?thesis
    using envelope_utf8 [of "''JOB_REQUEST''" "PyDict (request_asdict r)"]
    by (simp only: job_request_envelope_object) (simp add: ascii_key_def plain_key_def json_escape_def del: dumps_raw.simps)
qed

lemma request_loaded:
  "job_request_of (map (\<lambda>(k, v). (py_str k, loaded v)) (sort_key fst (request_asdict r))) = Inr r"
proof -
  have org: "loaded (py_optional x) = (case x of None \<Rightarrow> JNull | Some s \<Rightarrow> JStr s)" for x
    by (simp add: py_optional_def split: option.split)
  show ?thesis
    unfolding request_sorted
    by (simp add: job_request_of_def required_fields_def str_field_def int_field_def opt_field_def default_field_def org
        split: option.split)
qed

lemma request_canonical_agrees:
  assumes "portable r" and "\<forall>(k, v) \<in> set (without_signature (request_asdict r)). py_ascii v"
  shows "canonical_json (without_signature (request_asdict r)) = canonical_job_request_json (cpp_request r)"
proof -
  have keys: "\<forall>(k, v) \<in> set (without_signature (request_asdict r)). ascii_key k"
    using request_keys [of r] set_without_signature by fast
  have strings: "\<forall>(k, v) \<in> set (request_asdict r). encodable v" using assms(1) by (auto simp: portable_def)
  have "json_dumps (PyStr s) = json_string (utf8_of s)" if "\<forall>c \<in> set s. c < 0x7f" for s
  proof -
    have "\<forall>c \<in> set s. scalar c" using that by (auto simp: scalar_def)
    then show ?thesis using strings_agree [of s] that by simp
  qed
  moreover have "json_organization (utf8_of s) = json_string (utf8_of s)" if "s \<noteq> []" for s
    using that by (cases s) (simp_all add: json_organization_def)
  ultimately have "map (\<lambda>(k, v). (k, json_dumps v)) (sort_key fst (without_signature (request_asdict r)))
      = map (\<lambda>(k, v). (k, write_value v)) (job_request_fields (cpp_request r))"
    using assms strings
    by (cases "organization_id r")
      (simp_all add: request_asdict_def without_signature_def less_eq_char_def less_char_def job_request_fields_def cpp_request_def
        portable_def int64_range_def dec_int_word py_optional_def json_organization_def [of "[]"])
  then show ?thesis
    unfolding canonical_json_join [OF keys] canonical_job_request_json_object by (rule join_object_cong)
qed

section \<open>Validation on both sides\<close>

lemma utf8_of_eq_iff:
  assumes "\<forall>c \<in> set s. scalar c" and "\<forall>c \<in> set t. (of_char c :: nat) < 0x7f"
  shows "utf8_of s = t \<longleftrightarrow> s = py_str t"
proof
  assume eq: "utf8_of s = t"
  have "utf8_of (py_str t) = t" using assms(2) by (rule utf8_of_ascii)
  then have "decode_utf8 (utf8_of s) = decode_utf8 (utf8_of (py_str t))" using eq by simp
  then show "s = py_str t"
    using decode_utf8_encoded [OF assms(1)] decode_utf8_encoded [OF scalar_ascii [OF assms(2)]] by (simp only: option.inject)
qed (simp add: utf8_of_ascii [OF assms(2)] del: map_map)

lemma utf8_of_empty [simp]: "utf8_of s = [] \<longleftrightarrow> s = []"
  by (cases s) simp_all

text \<open>The exception of C++ as the one of Python with the same message.\<close>

fun py_outcome :: "unit outcome \<Rightarrow> py_error option" where
  "py_outcome (Throw (Invalid_Argument m)) = Some (ValueError m)"
| "py_outcome _ = None"

lemma sint_range: "int64_range i \<Longrightarrow> sint (word_of_int i :: int64) = i"
  by (simp add: int64_range_def sint_word_of_int_64)

lemma request_validation_agrees:
  assumes "portable r" and "case now of None \<Rightarrow> True | Some t \<Rightarrow> 0 \<le> t \<and> int64_range t"
  shows "request_validate now r
    = py_outcome (validate_job_request (cpp_request r) (case now of None \<Rightarrow> validation_time_default | Some t \<Rightarrow> word_of_int t))"
proof -
  have s: "\<forall>c \<in> set (operation r). scalar c" "\<forall>c \<in> set (signature_algorithm r). scalar c"
    using assms(1) by (auto simp: portable_def request_asdict_def)
  have "utf8_of (operation r) = ''PING'' \<longleftrightarrow> operation r = py_str ''PING''" "utf8_of (operation r) = ''ECHO'' \<longleftrightarrow> operation r = py_str ''ECHO''"
    "utf8_of (signature_algorithm r) = ''Ed25519'' \<longleftrightarrow> signature_algorithm r = py_str ''Ed25519''"
    by (rule utf8_of_eq_iff, use s in simp, simp)+
  moreover have "sint (JobRequest.issued_at (cpp_request r)) = issued_at r" "sint (JobRequest.expires_at (cpp_request r)) = expires_at r"
    using assms(1) by (simp_all add: cpp_request_def portable_def sint_range)
  ultimately show ?thesis
    using assms(2)
    by (cases now) (auto simp: request_validate_def validate_job_request_def cpp_request_def validation_time_default_def sint_range)
qed

lemma result_validation_agrees:
  assumes "\<forall>(k, v) \<in> set (result_asdict r). encodable v" and "int64_range (PyJobResult.completed_at r)"
  shows "result_validate r = py_outcome (validate_job_result (received_result r))"
proof -
  have s: "\<forall>c \<in> set (PyJobResult.status r). scalar c" "\<forall>c \<in> set (PyJobResult.signature_algorithm r). scalar c"
    using assms(1) by (auto simp: result_asdict_def)
  have "utf8_of (PyJobResult.status r) = ''OK'' \<longleftrightarrow> PyJobResult.status r = py_str ''OK''"
    "utf8_of (PyJobResult.status r) = ''ERROR'' \<longleftrightarrow> PyJobResult.status r = py_str ''ERROR''"
    "utf8_of (PyJobResult.signature_algorithm r) = ''Ed25519'' \<longleftrightarrow> PyJobResult.signature_algorithm r = py_str ''Ed25519''"
    by (rule utf8_of_eq_iff, use s in simp, simp)+
  then show ?thesis
    using assms(2) by (auto simp: result_validate_def validate_job_result_def received_result_def sint_range)
qed

lemma reference_jobs_agree:
  assumes "\<forall>c \<in> set (operation r). scalar c"
  shows "execute_reference_job (cpp_request r) = map_prod utf8_of utf8_of (py_execute_reference_job r)"
proof -
  have "utf8_of (operation r) = ''PING'' \<longleftrightarrow> operation r = py_str ''PING''" "utf8_of (operation r) = ''ECHO'' \<longleftrightarrow> operation r = py_str ''ECHO''"
    by (rule utf8_of_eq_iff, use assms in simp, simp)+
  moreover have "utf8_of (py_str ''OK'') = ''OK''" "utf8_of (py_str ''PONG'') = ''PONG''" "utf8_of (py_str ''ERROR'') = ''ERROR''"
    "utf8_of (py_str ''unsupported_operation'') = ''unsupported_operation''"
    by (rule utf8_of_ascii, simp)+
  ultimately show ?thesis
    by (simp add: execute_reference_job_def py_execute_reference_job_def cpp_request_def del: map_map list.map)
qed

section \<open>Serving a request\<close>

text \<open>
  The keys: Python's verification with the client's public key accepts what OpenSSL signs with its private key, and
  OpenSSL accepts under \<open>public_key\<close> what the server's \<open>sign\<close> makes; \<open>b64decode\<close> undoes \<open>urlsafe_b64encode\<close> on signatures.
\<close>

definition peers_trust ::
    "('k, 'c) openssl \<Rightarrow> 'k \<Rightarrow> 'k \<Rightarrow> (string \<Rightarrow> byte list option) \<Rightarrow> (byte list \<Rightarrow> byte list \<Rightarrow> bool) \<Rightarrow>
       (byte list \<Rightarrow> byte list) \<Rightarrow> bool" where
  "peers_trust ssl private_key public_key b64decode verify sign \<longleftrightarrow>
     evp_base64 ssl \<and> (\<exists>k. evp_ed25519 ssl private_key k) \<and>
     (\<forall>m s. ed25519_sign ssl (Some private_key) m = Return s \<longrightarrow> verify s (bytes_of_string m)) \<and>
     (\<forall>data. length data = 64 \<longrightarrow> b64decode (url_safe (base64 data)) = Some data) \<and> signs_for ssl public_key sign"

abbreviation ascii_request :: "PyJobRequest \<Rightarrow> bool" where
  "ascii_request r \<equiv> \<forall>(k, v) \<in> set (without_signature (request_asdict r)). py_ascii v"

definition signed_with :: "PyJobRequest \<Rightarrow> byte list \<Rightarrow> PyJobRequest" where
  "signed_with r s = r\<lparr>signature_algorithm := py_str ''Ed25519'', signature := py_b64 s\<rparr>"

lemma request_signed:
  assumes "peers_trust ssl private_key public_key b64decode verify sign" and "signature_algorithm r = py_str ''Ed25519''"
    and "sign_job_request ssl (cpp_request r) (Some private_key) = Return sq"
  shows "\<exists>s. length s = 64 \<and> sq = cpp_request (signed_with r s) \<and> verify s (bytes_of_string (canonical_job_request_json sq))"
proof -
  let ?q = "(cpp_request r)\<lparr>JobRequest.signature_algorithm := ''Ed25519'', JobRequest.signature := []\<rparr>"
  obtain k where ssl: "evp_base64 ssl" "evp_ed25519 ssl private_key k"
    and v: "\<forall>m s. ed25519_sign ssl (Some private_key) m = Return s \<longrightarrow> verify s (bytes_of_string m)"
    using assms(1) by (auto simp: peers_trust_def)
  obtain s where s: "length s = 64" "ed25519_sign ssl (Some private_key) (canonical_job_request_json ?q) = Return s"
    using ed25519_sign_verify [OF ssl(2)] by blast
  have "base64url_encode ssl s = Return (url_safe (base64 s))" using s(1) by (intro base64url_encode_eq [OF ssl(1)]) simp
  then have sq: "sq = ?q\<lparr>JobRequest.signature := url_safe (base64 s)\<rparr>"
    using assms(3) s(2) by (simp add: sign_job_request_def)
  have "utf8_of (py_b64 s) = url_safe (base64 s)"
    unfolding py_b64_def by (rule utf8_of_ascii) (use url_safe_ascii in blast)
  moreover have "utf8_of (py_str ''Ed25519'') = ''Ed25519''" by (rule utf8_of_ascii) simp
  ultimately have "sq = cpp_request (signed_with r s)"
    using sq by (simp add: cpp_request_def signed_with_def del: map_map list.map)
  moreover have "canonical_job_request_json sq = canonical_job_request_json ?q"
    by (simp add: sq canonical_job_request_json_def)
  ultimately show ?thesis using s v by metis
qed

lemma signed_with_facts:
  assumes "portable r" and "ascii_request r" and "signature_algorithm r = py_str ''Ed25519''"
  shows "portable (signed_with r s)" "ascii_request (signed_with r s)" "request_validate now (signed_with r s) = request_validate now r"
    "loadable (Suc depth) (PyDict (request_asdict (signed_with r s)))"
proof -
  have "\<forall>c \<in> set (py_b64 s). scalar c" by (auto simp: py_b64_def scalar_def dest: url_safe_ascii)
  then show "portable (signed_with r s)"
    using assms(1) by (simp add: portable_def request_asdict_def signed_with_def scalar_def)
  show "ascii_request (signed_with r s)" "request_validate now (signed_with r s) = request_validate now r"
    using assms(2,3)
    by (simp add: request_asdict_def without_signature_def signed_with_def)
      (cases now; use assms(3) in \<open>simp add: signed_with_def request_validate_def\<close>)
  have "length (dec_nat (nat \<bar>i\<bar>)) \<le> 4300" if "int64_range i" for i
  proof -
    have "\<bar>i\<bar> < 10 ^ Suc 19" using that by (auto simp: int64_range_def abs_if)
    then have "nat \<bar>i\<bar> < 10 ^ Suc 19" by (simp add: nat_less_iff)
    from length_dec_nat [OF this] show ?thesis by simp
  qed
  then show "loadable (Suc depth) (PyDict (request_asdict (signed_with r s)))"
    using assms(1) by (simp add: portable_def request_asdict_def signed_with_def py_optional_def split: option.split)
qed

text \<open>Python verifies what C++ has signed.\<close>

lemma signed_request_accepted:
  assumes "peers_trust ssl private_key public_key b64decode verify sign" and "portable r" and "ascii_request r"
    and "request_validate now r = None" and "sign_job_request ssl (cpp_request r) (Some private_key) = Return sq"
  shows "\<exists>s. sq = cpp_request (signed_with r s) \<and> py_verify_job_request b64decode verify now (signed_with r s)"
proof -
  have alg: "signature_algorithm r = py_str ''Ed25519''" using assms(4) by (simp add: request_validate_def split: if_splits)
  obtain s where s: "length s = 64" "sq = cpp_request (signed_with r s)" "verify s (bytes_of_string (canonical_job_request_json sq))"
    using request_signed [OF assms(1) alg assms(5)] by blast
  note facts = signed_with_facts [OF assms(2,3) alg]
  have "length (py_b64 s) = 88" using s(1) by (simp add: py_b64_def length_base64)
  then have "py_b64 s \<noteq> []" by fastforce
  moreover have "py_unb64 b64decode (py_b64 s) = Some s" using assms(1) s(1) by (simp add: peers_trust_def py_unb64_b64)
  ultimately have "py_verify_job_request b64decode verify now (signed_with r s)"
    using s(2,3) facts(3) [of now s] assms(4) request_canonical_agrees [OF facts(1,2), of s]
    by (simp add: py_verify_job_request_def) (simp add: signed_with_def)
  then show ?thesis using s(2) by blast
qed

text \<open>The result a node makes of a request, before it is signed.\<close>

definition reply_to :: "PyJobRequest \<Rightarrow> nat list \<Rightarrow> int \<Rightarrow> PyJobResult" where
  "reply_to r reply_id completed =
     \<lparr>PyJobResult.protocol_version = protocol_version r, PyJobResult.message_id = reply_id,
      PyJobResult.request_id = request_id r, responder_node_id = target_node_id r,
      recipient_node_id = sender_node_id r, status = fst (py_execute_reference_job r),
      PyJobResult.payload = snd (py_execute_reference_job r), completed_at = completed,
      PyJobResult.signature_algorithm = py_str ''Ed25519'', PyJobResult.signature = []\<rparr>"

lemma handler_reply:
  assumes "py_verify_job_request b64decode verify (Some now) r"
  shows "node_handler b64decode verify sign (target_node_id r) reply_id now completed r = py_sign_job_result sign (reply_to r reply_id completed)"
  using assms by (simp add: node_handler_def reply_to_def case_prod_beta)

lemma validated_reply:
  assumes "request_validate now r = None" and "ascii_request r" and "reply_id \<noteq> []" and "\<forall>c \<in> set reply_id. c < 0x7f"
    and "0 \<le> completed" and "int64_range completed"
  shows "result_validate (reply_to r reply_id completed) = None"
    and "\<forall>(k, v) \<in> set (without_signature (result_asdict (reply_to r reply_id completed))). py_readable v \<and> py_ascii v"
    and "PyJobResult.status (reply_to r reply_id completed) = py_str ''OK''"
proof -
  have r: "list_all (\<lambda>s. s \<noteq> []) [protocol_version r, message_id r, request_id r, sender_node_id r, target_node_id r]"
    and op: "operation r = py_str ''PING'' \<or> operation r = py_str ''ECHO''"
    using assms(1) by (auto simp: request_validate_def split: if_splits)
  from op show "PyJobResult.status (reply_to r reply_id completed) = py_str ''OK''"
    by (auto simp: reply_to_def py_execute_reference_job_def)
  show "result_validate (reply_to r reply_id completed) = None"
    using r op assms(3,5) by (auto simp: result_validate_def reply_to_def py_execute_reference_job_def)
  have small: "\<forall>c \<in> set s. scalar c" if "\<forall>c \<in> set s. c < 0x7f" for s using that by (auto simp: scalar_def)
  have "\<forall>s \<in> {protocol_version r, request_id r, sender_node_id r, target_node_id r, payload r, reply_id}. \<forall>c \<in> set s. c < 0x7f"
    using assms(2,4) by (simp add: request_asdict_def without_signature_def)
  then show "\<forall>(k, v) \<in> set (without_signature (result_asdict (reply_to r reply_id completed))). py_readable v \<and> py_ascii v"
    using small op assms(5,6)
    by (auto simp: result_asdict_def without_signature_def reply_to_def py_execute_reference_job_def int64_range_def scalar_def)
qed

text \<open>In ASCII, Python's frame is the envelope C++ would have sent.\<close>

lemma reply_envelope:
  assumes "\<forall>(k, v) \<in> set (result_asdict r). py_readable v \<and> py_ascii v"
  shows "frame_body (py_str ''JOB_RESULT'') (result_asdict r) = job_result_envelope_json (received_result r)"
proof -
  have ty: "ascii_key ''JOB_RESULT''" by (simp add: ascii_key_def plain_key_def json_escape_def)
  have "\<forall>(k, v) \<in> set (sort_key fst (result_asdict r)). ascii_key k \<and> py_readable v" 
    using assms result_keys [of r] by fastforce
  from objects_agree [OF this] have "join_object json_dumps (sort_key fst (result_asdict r)) = write_object (on_cpp_side (sort_key fst (result_asdict r)))"
    using assms by fastforce
  moreover have "on_cpp_side (sort_key fst (result_asdict r))
      = with_signature (JobResult.signature (received_result r)) (job_result_fields (received_result r))"
    by (simp add: result_sorted with_signature_def job_result_fields_def received_result_def)
  ultimately show ?thesis
    unfolding frame_body_join [OF result_keys ty] job_result_envelope_object by simp
qed

lemma signed_reply:
  assumes "result_validate r = None" and "signs_for ssl public_key sign"
    and "\<forall>(k, v) \<in> set (without_signature (result_asdict r)). py_readable v \<and> py_ascii v"
  shows "\<exists>s. length s = 64 \<and> py_sign_job_result sign r = Inr (r\<lparr>PyJobResult.signature := py_b64 s\<rparr>) \<and>
    (\<forall>(k, v) \<in> set (result_asdict (r\<lparr>PyJobResult.signature := py_b64 s\<rparr>)). py_readable v \<and> py_ascii v)"
proof -
  obtain s where s: "py_sign_job_result sign r = Inr (r\<lparr>PyJobResult.signature := py_b64 s\<rparr>)" "length s = 64"
    using assms(1,2) by (auto simp: py_sign_job_result_def signs_for_def Let_def)
  have "\<forall>c \<in> set (py_b64 s). c < 0x7f" "\<forall>c \<in> set (py_b64 s). scalar c"
    by (auto simp: py_b64_def scalar_def dest: url_safe_ascii)
  then have "\<forall>(k, v) \<in> set (result_asdict (r\<lparr>PyJobResult.signature := py_b64 s\<rparr>)). py_readable v \<and> py_ascii v"
    using assms(3) by (simp add: result_asdict_def without_signature_def)
  then show ?thesis using s by blast
qed

lemma request_served:
  assumes "peers_trust ssl private_key public_key b64decode verify sign" and "portable r" and "ascii_request r"
    and "request_validate (Some now) r = None" and "sign_job_request ssl (cpp_request r) (Some private_key) = Return sq"
    and "encode_frame (job_request_envelope_json sq) = Return frame" and "[] \<notin> set pieces" and "concat pieces = frame"
    and "reply_id \<noteq> []" and "\<forall>c \<in> set reply_id. c < 0x7f" and "0 \<le> completed" and "int64_range completed"
  shows "\<exists>s. length s = 64 \<and> (let reply = (reply_to r reply_id completed)\<lparr>PyJobResult.signature := py_b64 s\<rparr> in
    serve_one_job (Suc (Suc depth)) (node_handler b64decode verify sign (target_node_id r) reply_id now completed) pieces
      = send_frame (py_str ''JOB_RESULT'') (result_asdict reply) \<and>
    frame_body (py_str ''JOB_RESULT'') (result_asdict reply) = job_result_envelope_json (received_result reply) \<and>
    verify_job_result ssl (received_result reply) (Some public_key) = Return True)"
proof -
  obtain s where sq: "sq = cpp_request (signed_with r s)" and verified: "py_verify_job_request b64decode verify (Some now) (signed_with r s)"
    using signed_request_accepted [OF assms(1-5)] by blast
  have alg: "signature_algorithm r = py_str ''Ed25519''" using assms(4) by (simp add: request_validate_def split: if_splits)
  note facts = signed_with_facts [OF assms(2,3) alg, where s = s]
  have ty: "ascii_key ''JOB_REQUEST''" by (simp add: ascii_key_def plain_key_def json_escape_def)
  have frame: "encode_frame (utf8_of (dumps_raw (PyDict [(''payload'', PyDict (request_asdict (signed_with r s))),
      (''type'', PyStr (py_str ''JOB_REQUEST''))]))) = Return frame"
    using assms(6) request_envelope_utf8 [OF facts(1)] by (simp only: sq)
  have enc: "encodable (PyDict (request_asdict (signed_with r s)))" using facts(1) by (simp add: portable_def)
  have bytes: "concat pieces = frame @ []" using assms(8) by simp
  obtain rest where recv: "recv_frame (Suc (Suc depth)) pieces = Inr ((py_str ''JOB_REQUEST'',
      map (\<lambda>(k, v). (py_str k, loaded v)) (sort_key fst (request_asdict (signed_with r s)))), rest)"
    using recv_frame_loaded [OF frame enc ty facts(4) assms(7) bytes, of depth] by blast
  let ?reply = "reply_to r reply_id completed"
  have "reply_to (signed_with r s) reply_id completed = ?reply" "target_node_id (signed_with r s) = target_node_id r"
    by (simp_all add: reply_to_def signed_with_def py_execute_reference_job_def)
  then have handled: "node_handler b64decode verify sign (target_node_id r) reply_id now completed (signed_with r s)
      = py_sign_job_result sign ?reply"
    using handler_reply [OF verified] by metis
  note reply = validated_reply [OF assms(4,3,9-12)]
  have ssl: "evp_base64 ssl" "signs_for ssl public_key sign" using assms(1) by (simp_all add: peers_trust_def)
  obtain t where t: "length t = 64" "py_sign_job_result sign ?reply = Inr (?reply\<lparr>PyJobResult.signature := py_b64 t\<rparr>)"
      "\<forall>(k, v) \<in> set (result_asdict (?reply\<lparr>PyJobResult.signature := py_b64 t\<rparr>)). py_readable v \<and> py_ascii v"
    using signed_reply [OF reply(1) ssl(2) reply(2)] by blast
  show ?thesis
    unfolding Let_def serve_one_job_def recv
    using handled t(1,2) reply_envelope [OF t(3)] signed_result_verifies [OF ssl t(2) reply(2)]
    by (intro exI [of _ t]) (simp add: request_loaded del: list.map)
qed

lemma reply_answers:
  assumes "portable r" and "request_validate now r = None" and "0 \<le> completed" and "int64_range completed"
  shows "answers (cpp_request r) (received_result ((reply_to r reply_id completed)\<lparr>PyJobResult.signature := s\<rparr>))"
    "JobResult.status (received_result ((reply_to r reply_id completed)\<lparr>PyJobResult.signature := s\<rparr>)) = ''OK''"
proof -
  have "\<forall>c \<in> set (operation r). scalar c" using assms(1) by (simp add: portable_def request_asdict_def)
  from reference_jobs_agree [OF this]
  show "answers (cpp_request r) (received_result ((reply_to r reply_id completed)\<lparr>PyJobResult.signature := s\<rparr>))"
    by (simp add: answers_def received_result_def reply_to_def cpp_request_def map_prod_def case_prod_beta)
  have "fst (py_execute_reference_job r) = py_str ''OK''"
    using assms(2) by (auto simp: request_validate_def py_execute_reference_job_def split: if_splits)
  moreover have "utf8_of (py_str ''OK'') = ''OK''" by (rule utf8_of_ascii) simp
  ultimately show "JobResult.status (received_result ((reply_to r reply_id completed)\<lparr>PyJobResult.signature := s\<rparr>)) = ''OK''"
    by (simp add: received_result_def reply_to_def del: map_map list.map)
qed

section \<open>Properties\<close>

text \<open>
  Claim C22. The two implementations judge jobs alike: for requests and results of Unicode strings and 64-bit times,
  the validation of Python gives exactly the verdict of the C++ validation, at every time of day and without one, down
  to the message of the first error, and the reference job has the same status and payload on both sides.
\<close>

theorem python_jobs_agree:
  assumes "portable r" and "case now of None \<Rightarrow> True | Some t \<Rightarrow> 0 \<le> t \<and> int64_range t"
    and "\<forall>(k, v) \<in> set (result_asdict res). encodable v" and "int64_range (PyJobResult.completed_at res)"
  shows "request_validate now r
      = py_outcome (validate_job_request (cpp_request r) (case now of None \<Rightarrow> validation_time_default | Some t \<Rightarrow> word_of_int t)) \<and>
    result_validate res = py_outcome (validate_job_result (received_result res)) \<and>
    execute_reference_job (cpp_request r) = map_prod utf8_of utf8_of (py_execute_reference_job r)"
  using request_validation_agrees [OF assms(1,2)] result_validation_agrees [OF assms(3,4)] reference_jobs_agree [of r] assms(1)
  by (simp add: portable_def request_asdict_def)

definition sample_b64decode :: "string \<Rightarrow> byte list option" where
  "sample_b64decode s = (case base64url_decode sample_ssl s of Return x \<Rightarrow> Some x | _ \<Rightarrow> None)"

lemma sample_b64decode_encoded: "length data \<le> 64 \<Longrightarrow> sample_b64decode (url_safe (base64 data)) = Some data"
  using base64url_decode_encoded [OF sample_ssl_base64, of data] by (simp add: sample_b64decode_def)

definition py_request :: "nat list \<Rightarrow> PyJobRequest" where
  "py_request text = \<lparr>protocol_version = py_str ''0.2'', message_id = py_str ''msg-0'', request_id = py_str ''job-1'',
     sender_node_id = py_str ''node-a'', target_node_id = py_str ''node-b'', organization_id = None,
     operation = py_str ''ECHO'', payload = text, issued_at = 1700000000, expires_at = 1700000060,
     signature_algorithm = py_str ''Ed25519'', signature = []\<rparr>"

theorem python_jobs_agree_witness:
  "validate_job_request (cpp_request (py_request [0xe9])) 1700000061 = Throw (Invalid_Argument ''job request expired or not yet valid'') \<and>
   request_validate (Some 1700000061) (py_request [0xe9])
     = py_outcome (validate_job_request (cpp_request (py_request [0xe9])) 1700000061)"
proof -
  have "portable (py_request [0xe9])"
    by (simp add: portable_def py_request_def request_asdict_def py_optional_def int64_range_def scalar_def ascii_key_def
        plain_key_def json_escape_def)
  moreover have "\<forall>(k, v) \<in> set (result_asdict (py_result [0xe9])). encodable v" "int64_range (PyJobResult.completed_at (py_result [0xe9]))"
    by (simp_all add: result_asdict_def py_result_def scalar_def int64_range_def)
  ultimately have "request_validate (Some 1700000061) (py_request [0xe9])
      = py_outcome (validate_job_request (cpp_request (py_request [0xe9])) (word_of_int 1700000061))"
    using python_jobs_agree [of "py_request [0xe9]" "Some 1700000061" "py_result [0xe9]"] by (simp add: int64_range_def)
  then show ?thesis
    by (simp add: validate_job_request_def cpp_request_def py_request_def utf8_def char_of_eq_iff)
qed

end
