(* ===== verification/Executor.thy ===== *)
theory Executor
  imports Engine Tcp Job_Auth
begin

text \<open>
  The attempt executor of \<open>authenticated_tcp_executor.hpp\<close>: resolve the endpoint, sign the request, exchange
  one framed message over a new connection, check and verify the answer, and turn everything that goes
  wrong on the way into a failure notice signed by the local node.

  The libraries and the clock an attempt uses are gathered in the record \<open>runtime\<close>; the clock gives the
  nanoseconds of \<open>std::chrono::system_clock\<close>.  The two resolvers are injected callbacks.
\<close>

record TcpEndpoint =
  host :: string
  port :: uint16

type_synonym 'w EndpointResolver = "string \<Rightarrow> ('w, TcpEndpoint option) io"

type_synonym ('w, 'k) PublicKeyResolver = "string \<Rightarrow> ('w, 'k option) io"

record ('w, 'k, 'c) runtime =
  crypto :: "('k, 'c) openssl"
  system :: "'w posix"
  clock :: "'w \<Rightarrow> int64 \<times> 'w"

record ('w, 'k) AuthenticatedTcpAttemptExecutor =
  local_private_key :: "'k option"
  endpoint_resolver :: "'w EndpointResolver"
  public_key_resolver :: "('w, 'k) PublicKeyResolver"
  connect_timeout :: milliseconds
  io_timeout :: milliseconds

definition executor_new ::
    "'k option \<Rightarrow> 'w EndpointResolver option \<Rightarrow> ('w, 'k) PublicKeyResolver option \<Rightarrow>
     milliseconds \<Rightarrow> milliseconds \<Rightarrow> ('w, 'k) AuthenticatedTcpAttemptExecutor outcome" where
  "executor_new private_key endpoints public_keys connect_ms io_ms =
     (if private_key = None then Throw (Invalid_Argument ''local private key is required'')
      else case endpoints of None \<Rightarrow> Throw (Invalid_Argument ''endpoint resolver is required'')
      | Some er \<Rightarrow>
     (case public_keys of None \<Rightarrow> Throw (Invalid_Argument ''public key resolver is required'')
      | Some kr \<Rightarrow>
      if sint connect_ms \<le> 0 then Throw (Invalid_Argument ''connect timeout must be positive'')
      else if sint io_ms \<le> 0 then Throw (Invalid_Argument ''IO timeout must be positive'')
      else Return \<lparr>local_private_key = private_key, endpoint_resolver = er, public_key_resolver = kr,
                   connect_timeout = connect_ms, io_timeout = io_ms\<rparr>))"

text \<open>\<open>std::chrono::duration_cast<seconds>\<close> of a count of nanoseconds: division towards zero.\<close>

definition whole_seconds :: "int64 \<Rightarrow> int64" where
  "whole_seconds ns = word_of_int (if sint ns \<ge> 0 then sint ns div 10 ^ 9 else - ((- sint ns) div 10 ^ 9))"

definition read_clock :: "('w, 'k, 'c) runtime \<Rightarrow> ('w, int64) io" where
  "read_clock rt w = (let (ns, w') = clock rt w in Some (Return (whole_seconds ns), w'))"

definition unsigned_local_failure :: "JobRequest \<Rightarrow> string \<Rightarrow> string \<Rightarrow> int64 \<Rightarrow> FailureNotice" where
  "unsigned_local_failure request target why now = \<lparr>
     FailureNotice.protocol_version = JobRequest.protocol_version request,
     FailureNotice.message_id = ''local-failure-'' @ JobRequest.request_id request @ ''-'' @ target,
     FailureNotice.request_id = JobRequest.request_id request,
     reporting_node_id = sender_node_id request,
     failed_node_id = target,
     reason = why,
     observed_at = now,
     FailureNotice.signature_algorithm = ''Ed25519'',
     FailureNotice.signature = []\<rparr>"

definition local_failure ::
    "('w, 'k, 'c) runtime \<Rightarrow> ('w, 'k) AuthenticatedTcpAttemptExecutor \<Rightarrow> JobRequest \<Rightarrow> string \<Rightarrow> string \<Rightarrow>
       ('w, AttemptResponse) io" where
  "local_failure rt ex request target why =
     io_bind (read_clock rt) (\<lambda>now.
     io_bind (io_outcome (sign_failure_notice (crypto rt) (unsigned_local_failure request target why now)
                            (local_private_key ex))) (\<lambda>failure.
     io_return \<lparr>AttemptResponse.result = None, failure = Some failure\<rparr>))"

definition accept_remote_result ::
    "('w, 'k, 'c) runtime \<Rightarrow> ('w, 'k) AuthenticatedTcpAttemptExecutor \<Rightarrow> JobRequest \<Rightarrow> string \<Rightarrow> string \<Rightarrow>
       ('w, AttemptResponse) io" where
  "accept_remote_result rt ex request target response_json =
     io_bind (io_outcome (parse_job_result_envelope_json response_json)) (\<lambda>r.
     if JobResult.request_id r \<noteq> JobRequest.request_id request \<or> responder_node_id r \<noteq> target \<or>
        recipient_node_id r \<noteq> sender_node_id request \<or> status r \<noteq> ''OK''
     then local_failure rt ex request target ''invalid_result_contract''
     else io_bind (public_key_resolver ex (responder_node_id r)) (\<lambda>public_key.
       io_bind (io_outcome (verify_job_result (crypto rt) r public_key)) (\<lambda>ok.
       if \<not> ok then local_failure rt ex request target ''invalid_result_signature''
       else io_return \<lparr>AttemptResponse.result = Some r, failure = None\<rparr>)))"

definition accept_remote_failure ::
    "('w, 'k, 'c) runtime \<Rightarrow> ('w, 'k) AuthenticatedTcpAttemptExecutor \<Rightarrow> JobRequest \<Rightarrow> string \<Rightarrow> string \<Rightarrow>
       ('w, AttemptResponse) io" where
  "accept_remote_failure rt ex request target response_json =
     io_bind (io_outcome (parse_failure_notice_envelope_json response_json)) (\<lambda>n.
     if FailureNotice.request_id n \<noteq> JobRequest.request_id request \<or> failed_node_id n \<noteq> target \<or>
        reporting_node_id n = []
     then local_failure rt ex request target ''invalid_failure_contract''
     else io_bind (public_key_resolver ex (reporting_node_id n)) (\<lambda>public_key.
       io_bind (io_outcome (verify_failure_notice (crypto rt) n public_key)) (\<lambda>ok.
       if \<not> ok then local_failure rt ex request target ''invalid_failure_signature''
       else io_return \<lparr>AttemptResponse.result = None, failure = Some n\<rparr>)))"

definition accept_remote ::
    "('w, 'k, 'c) runtime \<Rightarrow> ('w, 'k) AuthenticatedTcpAttemptExecutor \<Rightarrow> JobRequest \<Rightarrow> string \<Rightarrow> string \<Rightarrow>
       ('w, AttemptResponse) io" where
  "accept_remote rt ex request target response_json =
     io_bind (io_outcome (wire_envelope_type response_json)) (\<lambda>ty.
     if ty = ''JOB_RESULT'' then accept_remote_result rt ex request target response_json
     else if ty = ''FAILURE_NOTICE'' then accept_remote_failure rt ex request target response_json
     else local_failure rt ex request target ''unsupported_response_type'')"

text \<open>The body of the \<open>try\<close> block; the socket is closed when it is left.\<close>

definition exchange ::
    "('w, 'k, 'c) runtime \<Rightarrow> ('w, 'k) AuthenticatedTcpAttemptExecutor \<Rightarrow> JobRequest \<Rightarrow> string \<Rightarrow> JobRequest \<Rightarrow>
       SocketHandle \<Rightarrow> ('w, AttemptResponse) io" where
  "exchange rt ex request target signed_request sock =
     io_bind (set_socket_io_timeout (system rt) (fd sock) (io_timeout ex)) (\<lambda>_.
     io_bind (send_framed_json (system rt) (fd sock) (job_request_envelope_json signed_request)) (\<lambda>_.
     io_bind (recv_framed_json (system rt) (fd sock)) (\<lambda>response_json.
     accept_remote rt ex request target response_json)))"

definition remote_attempt ::
    "('w, 'k, 'c) runtime \<Rightarrow> ('w, 'k) AuthenticatedTcpAttemptExecutor \<Rightarrow> JobRequest \<Rightarrow> string \<Rightarrow> JobRequest \<Rightarrow>
       TcpEndpoint \<Rightarrow> ('w, AttemptResponse) io" where
  "remote_attempt rt ex request target signed_request endpoint =
     io_bind (connect_ipv4_with_timeout (system rt) (host endpoint) (port endpoint) (connect_timeout ex)) (\<lambda>sock.
     scoped_handle (system rt) sock (exchange rt ex request target signed_request sock))"

definition executor_call ::
    "('w, 'k, 'c) runtime \<Rightarrow> ('w, 'k) AuthenticatedTcpAttemptExecutor \<Rightarrow> 'w AttemptExecutor" where
  "executor_call rt ex request target =
     (if target = [] then io_throw (Invalid_Argument ''target node is required'')
      else if target_node_id request \<noteq> target
      then io_throw (Invalid_Argument ''request target does not match attempt target'')
      else io_bind (endpoint_resolver ex target) (\<lambda>endpoint.
        case endpoint of
          None \<Rightarrow> local_failure rt ex request target ''endpoint_unavailable''
        | Some ep \<Rightarrow>
            io_bind (io_outcome (sign_job_request (crypto rt) request (local_private_key ex))) (\<lambda>signed_request.
            io_try_catch_all (remote_attempt rt ex request target signed_request ep)
              (local_failure rt ex request target ''transport_unavailable''))))"

end
