(* ===== verification/Executor_Evidence.thy ===== *)
theory Executor_Evidence
  imports Executor Engine_Properties Tcp_Properties
begin

text \<open>
  What an attempt brings back: evidence the engine can use, backed by a signature that was made by the local
  node or verified under the key of the node it names; and no descriptor left open.
\<close>

section \<open>Evidence and its backing\<close>

text \<open>
  A result is backed when it answers this request from this target to this sender, with status \<open>OK\<close>, and
  verified under a key the resolver gave for the target.  A failure is backed when it is about this
  request and this target and was signed locally, or verified under a key the resolver gave for the
  reporting node.
\<close>

definition result_backed ::
    "('w, 'k, 'c) runtime \<Rightarrow> ('w, 'k) AuthenticatedTcpAttemptExecutor \<Rightarrow> JobRequest \<Rightarrow> string \<Rightarrow> JobResult \<Rightarrow> bool" where
  "result_backed rt ex q target r \<longleftrightarrow>
     JobResult.request_id r = JobRequest.request_id q \<and> responder_node_id r = target \<and>
     recipient_node_id r = sender_node_id q \<and> status r = ''OK'' \<and> JobResult.signature r \<noteq> [] \<and>
     (\<exists>key w1 w2. public_key_resolver ex target w1 = Some (Return key, w2) \<and>
        verify_job_result (crypto rt) r key = Return True)"

definition failure_backed ::
    "('w, 'k, 'c) runtime \<Rightarrow> ('w, 'k) AuthenticatedTcpAttemptExecutor \<Rightarrow> JobRequest \<Rightarrow> string \<Rightarrow> FailureNotice \<Rightarrow> bool" where
  "failure_backed rt ex q target n \<longleftrightarrow>
     FailureNotice.request_id n = JobRequest.request_id q \<and> failed_node_id n = target \<and>
     FailureNotice.signature n \<noteq> [] \<and>
     ((\<exists>why now. sign_failure_notice (crypto rt) (unsigned_local_failure q target why now) (local_private_key ex) = Return n) \<or>
      (\<exists>key w1 w2. public_key_resolver ex (reporting_node_id n) w1 = Some (Return key, w2) \<and>
         verify_failure_notice (crypto rt) n key = Return True))"

definition backed ::
    "('w, 'k, 'c) runtime \<Rightarrow> ('w, 'k) AuthenticatedTcpAttemptExecutor \<Rightarrow> JobRequest \<Rightarrow> string \<Rightarrow> AttemptResponse \<Rightarrow> bool" where
  "backed rt ex q target response \<longleftrightarrow>
     (\<exists>r. response = \<lparr>AttemptResponse.result = Some r, failure = None\<rparr> \<and> result_backed rt ex q target r) \<or>
     (\<exists>n. response = \<lparr>AttemptResponse.result = None, failure = Some n\<rparr> \<and> failure_backed rt ex q target n)"

lemma backed_evidence: "backed rt ex q target response \<Longrightarrow> evidence_ok q target response"
  by (auto simp: backed_def evidence_ok_def result_backed_def failure_backed_def)

text \<open>What the executor relies on: a local key that signs, base64 as documented, and an endpoint resolver that does not throw.\<close>

definition never_throws :: "('w, 'a) io \<Rightarrow> bool" where
  "never_throws m \<longleftrightarrow> (\<forall>w e w'. m w \<noteq> Some (Throw e, w'))"

definition can_sign :: "('w, 'k, 'c) runtime \<Rightarrow> ('w, 'k) AuthenticatedTcpAttemptExecutor \<Rightarrow> bool" where
  "can_sign rt ex \<longleftrightarrow> evp_base64 (crypto rt) \<and>
     (\<exists>key pub. local_private_key ex = Some key \<and> evp_ed25519 (crypto rt) key pub)"

definition executor_valid :: "('w, 'k, 'c) runtime \<Rightarrow> ('w, 'k) AuthenticatedTcpAttemptExecutor \<Rightarrow> bool" where
  "executor_valid rt ex \<longleftrightarrow> can_sign rt ex \<and> (\<forall>n. never_throws (endpoint_resolver ex n))"

section \<open>The steps of an attempt\<close>

lemma sign_local_failure:
  assumes "can_sign rt ex"
  shows "\<exists>n. sign_failure_notice (crypto rt) (unsigned_local_failure q target why now) (local_private_key ex) = Return n \<and>
    failure_backed rt ex q target n \<and> reason n = why \<and> reporting_node_id n = sender_node_id q"
proof -
  obtain key pub where "local_private_key ex = Some key" "evp_base64 (crypto rt)" "evp_ed25519 (crypto rt) key pub"
    using assms by (auto simp: can_sign_def)
  then obtain t where t: "t \<noteq> []" "sign_failure_notice (crypto rt) (unsigned_local_failure q target why now) (local_private_key ex)
      = Return ((unsigned_local_failure q target why now)\<lparr>FailureNotice.signature_algorithm := ''Ed25519'',
          FailureNotice.signature := t\<rparr>)"
    using failure_auth.sign_then_verify [of "crypto rt" key pub "unsigned_local_failure q target why now"] by auto
  then show ?thesis by (auto simp: failure_backed_def unsigned_local_failure_def)
qed

lemma sign_request:
  assumes "can_sign rt ex"
  shows "\<exists>t. length t = 88 \<and> sign_job_request (crypto rt) q (local_private_key ex)
    = Return (q\<lparr>JobRequest.signature_algorithm := ''Ed25519'', JobRequest.signature := t\<rparr>)"
proof -
  obtain key pub where key: "local_private_key ex = Some key" "evp_base64 (crypto rt)" "evp_ed25519 (crypto rt) key pub"
    using assms by (auto simp: can_sign_def)
  obtain s where "length s = 64" "ed25519_sign (crypto rt) (Some key) (canonical_job_request_json
      (q\<lparr>JobRequest.signature_algorithm := ''Ed25519'', JobRequest.signature := []\<rparr>)) = Return s"
    using ed25519_sign_verify [OF key(3)] by blast
  then show ?thesis using request_sig.sign_signature [OF key(2), of key q s] key(1) by auto
qed

text \<open>A local failure that is brought back, for a given reason.\<close>

definition local_evidence ::
    "('w, 'k, 'c) runtime \<Rightarrow> ('w, 'k) AuthenticatedTcpAttemptExecutor \<Rightarrow> JobRequest \<Rightarrow> string \<Rightarrow> string \<Rightarrow> AttemptResponse \<Rightarrow> bool" where
  "local_evidence rt ex q target why response \<longleftrightarrow>
     (\<exists>n. response = \<lparr>AttemptResponse.result = None, failure = Some n\<rparr> \<and> failure_backed rt ex q target n \<and>
        reason n = why \<and> reporting_node_id n = sender_node_id q)"

lemma local_evidence_backed: "local_evidence rt ex q target why response \<Longrightarrow> backed rt ex q target response"
  by (auto simp: local_evidence_def backed_def)

lemma local_failure_returns:
  assumes "can_sign rt ex"
  shows "\<exists>response w'. local_failure rt ex q target why w = Some (Return response, w') \<and>
    local_evidence rt ex q target why response"
proof -
  obtain ns w1 where c: "clock rt w = (ns, w1)" by fastforce
  obtain n where "sign_failure_notice (crypto rt) (unsigned_local_failure q target why (whole_seconds ns))
      (local_private_key ex) = Return n" "failure_backed rt ex q target n" "reason n = why"
      "reporting_node_id n = sender_node_id q"
    using sign_local_failure [OF assms] by blast
  then show ?thesis
    using c by (auto simp: local_failure_def read_clock_def io_bind_def local_evidence_def)
qed

lemma local_failure_spec:
  assumes "can_sign rt ex" and "\<And>response w'. local_evidence rt ex q target why response \<Longrightarrow> R (Return response) w'"
  shows "io_spec (local_failure rt ex q target why) w R"
  using local_failure_returns [OF assms(1), of q target why w] assms(2) by (auto simp: io_spec_def)

text \<open>The conclusion of a step within the \<open>try\<close> block: if it returns, the response is backed.\<close>

abbreviation returns_backed ::
    "('w, 'k, 'c) runtime \<Rightarrow> ('w, 'k) AuthenticatedTcpAttemptExecutor \<Rightarrow> JobRequest \<Rightarrow> string \<Rightarrow>
       AttemptResponse outcome \<Rightarrow> 'w \<Rightarrow> bool" where
  "returns_backed rt ex q target r w' \<equiv> \<forall>response. r = Return response \<longrightarrow> backed rt ex q target response"

lemma local_failure_backed:
  "can_sign rt ex \<Longrightarrow> io_spec (local_failure rt ex q target why) w (returns_backed rt ex q target)"
  by (rule local_failure_spec) (auto dest: local_evidence_backed)

lemma verified_result_signed: "verify_job_result ssl r k = Return True \<Longrightarrow> JobResult.signature r \<noteq> []"
  by (auto simp: verify_job_result_def)

lemma verified_failure_signed: "verify_failure_notice ssl n k = Return True \<Longrightarrow> FailureNotice.signature n \<noteq> []"
  by (auto simp: verify_failure_notice_def)

lemma io_spec_calls: "(\<And>r w'. m w = Some (r, w') \<Longrightarrow> R r w') \<Longrightarrow> io_spec m w R"
  by (simp add: io_spec_def)

lemma verified_branch:
  assumes "\<And>w. io_spec no w R" and "v = Return True \<Longrightarrow> R (Return response) w" and "\<And>e. R (Throw e) w" and "R Undefined w"
  shows "io_spec (io_bind (io_outcome v) (\<lambda>ok. if \<not> ok then no else io_return response)) w R"
  using assms by (cases v) auto

lemma backed_resultI:
  assumes "\<not> (JobResult.request_id r \<noteq> JobRequest.request_id q \<or> responder_node_id r \<noteq> target \<or>
      recipient_node_id r \<noteq> sender_node_id q \<or> status r \<noteq> ''OK'')"
    and "public_key_resolver ex (responder_node_id r) w1 = Some (Return k, w2)"
    and "verify_job_result (crypto rt) r k = Return True"
  shows "backed rt ex q target \<lparr>AttemptResponse.result = Some r, failure = None\<rparr>"
proof -
  have "result_backed rt ex q target r"
    unfolding result_backed_def using assms verified_result_signed [OF assms(3)] by blast
  then show ?thesis by (simp add: backed_def)
qed

lemma backed_failureI:
  assumes "\<not> (FailureNotice.request_id n \<noteq> JobRequest.request_id q \<or> failed_node_id n \<noteq> target \<or>
      reporting_node_id n = [])"
    and "public_key_resolver ex (reporting_node_id n) w1 = Some (Return k, w2)"
    and "verify_failure_notice (crypto rt) n k = Return True"
  shows "backed rt ex q target \<lparr>AttemptResponse.result = None, failure = Some n\<rparr>"
proof -
  have "failure_backed rt ex q target n"
    unfolding failure_backed_def using assms verified_failure_signed [OF assms(3)] by blast
  then show ?thesis by (simp add: backed_def)
qed

lemma resolver_branch:
  assumes "\<And>x w1. m w = Some (Return x, w1) \<Longrightarrow> io_spec (f x) w1 (returns_backed rt ex q target)"
  shows "io_spec (io_bind m f) w (returns_backed rt ex q target)"
  using assms unfolding io_spec_bind by (intro io_spec_calls) (auto split: outcome.splits)

lemma accept_remote_result_backed:
  assumes "can_sign rt ex"
  shows "io_spec (accept_remote_result rt ex q target json) w (returns_backed rt ex q target)"
proof (cases "parse_job_result_envelope_json json")
  case (Return r)
  have "io_spec (io_bind (public_key_resolver ex (responder_node_id r)) (\<lambda>public_key.
       io_bind (io_outcome (verify_job_result (crypto rt) r public_key)) (\<lambda>ok.
       if \<not> ok then local_failure rt ex q target ''invalid_result_signature''
       else io_return \<lparr>AttemptResponse.result = Some r, failure = None\<rparr>))) w (returns_backed rt ex q target)"
    if "\<not> (JobResult.request_id r \<noteq> JobRequest.request_id q \<or> responder_node_id r \<noteq> target \<or>
      recipient_node_id r \<noteq> sender_node_id q \<or> status r \<noteq> ''OK'')"
    using backed_resultI [OF that] local_failure_backed [OF assms]
    by (intro resolver_branch verified_branch) auto
  then show ?thesis
    using local_failure_backed [OF assms] by (simp add: accept_remote_result_def Return)
qed (simp_all add: accept_remote_result_def)

lemma accept_remote_failure_backed:
  assumes "can_sign rt ex"
  shows "io_spec (accept_remote_failure rt ex q target json) w (returns_backed rt ex q target)"
proof (cases "parse_failure_notice_envelope_json json")
  case (Return n)
  have "io_spec (io_bind (public_key_resolver ex (reporting_node_id n)) (\<lambda>public_key.
       io_bind (io_outcome (verify_failure_notice (crypto rt) n public_key)) (\<lambda>ok.
       if \<not> ok then local_failure rt ex q target ''invalid_failure_signature''
       else io_return \<lparr>AttemptResponse.result = None, failure = Some n\<rparr>))) w (returns_backed rt ex q target)"
    if "\<not> (FailureNotice.request_id n \<noteq> JobRequest.request_id q \<or> failed_node_id n \<noteq> target \<or>
      reporting_node_id n = [])"
    using backed_failureI [OF that] local_failure_backed [OF assms]
    by (intro resolver_branch verified_branch) auto
  then show ?thesis
    using local_failure_backed [OF assms] by (simp add: accept_remote_failure_def Return)
qed (simp_all add: accept_remote_failure_def)

lemma accept_remote_backed:
  assumes "can_sign rt ex"
  shows "io_spec (accept_remote rt ex q target json) w (returns_backed rt ex q target)"
  using accept_remote_result_backed [OF assms] accept_remote_failure_backed [OF assms] local_failure_backed [OF assms]
  by (cases "wire_envelope_type json") (simp_all add: accept_remote_def)

lemma io_spec_bind_any:
  assumes "\<And>x w. io_spec (f x) w (returns_backed rt ex q target)"
  shows "io_spec (io_bind m f) w (returns_backed rt ex q target)"
  using assms by (intro resolver_branch)

lemma remote_attempt_backed:
  assumes "can_sign rt ex"
  shows "io_spec (remote_attempt rt ex q target sq ep) w (returns_backed rt ex q target)"
proof -
  have "io_spec (exchange rt ex q target sq sock) w (returns_backed rt ex q target)" for sock w
    unfolding exchange_def by (intro io_spec_bind_any accept_remote_backed [OF assms])
  then have "io_spec (scoped_handle os h (exchange rt ex q target sq sock)) w (returns_backed rt ex q target)"
    for os h sock w
    unfolding io_spec_scoped by (rule io_spec_mono) (simp split: outcome.splits)
  then show ?thesis unfolding remote_attempt_def by (intro io_spec_bind_any)
qed

lemma executor_call_backed:
  assumes "executor_valid rt ex" and "target \<noteq> []" and "target_node_id q = target"
  shows "io_spec (executor_call rt ex q target) w (\<lambda>r w'. r = Undefined \<or>
    (\<exists>response. r = Return response \<and> backed rt ex q target response))"
proof -
  let ?R = "\<lambda>r w'. r = Undefined \<or> (\<exists>response. r = Return response \<and> backed rt ex q target response)"
  have sign: "can_sign rt ex" and res: "never_throws (endpoint_resolver ex target)"
    using assms(1) by (simp_all add: executor_valid_def)
  have loc: "io_spec (local_failure rt ex q target why) w ?R" for why w
    by (rule local_failure_spec [OF sign]) (auto dest: local_evidence_backed)
  have "io_spec (io_try_catch_all (remote_attempt rt ex q target sq ep)
      (local_failure rt ex q target ''transport_unavailable'')) w ?R" for sq ep w
    unfolding io_spec_try_catch_all using remote_attempt_backed [OF sign]
    by (rule io_spec_mono) (use loc in \<open>auto split: outcome.splits\<close>)
  then show ?thesis
    using sign_request [OF sign, of q] loc assms(2,3) res
    by (auto simp: executor_call_def io_spec_bind never_throws_def split: outcome.splits option.splits
        intro!: io_spec_calls) 
qed

section \<open>The contract of the engine\<close>

lemma executor_call_contract: "executor_valid rt ex \<Longrightarrow> evidence_contract (executor_call rt ex)"
  using executor_call_backed [of rt ex] backed_evidence [of rt ex]
  unfolding evidence_contract_def io_spec_def by blast

lemma executor_call_vouches: "executor_valid rt ex \<Longrightarrow> vouches (executor_call rt ex) (result_backed rt ex)"
  using executor_call_backed [of rt ex] unfolding vouches_def io_spec_def backed_def by fastforce

interpretation tcp: evidence_source "\<lambda>(rt, ex). executor_call rt ex" "\<lambda>(rt, ex). executor_valid rt ex"
  "\<lambda>(rt, ex). result_backed rt ex"
  by unfold_locales (auto intro: executor_call_contract executor_call_vouches)

end
