(* ===== verification/Routing.thy ===== *)
theory Routing
  imports Engine_Properties
begin

text \<open>
  The adapter of \<open>resolutive_routing_adapter.hpp\<close> to the external router library.  The library is not part
  of the repository: its node snapshots (\<open>'n\<close>), its requests (\<open>'q\<close>, built by setting fields of a default
  one) and its \<open>DeterministicRouter\<close> are the fields of the record \<open>resolutive_routing\<close>.
\<close>

record ('n, 'q) resolutive_routing =
  snapshot_node_id :: "'n \<Rightarrow> string"
  Request_new :: 'q
  set_request_id :: "string \<Rightarrow> 'q \<Rightarrow> 'q"
  set_type_Echo :: "'q \<Rightarrow> 'q"
  set_scope_Private :: "'q \<Rightarrow> 'q"
  set_source_node_id :: "string \<Rightarrow> 'q \<Rightarrow> 'q"
  set_organization_id :: "string \<Rightarrow> 'q \<Rightarrow> 'q"
  route_selected :: "'q \<Rightarrow> 'n list \<Rightarrow> string option outcome"

text \<open>A provider is the router library with the list of known nodes.\<close>

record ('n, 'q) ResolutiveRoutingProvider =
  router :: "('n, 'q) resolutive_routing"
  nodes :: "'n list"

definition provider_new ::
    "('n, 'q) resolutive_routing \<Rightarrow> 'n list \<Rightarrow> ('n, 'q) ResolutiveRoutingProvider" where
  "provider_new rr known = \<lparr>router = rr, nodes = known\<rparr>"

definition routing_request :: "('n, 'q) resolutive_routing \<Rightarrow> JobRequest \<Rightarrow> 'q" where
  "routing_request rr job =
     (let request = Request_new rr;
          request = set_request_id rr (JobRequest.request_id job) request;
          request = set_type_Echo rr request;
          request = set_scope_Private rr request;
          request = set_source_node_id rr (sender_node_id job) request
      in set_organization_id rr (JobRequest.organization_id job) request)"

fun eligible_nodes :: "('n, 'q) resolutive_routing \<Rightarrow> string set \<Rightarrow> 'n list \<Rightarrow> 'n list" where
  "eligible_nodes rr excluded [] = []"
| "eligible_nodes rr excluded (x # xs) =
     (if snapshot_node_id rr x \<notin> excluded then x # eligible_nodes rr excluded xs
      else eligible_nodes rr excluded xs)"

definition routing_provider :: "('n, 'q) ResolutiveRoutingProvider \<Rightarrow> 'w RouteProvider" where
  "routing_provider provider job excluded =
     io_outcome (route_selected (router provider) (routing_request (router provider) job)
       (eligible_nodes (router provider) excluded (nodes provider)))"

text \<open>What the adapter relies on: the router returns, and selects none but a candidate it was given.\<close>

definition selects_candidate :: "('n, 'q) resolutive_routing \<Rightarrow> bool" where
  "selects_candidate rr \<longleftrightarrow>
     (\<forall>q ns. \<exists>t. route_selected rr q ns = Return t \<and> (\<forall>n. t = Some n \<longrightarrow> n \<in> snapshot_node_id rr ` set ns))"

definition provider_ok :: "('n, 'q) ResolutiveRoutingProvider \<Rightarrow> bool" where
  "provider_ok provider \<longleftrightarrow> selects_candidate (router provider) \<and>
     [] \<notin> snapshot_node_id (router provider) ` set (nodes provider)"

lemma eligible_nodes_filter: "eligible_nodes rr excluded xs = filter (\<lambda>x. snapshot_node_id rr x \<notin> excluded) xs"
  by (induction xs) auto

lemma provider_selects:
  assumes "provider_ok provider" and "routing_provider provider job excluded w = Some (r, w')"
  shows "\<exists>t. r = Return t \<and> w' = w \<and>
    (\<forall>n. t = Some n \<longrightarrow> n \<in> snapshot_node_id (router provider) ` set (nodes provider) - excluded)"
proof -
  define es where "es = eligible_nodes (router provider) excluded (nodes provider)"
  obtain t where t: "route_selected (router provider) (routing_request (router provider) job) es = Return t"
    "\<And>n. t = Some n \<Longrightarrow> n \<in> snapshot_node_id (router provider) ` set es"
    using assms(1) unfolding provider_ok_def selects_candidate_def by blast
  have "r = Return t" "w' = w" using assms(2) t(1) by (simp_all add: routing_provider_def es_def)
  moreover have "snapshot_node_id (router provider) ` set es
      \<subseteq> snapshot_node_id (router provider) ` set (nodes provider) - excluded"
    by (auto simp: es_def eligible_nodes_filter)
  ultimately show ?thesis using t(2) by blast
qed

lemma provider_names:
  "provider_ok provider \<Longrightarrow> n \<in> snapshot_node_id (router provider) ` set (nodes provider) - ex \<Longrightarrow> n \<noteq> [] \<and> n \<notin> ex"
  by (cases "n = []") (simp_all add: provider_ok_def)

lemma provider_contract:
  assumes "provider_ok provider"
  shows "route_contract (routing_provider provider)"
  unfolding route_contract_def
proof (intro allI impI)
  fix q ex w r w'
  assume run: "routing_provider provider q ex w = Some (r, w')"
  obtain t where "r = Return t"
    "\<forall>n. t = Some n \<longrightarrow> n \<in> snapshot_node_id (router provider) ` set (nodes provider) - ex"
    using provider_selects [OF assms run] by blast
  then show "\<exists>t. r = Return t \<and> (\<forall>n. t = Some n \<longrightarrow> n \<noteq> [] \<and> n \<notin> ex)"
    using provider_names [OF assms] by blast
qed

interpretation adapter: route_source routing_provider provider_ok
  by unfold_locales (rule provider_contract)

section \<open>Properties\<close>

text \<open>
  Claim C35. The adapter offers none but known nodes that are not excluded, and none at all once every known
  node is excluded, whatever node the router prefers.
\<close>

theorem provider_respects_exclusions:
  assumes "selects_candidate rr" and "[] \<notin> snapshot_node_id rr ` set known"
    and "routing_provider (provider_new rr known) job excluded w = Some (r, w')"
  shows "(\<exists>t. r = Return t \<and> (\<forall>n. t = Some n \<longrightarrow> n \<notin> excluded \<and> n \<noteq> [] \<and> n \<in> snapshot_node_id rr ` set known)) \<and>
    (snapshot_node_id rr ` set known \<subseteq> excluded \<longrightarrow> r = Return None)"
proof -
  have ok: "provider_ok (provider_new rr known)" using assms(1,2) by (simp add: provider_ok_def provider_new_def)
  obtain t where t: "r = Return t" "\<And>n. t = Some n \<Longrightarrow> n \<in> snapshot_node_id rr ` set known - excluded"
    using provider_selects [OF ok assms(3)] by (auto simp: provider_new_def)
  then have "t = None" if "snapshot_node_id rr ` set known \<subseteq> excluded" using that by (cases t) auto
  then show ?thesis using t assms(2) by fastforce
qed

text \<open>A router over plain names that takes the first candidate.\<close>

definition first_router :: "(string, string) resolutive_routing" where
  "first_router = \<lparr>snapshot_node_id = (\<lambda>n. n), Request_new = [], set_request_id = (\<lambda>s q. s),
     set_type_Echo = (\<lambda>q. q), set_scope_Private = (\<lambda>q. q), set_source_node_id = (\<lambda>s q. q),
     set_organization_id = (\<lambda>s q. q),
     route_selected = (\<lambda>q ns. Return (case ns of [] \<Rightarrow> None | n # _ \<Rightarrow> Some n))\<rparr>"

definition sample_provider :: "(string, string) ResolutiveRoutingProvider" where
  "sample_provider = provider_new first_router [''node-b'', ''node-c'']"

lemma first_router_selects: "selects_candidate first_router"
  by (auto simp: selects_candidate_def first_router_def split: list.splits)

lemma sample_provider_ok: "provider_ok sample_provider"
  using first_router_selects by (simp add: provider_ok_def sample_provider_def provider_new_def first_router_def)

theorem provider_respects_exclusions_witness:
  "routing_provider sample_provider (job_to ''job-1'') {''node-b'', ''node-c''} () = Some (Return None, ())"
proof -
  obtain r where r: "routing_provider sample_provider (job_to ''job-1'') {''node-b'', ''node-c''} () = Some (r, ())"
    by (simp add: routing_provider_def)
  show ?thesis
    using provider_respects_exclusions [OF first_router_selects _ r [unfolded sample_provider_def]] r
    by (simp add: first_router_def)
qed

end
