(* ===== verification/Executor_Properties.thy ===== *)
theory Executor_Properties
  imports Executor_Evidence Routing
begin

text \<open>
  What an attempt over TCP promises, and what the whole stack (engine, routing adapter, TCP executor) promises
  together.
\<close>

interpretation stack: execution_stack routing_provider provider_ok "\<lambda>(rt, ex). executor_call rt ex"
  "\<lambda>(rt, ex). executor_valid rt ex" "\<lambda>(rt, ex). result_backed rt ex"
  by unfold_locales

section \<open>Descriptors\<close>

lemma keeps_option [keeps_intros]:
  "keeps view m \<Longrightarrow> (\<And>x. keeps view (f x)) \<Longrightarrow> keeps view (case y of None \<Rightarrow> m | Some x \<Rightarrow> f x)"
  by (cases y) simp_all

text \<open>Reading the clock leaves a view of the environment alone.\<close>

definition clock_keeps :: "('w \<Rightarrow> 'v) \<Rightarrow> ('w, 'k, 'c) runtime \<Rightarrow> bool" where
  "clock_keeps view rt \<longleftrightarrow> (\<forall>w. view (snd (clock rt w)) = view w)"

text \<open>The callbacks of the executor and the clock leave the descriptors alone.\<close>

definition callbacks_keep ::
    "('w \<Rightarrow> int set) \<Rightarrow> ('w, 'k, 'c) runtime \<Rightarrow> ('w, 'k) AuthenticatedTcpAttemptExecutor \<Rightarrow> bool" where
  "callbacks_keep opened rt ex \<longleftrightarrow>
     tracks (system rt) opened \<and> clock_keeps opened rt \<and>
     (\<forall>n. keeps opened (endpoint_resolver ex n)) \<and> (\<forall>n. keeps opened (public_key_resolver ex n))"

lemma local_failure_keeps:
  assumes "clock_keeps view rt"
  shows "keeps view (local_failure rt ex q target why)"
proof -
  have "keeps view (read_clock rt)"
    using assms unfolding keeps_def read_clock_def clock_keeps_def by (auto split: prod.splits) (metis snd_conv)+
  then show ?thesis unfolding local_failure_def by (intro keeps_intros)
qed

lemma accept_remote_keeps:
  assumes "clock_keeps view rt" and "\<And>n. keeps view (public_key_resolver ex n)"
  shows "keeps view (accept_remote rt ex q target json)"
  unfolding accept_remote_def accept_remote_result_def accept_remote_failure_def
  by (intro keeps_intros assms(2) local_failure_keeps [OF assms(1)])

lemma callbacks_keepD:
  assumes "callbacks_keep opened rt ex"
  shows "tracks (system rt) opened" "clock_keeps opened rt"
    "keeps opened (endpoint_resolver ex n)" "\<And>n. keeps opened (public_key_resolver ex n)"
  using assms by (simp_all add: callbacks_keep_def)

lemma exchange_keeps:
  assumes "callbacks_keep opened rt ex"
  shows "keeps opened (exchange rt ex q target sq sock)"
  unfolding exchange_def
  by (intro keeps_intros io_calls_keep [OF callbacks_keepD(1) [OF assms]]
      accept_remote_keeps [OF callbacks_keepD(2,4) [OF assms]])

lemma remote_attempt_opened:
  assumes "callbacks_keep opened rt ex"
  shows "io_spec (remote_attempt rt ex q target sq ep) w (\<lambda>r w'. r \<noteq> Undefined \<longrightarrow> opened w' = opened w)"
proof -
  have t: "tracks (system rt) opened" using assms by (simp add: callbacks_keep_def)
  have "io_spec (scoped_handle (system rt) h (exchange rt ex q target sq h)) w1
      (\<lambda>r w'. r \<noteq> Undefined \<longrightarrow> opened w' = opened w)"
    if "0 \<le> fd h" "fd h \<notin> opened w" "opened w1 = insert (fd h) (opened w)" for h w1
    unfolding io_spec_scoped
    using keeps_spec [OF exchange_keeps [OF assms]]
    by (rule io_spec_mono)
      (use that tracks_close [OF t] in \<open>auto simp: SocketHandle_destroy_def split: outcome.splits\<close>)
  then show ?thesis
    unfolding remote_attempt_def io_spec_bind
    by (intro io_spec_mono [OF connect_spec [OF t]]) (auto split: outcome.splits)
qed

lemma spec_bind_keeps:
  assumes "keeps view m" and "view w = v"
    and "\<And>x w1. view w1 = v \<Longrightarrow> io_spec (f x) w1 (\<lambda>r w'. r \<noteq> Undefined \<longrightarrow> view w' = v)"
  shows "io_spec (io_bind m f) w (\<lambda>r w'. r \<noteq> Undefined \<longrightarrow> view w' = v)"
  unfolding io_spec_bind
  by (rule io_spec_mono [OF keeps_spec [OF assms(1)]]) (use assms(2,3) in \<open>auto split: outcome.splits\<close>)

lemma executor_call_opened:
  assumes "callbacks_keep opened rt ex"
  shows "io_spec (executor_call rt ex q target) w (\<lambda>r w'. r \<noteq> Undefined \<longrightarrow> opened w' = opened w)"
proof -
  let ?R = "\<lambda>r w'. r \<noteq> Undefined \<longrightarrow> opened w' = opened w"
  have loc: "io_spec (local_failure rt ex q target why) w1 ?R" if "opened w1 = opened w" for why w1
    using keeps_spec [OF local_failure_keeps [OF callbacks_keepD(2) [OF assms]]] by (rule io_spec_mono) (simp add: that)
  have guarded: "io_spec (io_try_catch_all (remote_attempt rt ex q target sq ep)
      (local_failure rt ex q target ''transport_unavailable'')) w1 ?R"
    if "opened w1 = opened w" for sq ep w1
    unfolding io_spec_try_catch_all using remote_attempt_opened [OF assms]
    by (rule io_spec_mono) (use that loc in \<open>auto split: outcome.splits\<close>)
  have res: "keeps opened (endpoint_resolver ex target)" using assms by (simp add: callbacks_keep_def)
  have "io_spec (io_bind (endpoint_resolver ex target) (\<lambda>endpoint.
        case endpoint of
          None \<Rightarrow> local_failure rt ex q target ''endpoint_unavailable''
        | Some ep \<Rightarrow>
            io_bind (io_outcome (sign_job_request (crypto rt) q (local_private_key ex))) (\<lambda>signed_request.
            io_try_catch_all (remote_attempt rt ex q target signed_request ep)
              (local_failure rt ex q target ''transport_unavailable'')))) w ?R"
    by (rule spec_bind_keeps [OF res refl])
      (auto split: option.splits intro!: loc guarded spec_bind_keeps [OF keeps_outcome])
  then show ?thesis unfolding executor_call_def by simp
qed

text \<open>
  Claim C30. An attempt leaves no descriptor open, on every path with defined behaviour: after a verified answer,
  a rejected one, a timeout or any exception in between, the process holds the descriptors it held before.
\<close>

theorem attempt_leaks_nothing:
  assumes "callbacks_keep opened rt ex" and "executor_call rt ex q target w = Some (r, w')" and "r \<noteq> Undefined"
  shows "opened w' = opened w"
  using io_specD [OF executor_call_opened [OF assms(1)] assms(2)] assms(3) by simp

definition sample_runtime :: "(net, nat, nat option) runtime" where
  "sample_runtime = \<lparr>crypto = sample_ssl, system = sample_os, clock = (\<lambda>w. (1700000000000000000, w))\<rparr>"

definition sample_executor :: "(net, nat) AuthenticatedTcpAttemptExecutor" where
  "sample_executor = \<lparr>local_private_key = Some 7,
     endpoint_resolver = (\<lambda>n. io_return (Some \<lparr>host = ''127.0.0.1'', port = 9\<rparr>)),
     public_key_resolver = (\<lambda>n. io_return (Some 7)), connect_timeout = 1500, io_timeout = 3000\<rparr>"

definition job_at :: "string \<Rightarrow> JobRequest" where
  "job_at node = (job_to ''job-1'')\<lparr>target_node_id := node\<rparr>"

lemma sample_executor_valid: "executor_valid sample_runtime sample_executor"
  using sample_ssl_base64 sample_ssl_ed25519
  by (auto simp: executor_valid_def can_sign_def never_throws_def sample_runtime_def sample_executor_def)

lemma sample_callbacks_keep: "callbacks_keep net_open sample_runtime sample_executor"
  using sample_os_tracks by (simp add: callbacks_keep_def clock_keeps_def sample_runtime_def sample_executor_def keeps_outcome)

text \<open>With the sample system the connection times out, and the attempt brings a local failure.\<close>

lemma sample_connect:
  "\<exists>w'. connect_ipv4_with_timeout sample_os ''127.0.0.1'' 9 1500 (sample_net [])
     = Some (Throw (Runtime_Error ''socket connect timeout''), w')"
  by (simp add: connect_ipv4_with_timeout_def connect_socket_def await_connect_def poll_loop_def
      io_loop.simps sys_call_def io_bind_def unwind_handle_def ipv4_address_def sample_os_def sample_net_def)

lemma sample_attempt:
  "\<exists>response w'. executor_call sample_runtime sample_executor (job_at ''node-b'') ''node-b'' (sample_net [])
      = Some (Return response, w') \<and>
    local_evidence sample_runtime sample_executor (job_at ''node-b'') ''node-b'' ''transport_unavailable'' response"
proof -
  have sign: "can_sign sample_runtime sample_executor" using sample_executor_valid by (simp add: executor_valid_def)
  obtain t where "sign_job_request sample_ssl (job_at ''node-b'') (Some 7)
      = Return ((job_at ''node-b'')\<lparr>JobRequest.signature_algorithm := ''Ed25519'', JobRequest.signature := t\<rparr>)"
    using sign_request [OF sign, of "job_at ''node-b''"] by (auto simp: sample_runtime_def sample_executor_def)
  then show ?thesis
    using sample_connect local_failure_returns [OF sign, of "job_at ''node-b''" "''node-b''" "''transport_unavailable''"]
    by (auto simp: executor_call_def remote_attempt_def job_at_def io_try_catch_all_def io_bind_def
        sample_runtime_def sample_executor_def)
qed

theorem attempt_leaks_nothing_witness:
  "\<exists>response w'. executor_call sample_runtime sample_executor (job_at ''node-b'') ''node-b'' (sample_net [])
      = Some (Return response, w') \<and> net_open w' = {}"
proof -
  obtain response w' where run: "executor_call sample_runtime sample_executor (job_at ''node-b'') ''node-b'' (sample_net [])
      = Some (Return response, w')"
    using sample_attempt by blast
  show ?thesis using attempt_leaks_nothing [OF sample_callbacks_keep run] run by (simp add: sample_net_def)
qed

section \<open>Evidence\<close>

text \<open>
  Claim C15. Every attempt that comes back with defined behaviour brings evidence and no exception: either a
  result that answers this request from the target to the sender with status \<open>OK\<close> and verified under a
  key resolved for the target, or a failure of the target for this request that was signed by the local
  key or verified under a key resolved for the node that reports it.
\<close>

theorem attempt_brings_backed_evidence:
  assumes "executor_valid rt ex" and "target \<noteq> []" and "target_node_id q = target"
    and "executor_call rt ex q target w = Some (r, w')"
  shows "r = Undefined \<or> (\<exists>response. r = Return response \<and> backed rt ex q target response)"
  using io_specD [OF executor_call_backed [OF assms(1-3)] assms(4)] .

theorem attempt_brings_backed_evidence_witness:
  "\<exists>response. backed sample_runtime sample_executor (job_at ''node-b'') ''node-b'' response"
proof -
  obtain response w' where run: "executor_call sample_runtime sample_executor (job_at ''node-b'') ''node-b'' (sample_net [])
      = Some (Return response, w')"
    using sample_attempt by blast
  show ?thesis
    using attempt_brings_backed_evidence [OF sample_executor_valid _ _ run] by (auto simp: job_at_def)
qed

text \<open>
  Claim C2. The whole stack: an engine over the routing adapter and the TCP executor never throws for a named
  request.  When it completes, the last attempt is recorded as \<open>OK\<close>, the result comes from the very node
  of that attempt, answers the request to its sender, and verified under a key resolved for that node.
\<close>

theorem resilient_execution_over_tcp:
  assumes "provider_ok provider" and "executor_valid rt ex" and "JobRequest.request_id q \<noteq> []" and "0 < n"
    and "execute \<lparr>route_provider = routing_provider provider, attempt_executor = executor_call rt ex,
           max_attempts = n\<rparr> q w = Some (r, w')"
  shows "r = Undefined \<or> (\<exists>oc. r = Return oc \<and> (completed (ResilientExecutionOutcome.state oc) \<longrightarrow>
    (\<exists>before node res. attempts (ResilientExecutionOutcome.state oc) = before @ [\<lparr>node_id = node, outcome = ''OK''\<rparr>] \<and>
       ExecutionState.result (ResilientExecutionOutcome.state oc) = Some res \<and>
       responder_node_id res = node \<and> JobResult.request_id res = JobRequest.request_id q \<and>
       recipient_node_id res = sender_node_id q \<and>
       (\<exists>k w1 w2. public_key_resolver ex node w1 = Some (Return k, w2) \<and>
          verify_job_result (crypto rt) res k = Return True))))"
  using stack.stack_never_throws [of provider "(rt, ex)" q n w r w'] assms
  by (auto simp: completed_by_def result_backed_def) blast

theorem resilient_execution_over_tcp_witness:
  "\<exists>r w'. execute \<lparr>route_provider = routing_provider sample_provider,
       attempt_executor = executor_call sample_runtime (sample_executor\<lparr>endpoint_resolver := \<lambda>n. io_return None\<rparr>),
       max_attempts = 3\<rparr> (job_to ''job-1'') (sample_net []) = Some (r, w') \<and>
     (r = Undefined \<or> (\<exists>oc. r = Return oc))"
proof -
  let ?ex = "sample_executor\<lparr>endpoint_resolver := \<lambda>n. io_return None\<rparr>"
  let ?e = "\<lparr>route_provider = routing_provider sample_provider,
    attempt_executor = executor_call sample_runtime ?ex, max_attempts = 3\<rparr>"
  have v: "executor_valid sample_runtime ?ex"
    using sample_executor_valid by (simp add: executor_valid_def can_sign_def never_throws_def sample_executor_def)
  have "returns (local_failure sample_runtime ?ex q node why)" for q node why
    unfolding local_failure_def by (intro returns_bind) (auto simp: returns_def read_clock_def split: prod.splits)
  then have "returns (executor_call sample_runtime ?ex q node)" for q node
    by (simp add: executor_call_def)
  then have "returns (execute ?e (job_to ''job-1''))"
    by (intro execute_returns) (simp_all add: routing_provider_def)
  then obtain r w' where run: "execute ?e (job_to ''job-1'') (sample_net []) = Some (r, w')"
    by (fastforce simp: returns_def)
  show ?thesis
    using resilient_execution_over_tcp [OF sample_provider_ok v _ _ run] run by (auto simp: job_to_def)
qed

section \<open>Answers and transport failures\<close>

text \<open>
  The situation of an attempt that is connected: the endpoint is resolved, the request signed, the connection
  made and its timeouts set; \<open>w1\<close> is the state of the environment then.
\<close>

definition connected ::
    "('w, 'k, 'c) runtime \<Rightarrow> ('w, 'k) AuthenticatedTcpAttemptExecutor \<Rightarrow> JobRequest \<Rightarrow> 'w \<Rightarrow> JobRequest \<Rightarrow> SocketHandle \<Rightarrow>
       'w \<Rightarrow> bool" where
  "connected rt ex q w sq h w1 \<longleftrightarrow>
     target_node_id q \<noteq> [] \<and> sign_job_request (crypto rt) q (local_private_key ex) = Return sq \<and>
     (\<exists>ep w2 w3. endpoint_resolver ex (target_node_id q) w = Some (Return (Some ep), w2) \<and>
        connect_ipv4_with_timeout (system rt) (host ep) (port ep) (connect_timeout ex) w2 = Some (Return h, w3) \<and>
        set_socket_io_timeout (system rt) (fd h) (io_timeout ex) w3 = Some (Return (), w1))"

text \<open>What remains of a connected attempt: send the request, receive the answer, decide on it.\<close>

abbreviation talk ::
    "('w, 'k, 'c) runtime \<Rightarrow> ('w, 'k) AuthenticatedTcpAttemptExecutor \<Rightarrow> JobRequest \<Rightarrow> JobRequest \<Rightarrow> SocketHandle \<Rightarrow>
       ('w, AttemptResponse) io" where
  "talk rt ex q sq h \<equiv>
     io_bind (send_framed_json (system rt) (fd h) (job_request_envelope_json sq)) (\<lambda>_.
     io_bind (recv_framed_json (system rt) (fd h)) (accept_remote rt ex q (target_node_id q)))"

lemma connected_call:
  assumes "connected rt ex q w sq h w1"
  shows "executor_call rt ex q (target_node_id q) w =
    (case talk rt ex q sq h w1 of
       None \<Rightarrow> None
     | Some (Return response, w2) \<Rightarrow> Some (Return response, SocketHandle_destroy (system rt) h w2)
     | Some (Throw e, w2) \<Rightarrow>
         local_failure rt ex q (target_node_id q) ''transport_unavailable'' (SocketHandle_destroy (system rt) h w2)
     | Some (Undefined, w2) \<Rightarrow> Some (Undefined, w2))"
proof -
  obtain ep w3 w4 where c: "endpoint_resolver ex (target_node_id q) w = Some (Return (Some ep), w3)"
      "connect_ipv4_with_timeout (system rt) (host ep) (port ep) (connect_timeout ex) w3 = Some (Return h, w4)"
      "set_socket_io_timeout (system rt) (fd h) (io_timeout ex) w4 = Some (Return (), w1)"
      "target_node_id q \<noteq> []" "sign_job_request (crypto rt) q (local_private_key ex) = Return sq"
    using assms by (auto simp: connected_def)
  have "exchange rt ex q (target_node_id q) sq h w4 = talk rt ex q sq h w1"
    using c(3) by (simp add: exchange_def io_bind_simps(2) [where m = "set_socket_io_timeout _ _ _"])
  then have "remote_attempt rt ex q (target_node_id q) sq ep w3 =
      (case talk rt ex q sq h w1 of None \<Rightarrow> None | Some (Undefined, w2) \<Rightarrow> Some (Undefined, w2)
       | Some (r, w2) \<Rightarrow> Some (r, SocketHandle_destroy (system rt) h w2))"
    using c(2) by (auto simp: remote_attempt_def io_bind_simps(2) [where m = "connect_ipv4_with_timeout _ _ _ _"]
        scoped_handle_def unwind_handle_def split: option.splits outcome.splits)
  then show ?thesis
    using c(1,4,5) by (auto simp: executor_call_def io_bind_simps(2) [where m = "endpoint_resolver _ _"]
        io_try_catch_all_def split: option.splits outcome.splits)
qed

lemma messages_exchanged:
  assumes "stream_out os s outgoing" and "progress_out os s pending"
    and "stream_in os s incoming" and "progress_in os s incoming pending'"
    and "\<And>d. keeps incoming (sys_call (sys_send os s d))"
    and "encode_frame request = Return request_frame" and "encode_frame answer = Return frame"
    and "incoming w = frame @ rest"
  shows "\<exists>w1 w2. send_framed_json os s request w = Some (Return (), w1) \<and>
    recv_framed_json os s w1 = Some (Return answer, w2)"
proof -
  obtain w1 where send: "send_framed_json os s request w = Some (Return (), w1)"
    using send_all_ensures [OF assms(1,2), of request_frame w] by (auto simp: send_framed_json_def assms(6) io_ensures_def)
  have "keeps incoming (send_framed_json os s request)"
    unfolding send_framed_json_def send_all_def send_round_def by (intro keeps_intros assms(5))
  then have "incoming w1 = frame @ rest" using send assms(8) unfolding keeps_def by metis
  then show ?thesis
    using send recv_framed_json_ensures [OF assms(3,4), of w1] take_frame_encode [OF assms(7)]
    by (auto simp: io_ensures_def consumed_def)
qed

lemma accept_answer:
  assumes "completed_at r \<noteq> int64_min" and "JobResult.request_id r = JobRequest.request_id q"
    and "responder_node_id r = target" and "recipient_node_id r = sender_node_id q" and "status r = ''OK''"
    and "public_key_resolver ex target w = Some (Return k, w')" and "verify_job_result (crypto rt) r k = Return True"
  shows "accept_remote rt ex q target (job_result_envelope_json r) w
    = Some (Return \<lparr>AttemptResponse.result = Some r, failure = None\<rparr>, w')"
  using assms result_message.roundtrip [of r] result_message.envelope_type [of r]
  by (simp add: accept_remote_def accept_remote_result_def io_bind_def)

text \<open>A good answer over a working byte stream is accepted, however the bytes are fragmented.\<close>

lemma attempt_returns_answer:
  assumes "connected rt ex q w sq h w1"
    and "stream_out (system rt) (fd h) outgoing" and "progress_out (system rt) (fd h) pending"
    and "stream_in (system rt) (fd h) incoming" and "progress_in (system rt) (fd h) incoming pending"
    and "\<And>d. keeps incoming (sys_call (sys_send (system rt) (fd h) d))"
    and "length (job_request_envelope_json sq) \<le> 1048576"
    and "encode_frame (job_result_envelope_json r) = Return frame" and "incoming w1 = frame @ rest"
    and "completed_at r \<noteq> int64_min" and "JobResult.request_id r = JobRequest.request_id q"
    and "responder_node_id r = target_node_id q" and "recipient_node_id r = sender_node_id q" and "status r = ''OK''"
    and "public_key_resolver ex (target_node_id q) = io_return k" and "verify_job_result (crypto rt) r k = Return True"
  shows "\<exists>w2. executor_call rt ex q (target_node_id q) w
    = Some (Return \<lparr>AttemptResponse.result = Some r, failure = None\<rparr>, SocketHandle_destroy (system rt) h w2)"
proof -
  obtain bs where bs: "encode_frame (job_request_envelope_json sq) = Return bs"
    using assms(7) by (simp add: encode_frame_def Let_def kMaxFrameBytes_def job_request_envelope_json_def)
  obtain w2 w3 where "send_framed_json (system rt) (fd h) (job_request_envelope_json sq) w1 = Some (Return (), w2)"
      "recv_framed_json (system rt) (fd h) w2 = Some (Return (job_result_envelope_json r), w3)"
    using messages_exchanged [OF assms(2-6) bs assms(8,9)] by blast
  moreover have "accept_remote rt ex q (target_node_id q) (job_result_envelope_json r) w3
      = Some (Return \<lparr>AttemptResponse.result = Some r, failure = None\<rparr>, w3)"
    using assms(10-16) by (intro accept_answer) auto
  ultimately show ?thesis by (auto simp: connected_call [OF assms(1)] io_bind_simps)
qed

text \<open>The sample system with a peer that accepts connections at once.\<close>

definition open_runtime :: "(net, nat, nat option) runtime" where
  "open_runtime = sample_runtime\<lparr>system := sample_os\<lparr>sys_connect := (\<lambda>s address w. Some ((0, EOTHER 0), w))\<rparr>\<rparr>"

lemma open_runtime_streams:
  "stream_out (system open_runtime) s net_out" "progress_out (system open_runtime) s net_pending"
  "stream_in (system open_runtime) s net_in" "progress_in (system open_runtime) s net_in net_pending"
  "keeps net_in (sys_call (sys_send (system open_runtime) s d))"
proof -
  have e: "sys_send (system open_runtime) = sys_send sample_os" "sys_recv (system open_runtime) = sys_recv sample_os"
    by (simp_all add: open_runtime_def)
  show "stream_out (system open_runtime) s net_out" "progress_out (system open_runtime) s net_pending"
    "stream_in (system open_runtime) s net_in" "progress_in (system open_runtime) s net_in net_pending"
    using sample_os_out [of s] sample_os_in [of s]
    by (simp_all only: stream_out_def progress_out_def stream_in_def progress_in_def e)
  show "keeps net_in (sys_call (sys_send (system open_runtime) s d))"
    unfolding e by (rule keeps_sys_call) (auto simp: sample_os_def split: if_splits)
qed

lemma open_runtime_can_sign: "can_sign open_runtime sample_executor"
  using sample_executor_valid by (simp add: executor_valid_def can_sign_def open_runtime_def sample_runtime_def)

lemma open_runtime_connected:
  assumes "sign_job_request (crypto open_runtime) (job_at ''node-b'') (local_private_key sample_executor) = Return sq"
  shows "connected open_runtime sample_executor (job_at ''node-b'') (sample_net bs) sq \<lparr>fd = 7\<rparr>
    ((sample_net bs)\<lparr>net_open := {7}\<rparr>)"
  using assms
  by (simp add: connected_def job_at_def sample_executor_def open_runtime_def sample_runtime_def
      connect_ipv4_with_timeout_def connect_socket_def set_socket_io_timeout_def ipv4_address_def
      sys_call_def io_bind_def unwind_handle_def sample_os_def sample_net_def Let_def)

lemma length_json_string: "length (json_string s) \<le> 2 + 6 * length s"
proof -
  have "length (json_escape c) \<le> 6" for c by (simp add: json_escape_def hex4_def)
  then have "length (concat (map json_escape s)) \<le> 6 * length s"
    by (induction s) (auto intro: add_le_mono)
  then show ?thesis by (simp add: json_string_def)
qed

definition answer_of :: "string \<Rightarrow> JobResult" where
  "answer_of t = (ok_result ''node-b'')\<lparr>recipient_node_id := ''node-a'', JobResult.signature := t\<rparr>"

lemma sample_sizes:
  assumes "length t = 88"
  shows "length (job_request_envelope_json ((job_at ''node-b'')\<lparr>JobRequest.signature_algorithm := ''Ed25519'',
      JobRequest.signature := t\<rparr>)) \<le> 1048576"
    and "length (job_result_envelope_json (answer_of t)) \<le> 1048576"
proof -
  note b = length_json_string [of t] length_json_string [of "[]"] length_json_string [of "''node-a''"]
    length_json_string [of "''node-b''"] length_json_string [of "''job-1''"] length_json_string [of "''Ed25519''"]
    length_json_string [of "''OK''"] length_json_string [of "''0.2''"] length_json_string [of "''msg-0''"]
    length_json_string [of "''PING''"]
  show "length (job_result_envelope_json (answer_of t)) \<le> 1048576"
    using b assms
    by (simp add: job_result_envelope_json_def signed_job_result_json_def answer_of_def ok_result_def
        JobResult_default_def dec_int64_def dec_int_def dec_nat.simps)
  show "length (job_request_envelope_json ((job_at ''node-b'')\<lparr>JobRequest.signature_algorithm := ''Ed25519'',
      JobRequest.signature := t\<rparr>)) \<le> 1048576"
    using b assms
    by (simp add: job_request_envelope_json_def signed_job_request_json_def job_at_def job_to_def
        json_organization_def dec_int64_def dec_int_def dec_nat.simps)
qed

end
