(* ===== verification/Deadlines.thy ===== *)
theory Deadlines
  imports Executor_Properties
begin

unbundle bit_operations_syntax

text \<open>
  Bounded blocking.  Here no call is taken to come back of itself: \<open>send\<close> and \<open>recv\<close> do on a socket that has a
  timeout for them, \<open>poll\<close> when it is given one, \<open>connect\<close> on a socket that does not block.  That the code is
  always in one of these cases is what is proved: it switches blocking off before it connects and on again
  after, gives \<open>poll\<close> a deadline, and sets both timeouts before it sends.
\<close>

section \<open>Sockets and their options\<close>

record socket_options =
  status_flags :: int
  receive_timeout :: timeval
  send_timeout :: timeval

text \<open>A timeout of zero means to wait without limit.\<close>

definition unlimited :: "timeval \<Rightarrow> bool" where
  "unlimited tv \<longleftrightarrow> tv_sec tv = 0 \<and> tv_usec tv = 0"

fun with_timeout :: "sockopt \<Rightarrow> timeval \<Rightarrow> socket_options \<Rightarrow> socket_options" where
  "with_timeout SO_RCVTIMEO tv o1 = o1\<lparr>receive_timeout := tv\<rparr>"
| "with_timeout SO_SNDTIMEO tv o1 = o1\<lparr>send_timeout := tv\<rparr>"

text \<open>A view \<open>sock\<close> of the options of every socket: \<open>setsockopt\<close> and \<open>fcntl\<close> set them, nothing else changes them.\<close>

definition options_view :: "'w posix \<Rightarrow> ('w \<Rightarrow> int \<Rightarrow> socket_options) \<Rightarrow> bool" where
  "options_view os sock \<longleftrightarrow>
     (\<forall>s opt tv w r w'. sys_setsockopt os s opt tv w = Some (r, w') \<longrightarrow>
        sock w' = (if r = 0 then (sock w)(s := with_timeout opt tv (sock w s)) else sock w)) \<and>
     (\<forall>s f w r w'. sys_fcntl_setfl os s f w = Some (r, w') \<longrightarrow>
        sock w' = (if r = 0 then (sock w)(s := (sock w s)\<lparr>status_flags := f\<rparr>) else sock w)) \<and>
     (\<forall>s w r w'. sys_fcntl_getfl os s w = Some (r, w') \<longrightarrow>
        sock w' = sock w \<and> (0 \<le> r \<longrightarrow> r = status_flags (sock w s))) \<and>
     (\<forall>s data. keeps sock (sys_call (sys_send os s data))) \<and>
     (\<forall>s k. keeps sock (sys_call (sys_recv os s k))) \<and>
     (\<forall>s a. keeps sock (sys_call (sys_connect os s a))) \<and>
     (\<forall>s t. keeps sock (sys_call (sys_poll_out os s t))) \<and>
     (\<forall>s. keeps sock (sys_call (sys_getsockopt_error os s)))"

text \<open>When calls come back; \<open>pending\<close> counts the interruptions that are still to come.\<close>

definition deadlines_kept :: "'w posix \<Rightarrow> ('w \<Rightarrow> int \<Rightarrow> socket_options) \<Rightarrow> ('w \<Rightarrow> nat) \<Rightarrow> bool" where
  "deadlines_kept os sock pending \<longleftrightarrow>
     (\<forall>s data w. \<not> unlimited (send_timeout (sock w s)) \<longrightarrow>
        (\<exists>n err w'. sys_send os s data w = Some ((n, err), w') \<and> pending w' \<le> pending w \<and>
           (n < 0 \<and> err = EINTR \<longrightarrow> pending w' < pending w))) \<and>
     (\<forall>s k w. \<not> unlimited (receive_timeout (sock w s)) \<longrightarrow>
        (\<exists>n bs err w'. sys_recv os s k w = Some ((n, bs, err), w') \<and> pending w' \<le> pending w \<and>
           (n < 0 \<and> err = EINTR \<longrightarrow> pending w' < pending w))) \<and>
     (\<forall>s t w. 0 \<le> t \<longrightarrow>
        (\<exists>n err w'. sys_poll_out os s t w = Some ((n, err), w') \<and> (n < 0 \<and> err = EINTR \<longrightarrow> pending w' < pending w))) \<and>
     (\<forall>s a w. status_flags (sock w s) AND O_NONBLOCK \<noteq> 0 \<longrightarrow> sys_connect os s a w \<noteq> None) \<and>
     (\<forall>s opt tv w. sys_setsockopt os s opt tv w \<noteq> None) \<and>
     (\<forall>w. sys_socket os w \<noteq> None) \<and>
     (\<forall>s w. sys_fcntl_getfl os s w \<noteq> None) \<and>
     (\<forall>s f w. sys_fcntl_setfl os s f w \<noteq> None) \<and>
     (\<forall>s w. sys_getsockopt_error os s w \<noteq> None)"

section \<open>Calls that come back\<close>

lemma returns_if: "returns m \<Longrightarrow> returns m' \<Longrightarrow> returns (if b then m else m')"
  by simp

lemma returns_case_prod: "(\<And>x y. returns (f x y)) \<Longrightarrow> returns (case p of (x, y) \<Rightarrow> f x y)"
  by (cases p) simp

lemma returns_let: "(\<And>x. returns (f x)) \<Longrightarrow> returns (let x = a in f x)"
  by (simp add: Let_def)

lemma returns_option: "returns m \<Longrightarrow> (\<And>x. returns (f x)) \<Longrightarrow> returns (case y of None \<Rightarrow> m | Some x \<Rightarrow> f x)"
  by (cases y) simp_all

lemma returns_handle: "returns m \<Longrightarrow> returns (unwind_handle os h m)" "returns m \<Longrightarrow> returns (scoped_handle os h m)"
  unfolding returns_def scoped_handle_def unwind_handle_def by (auto split: option.splits outcome.splits prod.splits)

lemmas returns_intros = returns_outcome returns_bind returns_if returns_case_prod returns_let returns_option
  returns_handle returns_try_catch_all

lemma local_failure_comes_back: "returns (local_failure rt ex q target why)"
  unfolding local_failure_def
  by (intro returns_intros) (simp add: returns_def read_clock_def split: prod.splits)

text \<open>A conclusion about calls that return: exceptions may happen, undefined behaviour too, but not silence.\<close>

definition on_return :: "('a \<Rightarrow> 'w \<Rightarrow> bool) \<Rightarrow> 'a outcome \<Rightarrow> 'w \<Rightarrow> bool" where
  "on_return P r w \<longleftrightarrow> (\<forall>x. r = Return x \<longrightarrow> P x w)"

lemma on_return_simps [simp]:
  "on_return P (Return x) w \<longleftrightarrow> P x w" "on_return P (Throw e) w" "on_return P Undefined w"
  by (simp_all add: on_return_def)

lemma ensures_then:
  assumes "io_ensures m w (on_return P)" and "\<And>x w1. P x w1 \<Longrightarrow> io_ensures (f x) w1 (on_return Q)"
  shows "io_ensures (io_bind m f) w (on_return Q)"
  unfolding io_ensures_bind using assms(1)
  by (rule io_ensures_mono) (use assms(2) in \<open>auto split: outcome.splits\<close>)

lemma ensures_returns: "returns m \<Longrightarrow> io_ensures m w (on_return (\<lambda>x w'. True))"
  by (auto simp: returns_def io_ensures_def on_return_def)

lemma returns_ensures: "(\<And>w. io_ensures m w (R w)) \<Longrightarrow> returns m"
  unfolding returns_def io_ensures_def by fastforce

lemma ensures_loop_return:
  assumes "I s w"
    and "\<And>s w. I s w \<Longrightarrow> io_ensures (body s) w (\<lambda>r w'. (\<forall>s'. r = Return (Inl s') \<longrightarrow> I s' w' \<and> m s' w' < (m s w :: nat)) \<and>
      (\<forall>y. r = Return (Inr y) \<longrightarrow> P y w'))"
  shows "io_ensures (io_loop body s) w (on_return P)"
proof (rule io_loop_ensures [of I, where m = m])
  fix s w
  assume "I s w"
  from assms(2) [OF this]
  show "io_ensures (body s) w (round_post (\<lambda>s' w'. I s' w' \<and> m s' w' < m s w) (on_return P))"
  proof (rule io_ensures_mono)
    fix r w'
    assume "(\<forall>s'. r = Return (Inl s') \<longrightarrow> I s' w' \<and> m s' w' < m s w) \<and> (\<forall>y. r = Return (Inr y) \<longrightarrow> P y w')"
    then show "round_post (\<lambda>s' w'. I s' w' \<and> m s' w' < m s w) (on_return P) r w'"
      by (cases "(\<lambda>s' w'. I s' w' \<and> m s' w' < m s w, on_return P, r, w')" rule: round_post.cases) auto
  qed
qed (rule assms(1))

lemma options_keep:
  assumes "options_view os sock"
  shows "keeps sock (sys_call (sys_send os s data))" "keeps sock (sys_call (sys_recv os s k))"
    "keeps sock (sys_call (sys_connect os s a))" "keeps sock (sys_call (sys_poll_out os s t))"
    "keeps sock (sys_call (sys_getsockopt_error os s))"
  using assms unfolding options_view_def by blast+

lemma deadline_calls:
  assumes "deadlines_kept os sock pending"
  shows "\<not> unlimited (send_timeout (sock w s)) \<Longrightarrow> \<exists>n err w'. sys_send os s data w = Some ((n, err), w') \<and>
      pending w' \<le> pending w \<and> (n < 0 \<and> err = EINTR \<longrightarrow> pending w' < pending w)"
    and "\<not> unlimited (receive_timeout (sock w s)) \<Longrightarrow> \<exists>n bs err w'. sys_recv os s k w = Some ((n, bs, err), w') \<and>
      pending w' \<le> pending w \<and> (n < 0 \<and> err = EINTR \<longrightarrow> pending w' < pending w)"
    and "0 \<le> t \<Longrightarrow> \<exists>n err w'. sys_poll_out os s t w = Some ((n, err), w') \<and>
      (n < 0 \<and> err = EINTR \<longrightarrow> pending w' < pending w)"
  using assms unfolding deadlines_kept_def by simp_all

lemma deadline_socket: "deadlines_kept os sock pending \<Longrightarrow> \<exists>s w0. sys_socket os w = Some (s, w0)"
  by (simp add: deadlines_kept_def)

lemma keeps_result: "keeps view (sys_call f) \<Longrightarrow> f w = Some (x, w') \<Longrightarrow> view w' = view w"
  by (auto simp: keeps_def sys_call_def)

lemma ensures_keeps: "keeps view m \<Longrightarrow> io_ensures m w R \<Longrightarrow> io_ensures m w (\<lambda>r w'. R r w' \<and> view w' = view w)"
  unfolding keeps_def io_ensures_def by blast

lemma ensures_sys_call: "f w \<noteq> None \<Longrightarrow> io_ensures (sys_call f) w (on_return (\<lambda>x w'. f w = Some (x, w')))"
  by (auto simp: io_ensures_def sys_call_def)

text \<open>Setting an option: the call comes back, and when it reports success the option is set.\<close>

lemma ensures_setsockopt:
  assumes "options_view os sock" and "deadlines_kept os sock pending"
  shows "io_ensures (sys_call (sys_setsockopt os s opt tv)) w (on_return (\<lambda>r w'.
    r = 0 \<longrightarrow> sock w' = (sock w)(s := with_timeout opt tv (sock w s))))"
proof -
  have "sys_setsockopt os s opt tv w \<noteq> None" using assms(2) unfolding deadlines_kept_def by blast
  from ensures_sys_call [of "sys_setsockopt os s opt tv", OF this] show ?thesis
    by (rule io_ensures_mono) (use assms(1) in \<open>auto simp: on_return_def options_view_def\<close>)
qed

lemma ensures_setfl:
  assumes "options_view os sock" and "deadlines_kept os sock pending"
  shows "io_ensures (sys_call (sys_fcntl_setfl os s f)) w (on_return (\<lambda>r w'.
    r = 0 \<longrightarrow> sock w' = (sock w)(s := (sock w s)\<lparr>status_flags := f\<rparr>)))"
proof -
  have "sys_fcntl_setfl os s f w \<noteq> None" using assms(2) unfolding deadlines_kept_def by blast
  from ensures_sys_call [of "sys_fcntl_setfl os s f", OF this] show ?thesis
    by (rule io_ensures_mono) (use assms(1) in \<open>auto simp: on_return_def options_view_def\<close>)
qed

lemma ensures_getfl:
  assumes "options_view os sock" and "deadlines_kept os sock pending"
  shows "io_ensures (sys_call (sys_fcntl_getfl os s)) w (on_return (\<lambda>r w'.
    sock w' = sock w \<and> (0 \<le> r \<longrightarrow> r = status_flags (sock w s))))"
proof -
  have "sys_fcntl_getfl os s w \<noteq> None" using assms(2) unfolding deadlines_kept_def by blast
  from ensures_sys_call [of "sys_fcntl_getfl os s", OF this] show ?thesis
    by (rule io_ensures_mono) (use assms(1) in \<open>auto simp: on_return_def options_view_def\<close>)
qed

lemma ensures_connect:
  assumes "options_view os sock" and "deadlines_kept os sock pending"
    and "status_flags (sock w s) AND O_NONBLOCK \<noteq> 0"
  shows "io_ensures (sys_call (sys_connect os s a)) w (on_return (\<lambda>r w'. sock w' = sock w))"
proof -
  have "sys_connect os s a w \<noteq> None" using assms(2,3) unfolding deadlines_kept_def by blast
  from ensures_keeps [OF options_keep(3) [OF assms(1)] ensures_sys_call [of "sys_connect os s a", OF this]] show ?thesis
    by (rule io_ensures_mono) (auto simp: on_return_def)
qed

lemma ensures_getsockopt:
  assumes "options_view os sock" and "deadlines_kept os sock pending"
  shows "io_ensures (sys_call (sys_getsockopt_error os s)) w (on_return (\<lambda>r w'. sock w' = sock w))"
proof -
  have "sys_getsockopt_error os s w \<noteq> None" using assms(2) unfolding deadlines_kept_def by blast
  from ensures_keeps [OF options_keep(5) [OF assms(1)] ensures_sys_call [of "sys_getsockopt_error os s", OF this]] show ?thesis
    by (rule io_ensures_mono) (auto simp: on_return_def)
qed

lemmas ensures_calls = ensures_setsockopt ensures_setfl ensures_getfl ensures_getsockopt

section \<open>Connecting\<close>

lemma poll_loop_deadline:
  assumes "options_view os sock" and "deadlines_kept os sock pending" and "0 \<le> t"
  shows "io_ensures (poll_loop os s t) w (on_return (\<lambda>r w'. sock w' = sock w))"
  unfolding poll_loop_def
proof (rule ensures_loop_return [where m = "\<lambda>u w. pending w" and I = "\<lambda>u w'. sock w' = sock w"])
  fix u :: unit and w1
  assume inv: "sock w1 = sock w"
  obtain n err w' where call: "sys_poll_out os s t w1 = Some ((n, err), w')"
      "n < 0 \<and> err = EINTR \<longrightarrow> pending w' < pending w1"
    using deadline_calls(3) [OF assms(2,3)] by blast
  have "sock w' = sock w1"
    by (rule keeps_result [OF options_keep(4) [OF assms(1)] call(1)])
  then show "io_ensures (io_bind (sys_call (sys_poll_out os s t)) (\<lambda>(r, err).
      io_return (if r < 0 \<and> err = EINTR then Inl () else Inr (r, err)))) w1
      (\<lambda>r w'. (\<forall>s'. r = Return (Inl s') \<longrightarrow> sock w' = sock w \<and> pending w' < pending w1) \<and>
        (\<forall>y. r = Return (Inr y) \<longrightarrow> sock w' = sock w))"
    using call inv by (auto simp: ensures_simps)
qed simp

lemma await_connect_deadline:
  assumes "options_view os sock" and "deadlines_kept os sock pending"
    and "0 < sint timeout" and "sint timeout < 2 ^ 31"
  shows "io_ensures (await_connect os s timeout) w (on_return (\<lambda>r w'. sock w' = sock w))"
proof -
  have "0 \<le> poll_timeout timeout" using poll_timeout_small [OF assms(3,4)] assms(3) by simp
  then show ?thesis
    unfolding await_connect_def
    by (intro ensures_then [OF poll_loop_deadline [OF assms(1,2)]])
      (auto intro!: ensures_then [OF ensures_getsockopt [OF assms(1,2)]])
qed

lemma nonblocking: "(f OR O_NONBLOCK) AND O_NONBLOCK \<noteq> (0 :: int)"
proof -
  have "(f OR O_NONBLOCK) AND O_NONBLOCK = O_NONBLOCK" by (simp add: bit_eq_iff bit_simps) blast?
  then show ?thesis by (simp add: O_NONBLOCK_def)
qed

lemma connect_socket_deadline:
  assumes "options_view os sock" and "deadlines_kept os sock pending"
    and "0 < sint timeout" and "sint timeout < 2 ^ 31"
  shows "io_ensures (connect_socket os s addr num timeout) w (on_return (\<lambda>r w'. sock w' = sock w))"
  unfolding connect_socket_def
proof (rule ensures_then [OF ensures_getfl [OF assms(1,2)]])
  fix flags w1
  assume w1: "sock w1 = sock w \<and> (0 \<le> flags \<longrightarrow> flags = status_flags (sock w s))"
  let ?on = "(sock w)(s := (sock w s)\<lparr>status_flags := flags OR O_NONBLOCK\<rparr>)"
  have tail: "io_ensures (io_bind (sys_call (sys_fcntl_setfl os s flags)) (\<lambda>r.
      if r \<noteq> 0 then io_throw (Runtime_Error ''failed to restore socket flags'') else io_return ())) w2
      (on_return (\<lambda>r w'. sock w' = sock w))" if "sock w2 = ?on" "0 \<le> flags" for w2
    by (rule ensures_then [OF ensures_setfl [OF assms(1,2)]]) (use that w1 in auto)
  have wait: "io_ensures (if r \<noteq> 0 then if err \<noteq> EINPROGRESS then io_throw (Runtime_Error ''socket connect failed'')
      else await_connect os s timeout else io_return ()) w2 (on_return (\<lambda>r w'. sock w' = ?on))"
    if "sock w2 = ?on" for r err w2
    using await_connect_deadline [OF assms, of s w2] that by auto
  show "io_ensures (if flags < 0 then io_throw (Runtime_Error ''failed to read socket flags'')
     else io_bind (sys_call (sys_fcntl_setfl os s (or flags O_NONBLOCK))) (\<lambda>r.
     if r \<noteq> 0 then io_throw (Runtime_Error ''failed to enable nonblocking connect'')
     else io_bind (io_outcome (ipv4_address os addr num)) (\<lambda>address.
     io_bind (sys_call (sys_connect os s address)) (\<lambda>(connect_result, err).
     io_bind (if connect_result \<noteq> 0
              then if err \<noteq> EINPROGRESS then io_throw (Runtime_Error ''socket connect failed'')
                   else await_connect os s timeout
              else io_return ()) (\<lambda>_.
     io_bind (sys_call (sys_fcntl_setfl os s flags)) (\<lambda>r.
     if r \<noteq> 0 then io_throw (Runtime_Error ''failed to restore socket flags'')
     else io_return ())))))) w1 (on_return (\<lambda>r w'. sock w' = sock w))"
  proof (cases "flags < 0")
    case False
    have connect: "io_ensures (sys_call (sys_connect os s a)) w2 (on_return (\<lambda>r w'. sock w' = ?on))"
      if "sock w2 = ?on" for a w2
      using ensures_connect [OF assms(1,2), of w2 s a] nonblocking [of flags] that by simp
    show ?thesis
      using False w1
      by (auto intro!: ensures_then [OF ensures_setfl [OF assms(1,2)]] ensures_then [OF connect]
          ensures_then [OF wait] tail ensures_then [where P = "\<lambda>x w2. sock w2 = ?on" and m = "io_outcome _"]
          simp: on_return_def)
  qed simp
qed

lemma ensures_unwind: "io_ensures m w (on_return P) \<Longrightarrow> io_ensures (unwind_handle os h m) w (on_return P)"
  by (auto simp: io_ensures_def unwind_handle_def on_return_def split: outcome.splits)

lemma connect_deadline:
  assumes "options_view os sock" and "deadlines_kept os sock pending" and "sint timeout < 2 ^ 31"
  shows "io_ensures (connect_ipv4_with_timeout os addr num timeout) w (on_return (\<lambda>h w'.
    \<exists>w0. sys_socket os w = Some (fd h, w0) \<and> sock w' = sock w0))"
proof (cases "0 < sint timeout")
  case True
  obtain s w0 where new: "sys_socket os w = Some (s, w0)"
    using deadline_socket [OF assms(2)] by blast
  have "io_ensures (connect_socket os s addr num timeout) w0 (on_return (\<lambda>r w'. sock w' = sock w0))"
    by (rule connect_socket_deadline [OF assms(1,2) True assms(3)])
  then have "io_ensures (io_bind (connect_socket os s addr num timeout) (\<lambda>_. io_return \<lparr>fd = s\<rparr>)) w0
      (on_return (\<lambda>h w'. fd h = s \<and> sock w' = sock w0))"
    by (rule ensures_then) simp
  from ensures_unwind [OF this, of os "\<lparr>fd = s\<rparr>"]
  have "io_ensures (unwind_handle os \<lparr>fd = s\<rparr> (if s < 0 then io_throw (Runtime_Error ''socket creation failed'')
        else io_bind (connect_socket os s addr num timeout) (\<lambda>_. io_return \<lparr>fd = s\<rparr>))) w0
      (on_return (\<lambda>h w'. fd h = s \<and> sock w' = sock w0))"
    by (cases "s < 0") (simp_all add: ensures_unwind)
  then show ?thesis
    using True new by (simp add: connect_ipv4_with_timeout_def ensures_simps Let_def eq_commute [of s] split del: if_split cong: if_cong)
qed (simp add: connect_ipv4_with_timeout_def)

section \<open>Exchanging messages\<close>

definition limited :: "socket_options \<Rightarrow> bool" where
  "limited o1 \<longleftrightarrow> \<not> unlimited (receive_timeout o1) \<and> \<not> unlimited (send_timeout o1)"

lemma timeval_limited: "0 < sint timeout \<Longrightarrow> \<not> unlimited (timeval_of timeout)"
  using timeval_of_exact [of timeout] by (auto simp: unlimited_def)

lemma set_timeout_deadline:
  assumes "options_view os sock" and "deadlines_kept os sock pending"
  shows "io_ensures (set_socket_io_timeout os s timeout) w (on_return (\<lambda>r w'. limited (sock w' s)))"
proof (cases "0 < sint timeout")
  case True
  then show ?thesis
    unfolding set_socket_io_timeout_def
    by (auto simp: Let_def limited_def timeval_limited on_return_def
        intro!: ensures_then [OF ensures_setsockopt [OF assms]])
qed (simp add: set_socket_io_timeout_def)

lemma send_all_deadline:
  assumes "options_view os sock" and "deadlines_kept os sock pending" and "limited (sock w s)"
  shows "io_ensures (send_all os s data) w (on_return (\<lambda>r w'. sock w' = sock w))"
  unfolding send_all_def
proof (rule ensures_loop_return [where m = "\<lambda>sent w. length data - sent + pending w" and I = "\<lambda>sent w'. sock w' = sock w"])
  fix sent w1
  assume inv: "sock w1 = sock w"
  then have "\<not> unlimited (send_timeout (sock w1 s))" using assms(3) by (simp add: limited_def)
  then obtain n err w' where call: "sys_send os s (drop sent data) w1 = Some ((n, err), w')" "pending w' \<le> pending w1"
      "n < 0 \<and> err = EINTR \<longrightarrow> pending w' < pending w1"
    using deadline_calls(1) [OF assms(2)] by blast
  have "sock w' = sock w1"
    by (rule keeps_result [OF options_keep(1) [OF assms(1)] call(1)])
  then show "io_ensures (send_round os s data sent) w1
      (\<lambda>r w'. (\<forall>k. r = Return (Inl k) \<longrightarrow> sock w' = sock w \<and> length data - k + pending w' < length data - sent + pending w1) \<and>
        (\<forall>y. r = Return (Inr y) \<longrightarrow> sock w' = sock w))"
    using call inv by (auto simp: send_round_def ensures_simps)
qed simp

lemma recv_exact_deadline:
  assumes "options_view os sock" and "deadlines_kept os sock pending" and "limited (sock w s)"
  shows "io_ensures (recv_exact os s count) w (on_return (\<lambda>r w'. sock w' = sock w))"
  unfolding recv_exact_def
proof (rule ensures_loop_return [where m = "\<lambda>v w. count - snd v + pending w" and I = "\<lambda>v w'. sock w' = sock w"])
  fix v :: "byte list \<times> nat" and w1
  assume inv: "sock w1 = sock w"
  then have "\<not> unlimited (receive_timeout (sock w1 s))" using assms(3) by (simp add: limited_def)
  then obtain n bs err w' where call: "sys_recv os s (count - snd v) w1 = Some ((n, bs, err), w')"
      "pending w' \<le> pending w1" "n < 0 \<and> err = EINTR \<longrightarrow> pending w' < pending w1"
    using deadline_calls(2) [OF assms(2)] by blast
  have "sock w' = sock w1"
    by (rule keeps_result [OF options_keep(2) [OF assms(1)] call(1)])
  then show "io_ensures (recv_round os s count v) w1
      (\<lambda>r w'. (\<forall>v'. r = Return (Inl v') \<longrightarrow> sock w' = sock w \<and> count - snd v' + pending w' < count - snd v + pending w1) \<and>
        (\<forall>y. r = Return (Inr y) \<longrightarrow> sock w' = sock w))"
    using call inv by (cases v) (auto simp: recv_round_def ensures_simps Let_def)
qed simp

lemma ensures_outcome: "io_ensures (io_outcome r) w (on_return (\<lambda>x w'. w' = w))"
  by (simp add: io_ensures_def io_outcome_def on_return_def)

lemma framed_deadline:
  assumes "options_view os sock" and "deadlines_kept os sock pending" and "limited (sock w s)"
  shows "io_ensures (send_framed_json os s json) w (on_return (\<lambda>r w'. sock w' = sock w))"
    and "io_ensures (recv_framed_json os s) w (on_return (\<lambda>r w'. sock w' = sock w))"
proof -
  show "io_ensures (send_framed_json os s json) w (on_return (\<lambda>r w'. sock w' = sock w))"
    unfolding send_framed_json_def
    by (rule ensures_then [OF ensures_outcome]) (simp add: send_all_deadline [OF assms])
  have exact: "io_ensures (recv_exact os s count) w1 (on_return (\<lambda>r w'. sock w' = sock w))"
    if "sock w1 = sock w" for count w1
    using recv_exact_deadline [OF assms(1,2), of w1 s count] assms(3) that by simp
  show "io_ensures (recv_framed_json os s) w (on_return (\<lambda>r w'. sock w' = sock w))"
    unfolding recv_framed_json_def Let_def
    by (intro ensures_then [OF exact] ensures_then [OF ensures_outcome]) auto
qed

lemma accept_remote_returns: "(\<And>n. returns (public_key_resolver ex n)) \<Longrightarrow> returns (accept_remote rt ex q target json)"
  unfolding accept_remote_def accept_remote_result_def accept_remote_failure_def
  by (intro returns_intros local_failure_comes_back)

lemma exchange_deadline:
  assumes "options_view (system rt) sock" and "deadlines_kept (system rt) sock pending"
    and "\<And>n. returns (public_key_resolver ex n)"
  shows "io_ensures (exchange rt ex q target sq h) w (on_return (\<lambda>r w'. True))"
  unfolding exchange_def
proof (rule ensures_then [OF set_timeout_deadline [OF assms(1,2)]])
  fix u w1
  assume w1: "limited (sock w1 (fd h))"
  have recv: "io_ensures (recv_framed_json (system rt) (fd h)) w2 (on_return (\<lambda>r w'. True))" if "sock w2 = sock w1" for w2
    using framed_deadline(2) [OF assms(1,2), of w2] w1 that
    by (fastforce simp: on_return_def elim: io_ensures_mono)
  show "io_ensures (io_bind (send_framed_json (system rt) (fd h) (job_request_envelope_json sq)) (\<lambda>_.
      io_bind (recv_framed_json (system rt) (fd h)) (accept_remote rt ex q target))) w1 (on_return (\<lambda>r w'. True))"
    by (intro ensures_then [OF framed_deadline(1) [OF assms(1,2) w1]] ensures_then [OF recv]
        ensures_returns accept_remote_returns assms(3))
qed

section \<open>Executions\<close>

lemma attempt_deadline:
  assumes "options_view (system rt) sock" and "deadlines_kept (system rt) sock pending"
    and "sint (connect_timeout ex) < 2 ^ 31"
    and "\<And>n. returns (endpoint_resolver ex n)" and "\<And>n. returns (public_key_resolver ex n)"
  shows "returns (executor_call rt ex q target)"
  unfolding executor_call_def remote_attempt_def
  by (intro returns_intros assms(4) local_failure_comes_back returns_ensures [OF connect_deadline [OF assms(1-3)]]
      returns_ensures [OF exchange_deadline [OF assms(1,2,5)]])

lemma executor_new_fields:
  "executor_new pk eps pks cms ims = Return ex \<Longrightarrow>
    connect_timeout ex = cms \<and> io_timeout ex = ims \<and> 0 < sint cms \<and> 0 < sint ims \<and> local_private_key ex = pk \<and> pk \<noteq> None \<and>
    eps = Some (endpoint_resolver ex) \<and> pks = Some (public_key_resolver ex)"
  by (auto simp: executor_new_def split: if_splits option.splits)

lemma engine_new_fields:
  "engine_new p x n = Return e \<Longrightarrow> 0 < n \<and>
    (\<exists>p' x'. p = Some p' \<and> x = Some x' \<and> e = \<lparr>route_provider = p', attempt_executor = x', max_attempts = n\<rparr>)"
  by (auto simp: engine_new_def split: if_splits option.splits)

text \<open>
  Claim C20. Connecting is bounded and leaves no trace on the socket: with a deadline that fits the argument of
  \<open>poll\<close>, \<open>connect_ipv4_with_timeout\<close> comes back although \<open>connect\<close> waits on a socket that blocks and \<open>poll\<close>
  without a deadline, and the socket it returns has the status flags and the timeouts it was created with.
\<close>

theorem connect_bounded_and_restoring:
  assumes "options_view os sock" and "deadlines_kept os sock pending" and "sint timeout < 2 ^ 31"
  shows "\<exists>r w'. connect_ipv4_with_timeout os addr num timeout w = Some (r, w') \<and>
    (\<forall>h. r = Return h \<longrightarrow> (\<exists>w0. sys_socket os w = Some (fd h, w0) \<and> sock w' = sock w0))"
  using connect_deadline [OF assms] by (fastforce simp: io_ensures_def on_return_def)

text \<open>
  A system that takes bytes and never sends any.  It lets a caller wait forever wherever no deadline is
  set: \<open>recv\<close> and \<open>send\<close> without a timeout, \<open>poll\<close> with a negative one, \<open>connect\<close> on a blocking socket.
\<close>

definition silent_os :: "(int \<Rightarrow> socket_options) posix" where
  "silent_os = \<lparr>
     sys_send = (\<lambda>s data w. if unlimited (send_timeout (w s)) then None else Some ((int (length data), EOTHER 0), w)),
     sys_recv = (\<lambda>s k w. if unlimited (receive_timeout (w s)) then None else Some ((- 1, [], EAGAIN), w)),
     sys_setsockopt = (\<lambda>s opt tv w. Some (0, w(s := with_timeout opt tv (w s)))),
     sys_inet_pton = (\<lambda>host. (1, [127, 0, 0, 1])),
     sys_socket = (\<lambda>w. Some (7, w(7 := \<lparr>status_flags = 2, receive_timeout = \<lparr>tv_sec = 0, tv_usec = 0\<rparr>,
       send_timeout = \<lparr>tv_sec = 0, tv_usec = 0\<rparr>\<rparr>))),
     sys_connect = (\<lambda>s address w. if status_flags (w s) AND O_NONBLOCK = 0 then None else Some ((- 1, EINPROGRESS), w)),
     sys_fcntl_getfl = (\<lambda>s w. Some (status_flags (w s), w)),
     sys_fcntl_setfl = (\<lambda>s flags w. Some (0, w(s := (w s)\<lparr>status_flags := flags\<rparr>))),
     sys_poll_out = (\<lambda>s timeout w. if timeout < 0 then None else Some ((1, EOTHER 0), w)),
     sys_getsockopt_error = (\<lambda>s w. Some ((0, 0), w)),
     sys_close = (\<lambda>s w. w)\<rparr>"

definition no_sockets :: "int \<Rightarrow> socket_options" where
  "no_sockets s = \<lparr>status_flags = 0, receive_timeout = \<lparr>tv_sec = 0, tv_usec = 0\<rparr>, send_timeout = \<lparr>tv_sec = 0, tv_usec = 0\<rparr>\<rparr>"

lemma silent_os_options: "options_view silent_os (\<lambda>w. w)"
  by (auto simp: options_view_def silent_os_def keeps_def sys_call_def split: if_splits)

lemma silent_os_deadlines: "deadlines_kept silent_os (\<lambda>w. w) (\<lambda>w. 0)"
  by (auto simp: deadlines_kept_def silent_os_def)

theorem connect_bounded_and_restoring_witness:
  "\<exists>r w'. connect_ipv4_with_timeout silent_os ''127.0.0.1'' 9 1500 no_sockets = Some (r, w') \<and>
    (\<forall>h. r = Return h \<longrightarrow> (\<exists>w0. sys_socket silent_os no_sockets = Some (fd h, w0) \<and> w' = w0))"
  by (rule connect_bounded_and_restoring [OF silent_os_options silent_os_deadlines]) simp

text \<open>
  Claim C3. No peer can block an execution.  An executor and an engine that their constructors accept, with a
  connect deadline below \<open>2 ^ 31\<close> milliseconds, come back from every named request with an outcome (or in
  undefined behaviour, never with an exception), although the system lets \<open>send\<close>, \<open>recv\<close>, \<open>poll\<close> and \<open>connect\<close>
  wait forever on a socket without timeouts: the peer may be silent, stall in the middle of a frame, send
  garbage or close the connection.  Only interruptions are taken to run out.
\<close>

theorem deadlines_bound_execution:
  assumes "executor_new private_key endpoints public_keys connect_ms io_ms = Return ex"
    and "engine_new (Some (routing_provider (provider_new rr known))) (Some (executor_call rt ex)) n = Return e"
    and "options_view (system rt) sock" and "deadlines_kept (system rt) sock pending" and "sint connect_ms < 2 ^ 31"
    and "\<And>n. returns (endpoint_resolver ex n)" and "\<And>n. returns (public_key_resolver ex n)"
    and "provider_ok (provider_new rr known)" and "executor_valid rt ex" and "JobRequest.request_id q \<noteq> []"
  shows "\<exists>r w'. execute e q w = Some (r, w') \<and> (r = Undefined \<or> (\<exists>oc. r = Return oc))"
proof -
  have e: "e = \<lparr>route_provider = routing_provider (provider_new rr known), attempt_executor = executor_call rt ex, max_attempts = n\<rparr>"
    and n: "0 < n"
    using engine_new_fields [OF assms(2)] by auto
  have "sint (connect_timeout ex) < 2 ^ 31" using executor_new_fields [OF assms(1)] assms(5) by simp
  then have "returns (execute e q)"
    unfolding e by (intro execute_returns) (simp_all add: routing_provider_def attempt_deadline [OF assms(3,4) _ assms(6,7)])
  then obtain r w' where run: "execute e q w = Some (r, w')" by (fastforce simp: returns_def)
  show ?thesis using stack.stack_never_throws [of "provider_new rr known" "(rt, ex)" q n w r w'] assms(8-10) n run e by auto
qed

definition silent_runtime :: "(int \<Rightarrow> socket_options, nat, nat option) runtime" where
  "silent_runtime = \<lparr>crypto = sample_ssl, system = silent_os, clock = (\<lambda>w. (1700000000000000000, w))\<rparr>"

definition silent_executor :: "(int \<Rightarrow> socket_options, nat) AuthenticatedTcpAttemptExecutor" where
  "silent_executor = \<lparr>local_private_key = Some 7,
     endpoint_resolver = (\<lambda>n. io_return (Some \<lparr>host = ''127.0.0.1'', port = 9\<rparr>)),
     public_key_resolver = (\<lambda>n. io_return (Some 7)), connect_timeout = 1500, io_timeout = 3000\<rparr>"

lemma silent_executor_valid: "executor_valid silent_runtime silent_executor"
  using sample_ssl_base64 sample_ssl_ed25519
  by (auto simp: executor_valid_def can_sign_def never_throws_def silent_runtime_def silent_executor_def)

theorem deadlines_bound_execution_witness:
  "\<exists>r w'. execute \<lparr>route_provider = routing_provider sample_provider,
      attempt_executor = executor_call silent_runtime silent_executor, max_attempts = 8\<rparr> (job_to ''job-1'') no_sockets
        = Some (r, w') \<and> (r = Undefined \<or> (\<exists>oc. r = Return oc))"
proof (rule deadlines_bound_execution [OF _ _ _ _ _ _ _ sample_provider_ok [unfolded sample_provider_def] silent_executor_valid])
  show "executor_new (Some 7) (Some (endpoint_resolver silent_executor)) (Some (public_key_resolver silent_executor)) 1500 3000
      = Return silent_executor"
    by (simp add: executor_new_def silent_executor_def)
  show "options_view (system silent_runtime) (\<lambda>w. w)" "deadlines_kept (system silent_runtime) (\<lambda>w. w) (\<lambda>w. 0)"
    using silent_os_options silent_os_deadlines by (simp_all add: silent_runtime_def)
  show "JobRequest.request_id (job_to ''job-1'') \<noteq> []" by (simp add: job_to_def)
  show "engine_new (Some (routing_provider (provider_new first_router [''node-b'', ''node-c'']))) (Some (executor_call silent_runtime silent_executor)) 8
      = Return \<lparr>route_provider = routing_provider sample_provider,
          attempt_executor = executor_call silent_runtime silent_executor, max_attempts = 8\<rparr>"
    by (simp add: engine_new_def sample_provider_def)
qed (simp_all add: silent_executor_def)

end
