(* ===== verification/Attempt_Verdict.thy ===== *)
theory Attempt_Verdict
  imports Deadlines
begin

text \<open>
  What an attempt makes of the message it receives, and what it puts on the wire.  The verdict on a message
  is a function of its bytes, the request and the keys of the nodes; the code reaches it by dispatching on
  the envelope type first, the specification by asking which parser accepts the message.  A message whose
  time stamp overflows is a verdict of its own: the parser has no defined behaviour on it.
\<close>

section \<open>The verdict on an answer\<close>

datatype verdict = Result_Accepted JobResult | Failure_Accepted FailureNotice | Rejected string | Overflow

definition result_contract :: "JobRequest \<Rightarrow> string \<Rightarrow> JobResult \<Rightarrow> bool" where
  "result_contract q target r \<longleftrightarrow>
     JobResult.request_id r = JobRequest.request_id q \<and> responder_node_id r = target \<and>
     recipient_node_id r = sender_node_id q \<and> status r = ''OK''"

definition failure_contract :: "JobRequest \<Rightarrow> string \<Rightarrow> FailureNotice \<Rightarrow> bool" where
  "failure_contract q target n \<longleftrightarrow>
     FailureNotice.request_id n = JobRequest.request_id q \<and> failed_node_id n = target \<and> reporting_node_id n \<noteq> []"

definition verdict_on :: "('k, 'c) openssl \<Rightarrow> (string \<Rightarrow> 'k option) \<Rightarrow> JobRequest \<Rightarrow> string \<Rightarrow> string \<Rightarrow> verdict" where
  "verdict_on ssl key_of q target json =
     (case parse_job_result_envelope_json json of
        Return r \<Rightarrow>
          if \<not> result_contract q target r then Rejected ''invalid_result_contract''
          else if verify_job_result ssl r (key_of target) \<noteq> Return True then Rejected ''invalid_result_signature''
          else Result_Accepted r
      | Undefined \<Rightarrow> Overflow
      | Throw e \<Rightarrow>
     (case parse_failure_notice_envelope_json json of
        Return n \<Rightarrow>
          if \<not> failure_contract q target n then Rejected ''invalid_failure_contract''
          else if verify_failure_notice ssl n (key_of (reporting_node_id n)) \<noteq> Return True
          then Rejected ''invalid_failure_signature''
          else Failure_Accepted n
      | Undefined \<Rightarrow> Overflow
      | Throw e \<Rightarrow>
          if \<exists>ty. wire_envelope_type json = Return ty \<and> ty \<notin> {''JOB_RESULT'', ''FAILURE_NOTICE''}
          then Rejected ''unsupported_response_type'' else Rejected ''transport_unavailable''))"

text \<open>The response that carries a verdict to the engine; a rejection is a failure notice signed locally.\<close>

fun carries ::
    "('w, 'k, 'c) runtime \<Rightarrow> ('w, 'k) AuthenticatedTcpAttemptExecutor \<Rightarrow> JobRequest \<Rightarrow> string \<Rightarrow> verdict \<Rightarrow>
       AttemptResponse \<Rightarrow> bool" where
  "carries rt ex q target (Result_Accepted r) response \<longleftrightarrow>
     response = \<lparr>AttemptResponse.result = Some r, failure = None\<rparr>"
| "carries rt ex q target (Failure_Accepted n) response \<longleftrightarrow>
     response = \<lparr>AttemptResponse.result = None, failure = Some n\<rparr>"
| "carries rt ex q target (Rejected why) response \<longleftrightarrow> local_evidence rt ex q target why response"
| "carries rt ex q target Overflow response \<longleftrightarrow> False"

text \<open>
  What the dispatch within the \<open>try\<close> block gives: a response, an exception for the transport to report, or no
  defined behaviour.
\<close>

definition decided ::
    "('w, 'k, 'c) runtime \<Rightarrow> ('w, 'k) AuthenticatedTcpAttemptExecutor \<Rightarrow> JobRequest \<Rightarrow> string \<Rightarrow> verdict \<Rightarrow>
       AttemptResponse outcome \<Rightarrow> 'w \<Rightarrow> bool" where
  "decided rt ex q target v x w' \<longleftrightarrow>
     (case x of Return response \<Rightarrow> carries rt ex q target v response
      | Throw e \<Rightarrow> v = Rejected ''transport_unavailable'' | Undefined \<Rightarrow> v = Overflow)"

lemma local_failure_ensures:
  "can_sign rt ex \<Longrightarrow> io_ensures (local_failure rt ex q target why) w (decided rt ex q target (Rejected why))"
  using local_failure_returns [of rt ex q target why w] by (auto simp: io_ensures_def decided_def)

lemma ending_ensures:
  "io_ensures (\<lambda>w. Some (Return x, w)) w (decided rt ex q target v) \<longleftrightarrow> carries rt ex q target v x"
  "io_ensures (\<lambda>w. Some (Throw e, w)) w (decided rt ex q target v) \<longleftrightarrow> v = Rejected ''transport_unavailable''"
  "io_ensures (\<lambda>w. Some (Undefined, w)) w (decided rt ex q target v) \<longleftrightarrow> v = Overflow"
  by (simp_all add: io_ensures_def decided_def)

lemma accept_remote_result_decided:
  assumes "can_sign rt ex" and "evp_decode_bounded (crypto rt)" and "\<And>n. public_key_resolver ex n = io_return (key_of n)"
    and "parse_job_result_envelope_json json = Return r"
  shows "io_ensures (accept_remote_result rt ex q target json) w
    (decided rt ex q target (verdict_on (crypto rt) key_of q target json))"
proof (cases "result_contract q target r")
  case True
  obtain b where b: "verify_job_result (crypto rt) r (key_of target) = Return b"
    using result_auth.verify_total [OF assms(2)] by blast
  from True show ?thesis
    using local_failure_ensures [OF assms(1)]
    by (cases b)
      (simp_all add: accept_remote_result_def assms(3,4) verdict_on_def b result_contract_def ending_ensures)
next
  case False
  then show ?thesis
    using local_failure_ensures [OF assms(1)]
    by (auto simp: accept_remote_result_def assms(4) verdict_on_def result_contract_def)
qed

lemma accept_remote_failure_decided:
  assumes "can_sign rt ex" and "evp_decode_bounded (crypto rt)" and "\<And>n. public_key_resolver ex n = io_return (key_of n)"
    and "parse_failure_notice_envelope_json json = Return n" and "parse_job_result_envelope_json json = Throw e"
  shows "io_ensures (accept_remote_failure rt ex q target json) w
    (decided rt ex q target (verdict_on (crypto rt) key_of q target json))"
proof -
  have v: "verdict_on (crypto rt) key_of q target json =
      (if \<not> failure_contract q target n then Rejected ''invalid_failure_contract''
       else if verify_failure_notice (crypto rt) n (key_of (reporting_node_id n)) \<noteq> Return True
       then Rejected ''invalid_failure_signature'' else Failure_Accepted n)"
    using assms(4,5) by (simp add: verdict_on_def)
  show ?thesis
  proof (cases "failure_contract q target n")
    case True
    obtain b where b: "verify_failure_notice (crypto rt) n (key_of (reporting_node_id n)) = Return b"
      using failure_auth.verify_total [OF assms(2)] by blast
    from True show ?thesis
      using local_failure_ensures [OF assms(1)]
      by (cases b) (simp_all add: accept_remote_failure_def assms(3,4) v b failure_contract_def ending_ensures)
  next
    case False
    then show ?thesis
      using local_failure_ensures [OF assms(1)]
      by (auto simp: accept_remote_failure_def assms(4) v failure_contract_def)
  qed
qed

text \<open>The parsers agree with the dispatch on the envelope type.\<close>

lemma parse_split:
  "wire_envelope_type json = Throw e \<Longrightarrow> parse_job_result_envelope_json json = Throw e"
  "wire_envelope_type json = Undefined \<Longrightarrow> parse_job_result_envelope_json json = Undefined"
  "wire_envelope_type json = Throw e \<Longrightarrow> parse_failure_notice_envelope_json json = Throw e"
  by (cases "split_envelope json"; force simp: parse_job_result_refines parse_failure_notice_refines spec_parse_def
      wire_envelope_type_def)+

lemma parse_other_type:
  "wire_envelope_type json = Return ty \<Longrightarrow> ty \<noteq> ''JOB_RESULT'' \<Longrightarrow> \<exists>e. parse_job_result_envelope_json json = Throw e"
  "wire_envelope_type json = Return ty \<Longrightarrow> ty \<noteq> ''FAILURE_NOTICE'' \<Longrightarrow> \<exists>e. parse_failure_notice_envelope_json json = Throw e"
  by (cases "split_envelope json"; force simp: parse_job_result_refines parse_failure_notice_refines spec_parse_def
      wire_envelope_type_def)+

lemma accept_remote_decided:
  assumes "can_sign rt ex" and "evp_decode_bounded (crypto rt)" and "\<And>n. public_key_resolver ex n = io_return (key_of n)"
  shows "io_ensures (accept_remote rt ex q target json) w
    (decided rt ex q target (verdict_on (crypto rt) key_of q target json))"
proof (cases "wire_envelope_type json")
  case (Return ty)
  consider (Result) "ty = ''JOB_RESULT''" | (Failure) "ty = ''FAILURE_NOTICE''" | (Neither) "ty \<notin> {''JOB_RESULT'', ''FAILURE_NOTICE''}"
    by blast
  then show ?thesis
  proof cases
    case Result
    then obtain e where e: "parse_failure_notice_envelope_json json = Throw e" using parse_other_type(2) [OF Return] by auto
    show ?thesis
      using accept_remote_result_decided [OF assms(1-3), of json] Result
      by (cases "parse_job_result_envelope_json json")
        (simp_all add: accept_remote_def Return accept_remote_result_def ending_ensures verdict_on_def e)
  next
    case Failure
    then obtain e where e: "parse_job_result_envelope_json json = Throw e" using parse_other_type(1) [OF Return] by auto
    show ?thesis
      using accept_remote_failure_decided [OF assms(1-3) _ e] Failure
      by (cases "parse_failure_notice_envelope_json json")
        (simp_all add: accept_remote_def Return accept_remote_failure_def ending_ensures verdict_on_def e)
  next
    case Neither
    then obtain e e' where "parse_job_result_envelope_json json = Throw e" "parse_failure_notice_envelope_json json = Throw e'"
      using parse_other_type [OF Return] by auto
    then show ?thesis
      using local_failure_ensures [OF assms(1)] Neither by (simp add: accept_remote_def Return verdict_on_def)
  qed
qed (simp_all add: accept_remote_def decided_def parse_split verdict_on_def)

text \<open>
  Claim C17. The decision on an answer: a connected attempt that has received a message comes back with exactly
  the evidence the verdict prescribes.  A result is accepted exactly when it parses, answers this request from
  the target to the sender with status \<open>OK\<close> and verifies under the key of the target; a failure notice when
  it is about this request and this target and verifies under the key of the node that reports it.  A message
  on which the parser of its type overflows takes the attempt into undefined behaviour; every other message
  becomes a local failure notice with the reason of the first condition it violates.
\<close>

theorem attempt_decides_answer:
  assumes "connected rt ex q w sq h w1" and "can_sign rt ex" and "evp_decode_bounded (crypto rt)"
    and "\<And>n. public_key_resolver ex n = io_return (key_of n)"
    and "io_bind (send_framed_json (system rt) (fd h) (job_request_envelope_json sq))
           (\<lambda>_. recv_framed_json (system rt) (fd h)) w1 = Some (Return json, w2)"
  shows "\<exists>x w'. executor_call rt ex q (target_node_id q) w = Some (x, w') \<and>
    (if verdict_on (crypto rt) key_of q (target_node_id q) json = Overflow then x = Undefined
     else \<exists>response. x = Return response \<and>
       carries rt ex q (target_node_id q) (verdict_on (crypto rt) key_of q (target_node_id q) json) response)"
proof -
  let ?v = "verdict_on (crypto rt) key_of q (target_node_id q) json"
  obtain x w3 where x: "accept_remote rt ex q (target_node_id q) json w2 = Some (x, w3)"
      "decided rt ex q (target_node_id q) ?v x w3"
    using accept_remote_decided [OF assms(2-4)] unfolding io_ensures_def by blast
  have "talk rt ex q sq h w1 = Some (x, w3)"
    using assms(5) x(1) by (auto simp: io_bind_eq_Return io_bind_simps)
  note call = connected_call [OF assms(1), unfolded this]
  show ?thesis
  proof (cases x)
    case (Return response)
    then show ?thesis using call x(2) by (cases ?v) (simp_all add: decided_def)
  next
    case (Throw e)
    then show ?thesis
      using call x(2) local_failure_returns [OF assms(2), of q "target_node_id q" "''transport_unavailable''"]
      by (fastforce simp: decided_def)
  next
    case Undefined
    then show ?thesis using call x(2) by (simp add: decided_def)
  qed
qed

text \<open>A peer that answers with a single byte: no envelope, so the attempt reports the transport.\<close>

lemma short_message:
  "parse_job_result_envelope_json ''x'' = Throw (Invalid_Argument ''invalid MA2A envelope'')"
  "parse_failure_notice_envelope_json ''x'' = Throw (Invalid_Argument ''invalid MA2A envelope'')"
  "wire_envelope_type ''x'' = Throw (Invalid_Argument ''invalid MA2A envelope'')"
  by (simp_all add: parse_job_result_refines parse_failure_notice_refines spec_parse_def wire_envelope_type_def
      split_envelope_def envelope_prefix_def)

lemma open_runtime_setup:
  "\<exists>sq bs. connected open_runtime sample_executor (job_at ''node-b'') (sample_net input) sq \<lparr>fd = 7\<rparr>
       ((sample_net input)\<lparr>net_open := {7}\<rparr>) \<and> encode_frame (job_request_envelope_json sq) = Return bs"
proof -
  let ?q = "job_at ''node-b''"
  obtain t where t: "length t = 88" and sq: "sign_job_request (crypto open_runtime) ?q (local_private_key sample_executor)
      = Return (?q\<lparr>JobRequest.signature_algorithm := ''Ed25519'', JobRequest.signature := t\<rparr>)"
    using sign_request [OF open_runtime_can_sign, of ?q] by blast
  show ?thesis
    using open_runtime_connected [OF sq] sample_sizes(1) [OF t]
    by (force simp: encode_frame_def Let_def kMaxFrameBytes_def job_request_envelope_json_def)
qed

theorem attempt_decides_answer_witness:
  "\<exists>response w'. executor_call open_runtime sample_executor (job_at ''node-b'') ''node-b'' (sample_net [0, 0, 0, 1, 120])
      = Some (Return response, w') \<and>
    local_evidence open_runtime sample_executor (job_at ''node-b'') ''node-b'' ''transport_unavailable'' response"
proof -
  let ?q = "job_at ''node-b''" and ?w1 = "(sample_net [0, 0, 0, 1, 120])\<lparr>net_open := {7}\<rparr>"
  obtain sq bs where sq: "connected open_runtime sample_executor ?q (sample_net [0, 0, 0, 1, 120]) sq \<lparr>fd = 7\<rparr> ?w1"
    and bs: "encode_frame (job_request_envelope_json sq) = Return bs"
    using open_runtime_setup by blast
  have x: "encode_frame ''x'' = Return [0, 0, 0, 1, 120]"
    by (simp add: encode_frame_def size_bytes_def kMaxFrameBytes_def byte_of_char_def)
  obtain w2 w3 where run: "send_framed_json (system open_runtime) 7 (job_request_envelope_json sq) ?w1 = Some (Return (), w2)"
      "recv_framed_json (system open_runtime) 7 w2 = Some (Return ''x'', w3)"
    using messages_exchanged [OF open_runtime_streams bs x, where w = ?w1 and rest = "[]" and s = 7]
    by (auto simp: sample_net_def)
  have node: "target_node_id ?q = ''node-b''" by (simp add: job_at_def)
  let ?v = "verdict_on (crypto open_runtime) (\<lambda>n. Some 7) ?q (target_node_id ?q) ''x''"
  have "\<exists>x w'. executor_call open_runtime sample_executor ?q (target_node_id ?q) (sample_net [0, 0, 0, 1, 120]) = Some (x, w') \<and>
      (if ?v = Overflow then x = Undefined
       else \<exists>response. x = Return response \<and> carries open_runtime sample_executor ?q (target_node_id ?q) ?v response)"
  proof (rule attempt_decides_answer [OF sq open_runtime_can_sign])
    show "evp_decode_bounded (crypto open_runtime)"
      using sample_ssl_bounded by (simp add: open_runtime_def sample_runtime_def)
    show "io_bind (send_framed_json (system open_runtime) (fd \<lparr>fd = 7\<rparr>) (job_request_envelope_json sq))
        (\<lambda>_. recv_framed_json (system open_runtime) (fd \<lparr>fd = 7\<rparr>)) ?w1 = Some (Return ''x'', w3)"
      using run by (simp add: io_bind_simps)
  qed (simp add: sample_executor_def)
  then show ?thesis by (auto simp add: node verdict_on_def short_message)
qed

section \<open>The request on the wire\<close>

text \<open>Nothing but \<open>send\<close> puts bytes on the stream.\<close>

definition only_send_writes ::
    "('w \<Rightarrow> byte list) \<Rightarrow> ('w, 'k, 'c) runtime \<Rightarrow> ('w, 'k) AuthenticatedTcpAttemptExecutor \<Rightarrow> bool" where
  "only_send_writes outgoing rt ex \<longleftrightarrow>
     clock_keeps outgoing rt \<and> (\<forall>n. keeps outgoing (public_key_resolver ex n)) \<and>
     (\<forall>s k. keeps outgoing (sys_call (sys_recv (system rt) s k))) \<and>
     (\<forall>s w. outgoing (sys_close (system rt) s w) = outgoing w)"

lemma only_send_writesD:
  assumes "only_send_writes outgoing rt ex"
  shows "clock_keeps outgoing rt" "\<And>n. keeps outgoing (public_key_resolver ex n)"
    "\<And>s k. keeps outgoing (sys_call (sys_recv (system rt) s k))"
    "outgoing (sys_close (system rt) s w) = outgoing w"
  using assms by (simp_all add: only_send_writes_def)

lemma talk_sends:
  assumes "stream_out (system rt) (fd h) outgoing" and "only_send_writes outgoing rt ex"
    and "encode_frame (job_request_envelope_json sq) = Return frame"
  shows "io_spec (talk rt ex q sq h) w (\<lambda>x w'. \<exists>k. outgoing w' = outgoing w @ take k frame \<and>
    (\<forall>y. x = Return y \<longrightarrow> k = length frame))"
proof -
  have rest: "keeps outgoing (io_bind (recv_framed_json (system rt) (fd h)) (accept_remote rt ex q (target_node_id q)))"
    unfolding recv_framed_json_def recv_exact_def recv_round_def
    by (intro keeps_intros accept_remote_keeps only_send_writesD [OF assms(2)])
  have "io_spec (io_bind (recv_framed_json (system rt) (fd h)) (accept_remote rt ex q (target_node_id q))) w1
      (\<lambda>x w'. \<exists>k. outgoing w' = outgoing w @ take k frame \<and> (\<forall>y. x = Return y \<longrightarrow> k = length frame))"
    if "outgoing w1 = outgoing w @ frame" for w1
    using keeps_spec [OF rest] by (rule io_spec_mono) (use that in \<open>auto intro: exI [of _ "length frame"]\<close>)
  then show ?thesis
    unfolding send_framed_json_def assms(3) io_bind_outcome io_spec_bind [of "send_all _ _ _"]
    by (intro io_spec_mono [OF send_all_spec [OF assms(1)]]) (auto split: outcome.splits)
qed

lemma local_failure_no_result:
  "io_spec (local_failure rt ex q target why) w (\<lambda>r w'. \<forall>response. r = Return response \<longrightarrow> AttemptResponse.result response = None)"
  unfolding local_failure_def read_clock_def by (auto simp: io_spec_def io_bind_eq_Some)

lemma signed_request_verifies:
  assumes "evp_base64 ssl" and "evp_ed25519 ssl private_key public_key" and "sign_job_request ssl q (Some private_key) = Return sq"
  shows "sq = q\<lparr>JobRequest.signature_algorithm := ''Ed25519'', JobRequest.signature := JobRequest.signature sq\<rparr> \<and>
    (\<exists>s. base64url_decode ssl (JobRequest.signature sq) = Return s \<and>
       ed25519_verify ssl (Some public_key) (canonical_job_request_json sq) s = Return True)"
proof -
  let ?q = "q\<lparr>JobRequest.signature_algorithm := ''Ed25519'', JobRequest.signature := []\<rparr>"
  obtain s where s: "length s = 64" "ed25519_sign ssl (Some private_key) (canonical_job_request_json ?q) = Return s"
      "ed25519_verify ssl (Some public_key) (canonical_job_request_json ?q) s = Return True"
    using ed25519_sign_verify [OF assms(2)] by blast
  obtain t where "sign_job_request ssl q (Some private_key)
      = Return (q\<lparr>JobRequest.signature_algorithm := ''Ed25519'', JobRequest.signature := t\<rparr>)"
      "base64url_decode ssl t = Return s"
    using request_sig.sign_signature [OF assms(1) s(2,1)] by blast
  then show ?thesis using s(3) assms(3) by (auto simp: canonical_job_request_json_def)
qed

lemma attempt_bytes:
  assumes "connected rt ex q w sq h w1" and "stream_out (system rt) (fd h) outgoing" and "only_send_writes outgoing rt ex"
    and "encode_frame (job_request_envelope_json sq) = Return frame"
    and "executor_call rt ex q (target_node_id q) w = Some (r, w')"
  shows "\<exists>k. outgoing w' = outgoing w1 @ take k frame \<and>
    (\<forall>response. r = Return response \<and> AttemptResponse.result response \<noteq> None \<longrightarrow> k = length frame)"
proof -
  have closed: "outgoing (SocketHandle_destroy (system rt) h w2) = outgoing w2" for w2
    by (simp add: SocketHandle_destroy_def only_send_writesD(4) [OF assms(3)])
  obtain x w2 where x: "talk rt ex q sq h w1 = Some (x, w2)"
    using assms(5) connected_call [OF assms(1)] by (cases "talk rt ex q sq h w1") auto
  obtain k where k: "outgoing w2 = outgoing w1 @ take k frame" "\<And>y. x = Return y \<Longrightarrow> k = length frame"
    using io_specD [OF talk_sends [OF assms(2-4)] x] by blast
  note call = assms(5) [unfolded connected_call [OF assms(1)] x]
  show ?thesis
  proof (cases x)
    case (Return response)
    then show ?thesis using call k closed by (auto intro!: exI [of _ k])
  next
    case (Throw e)
    then have loc: "local_failure rt ex q (target_node_id q) ''transport_unavailable'' (SocketHandle_destroy (system rt) h w2)
        = Some (r, w')"
      using call by simp
    have "outgoing w' = outgoing w2"
      using local_failure_keeps [OF only_send_writesD(1) [OF assms(3)]] loc closed unfolding keeps_def by metis
    then show ?thesis using k(1) io_specD [OF local_failure_no_result loc] by auto
  next
    case Undefined
    then show ?thesis using call k(1) by auto
  qed
qed

text \<open>
  Claim C18. Every attempt sends its own signed request.  Whatever happens after the connection is made, the bytes
  the attempt has put on the stream are a first part of one frame, and the whole of it when a result is
  accepted: the frame of the request for this very target, equal to the given one in every field but the
  signature and its algorithm, whose signature is valid for its canonical payload under the public key of
  the local node.
\<close>

theorem attempt_sends_signed_request:
  assumes "connected rt ex q w sq h w1" and "evp_base64 (crypto rt)" and "local_private_key ex = Some private_key"
    and "evp_ed25519 (crypto rt) private_key public_key"
    and "stream_out (system rt) (fd h) outgoing" and "only_send_writes outgoing rt ex"
    and "encode_frame (job_request_envelope_json sq) = Return frame"
    and "executor_call rt ex q (target_node_id q) w = Some (r, w')"
  shows "(\<exists>k. outgoing w' = outgoing w1 @ take k frame \<and>
      (\<forall>response. r = Return response \<and> AttemptResponse.result response \<noteq> None \<longrightarrow> k = length frame)) \<and>
    sq = q\<lparr>JobRequest.signature_algorithm := ''Ed25519'', JobRequest.signature := JobRequest.signature sq\<rparr> \<and>
    (\<exists>s. base64url_decode (crypto rt) (JobRequest.signature sq) = Return s \<and>
       ed25519_verify (crypto rt) (Some public_key) (canonical_job_request_json sq) s = Return True)"
proof -
  have "sign_job_request (crypto rt) q (Some private_key) = Return sq"
    using assms(1,3) by (simp add: connected_def)
  then show ?thesis
    using attempt_bytes [OF assms(1,5-8)] signed_request_verifies [OF assms(2,4)] by blast
qed

lemma connected_returns:
  assumes "connected rt ex q w sq h w1" and "stream_out (system rt) (fd h) outgoing" and "progress_out (system rt) (fd h) pending"
    and "stream_in (system rt) (fd h) incoming" and "progress_in (system rt) (fd h) incoming pending'"
    and "\<And>n. returns (public_key_resolver ex n)"
  shows "\<exists>r w'. executor_call rt ex q (target_node_id q) w = Some (r, w')"
proof -
  have "io_ensures (send_all (system rt) (fd h) bs) w2 (on_return (\<lambda>r w'. True))" for bs w2
    using send_all_ensures [OF assms(2,3)] by (rule io_ensures_mono) (simp add: on_return_def)
  then have send: "io_ensures (send_framed_json (system rt) (fd h) json) w2 (on_return (\<lambda>r w'. True))" for json w2
    unfolding send_framed_json_def by (intro ensures_then [OF ensures_outcome])
  have recv: "io_ensures (recv_framed_json (system rt) (fd h)) w2 (on_return (\<lambda>r w'. True))" for w2
    using recv_framed_json_ensures [OF assms(4,5)] by (rule io_ensures_mono) (simp add: on_return_def)
  have "io_ensures (talk rt ex q sq h) w1 (on_return (\<lambda>r w'. True))"
    by (intro ensures_then [OF send] ensures_then [OF recv]
        ensures_returns accept_remote_returns assms(6))
  then obtain x w2 where "talk rt ex q sq h w1 = Some (x, w2)" by (auto simp: io_ensures_def)
  then show ?thesis
    using connected_call [OF assms(1)] local_failure_comes_back [of rt ex q "target_node_id q" "''transport_unavailable''"]
    by (cases x) (fastforce simp: returns_def)+
qed

lemma open_runtime_only_send_writes: "only_send_writes net_out open_runtime sample_executor"
  by (auto simp: only_send_writes_def clock_keeps_def open_runtime_def sample_runtime_def sample_executor_def sample_os_def
      keeps_outcome intro!: keeps_sys_call split: if_splits)

theorem attempt_sends_signed_request_witness:
  "\<exists>sq frame r w'. executor_call open_runtime sample_executor (job_at ''node-b'') ''node-b'' (sample_net []) = Some (r, w') \<and>
     encode_frame (job_request_envelope_json sq) = Return frame \<and> (\<exists>k. net_out w' = take k frame) \<and>
     (\<exists>s. ed25519_verify sample_ssl (Some 7) (canonical_job_request_json sq) s = Return True)"
proof -
  let ?q = "job_at ''node-b''"
  obtain sq bs where sq: "connected open_runtime sample_executor ?q (sample_net []) sq \<lparr>fd = 7\<rparr> ((sample_net [])\<lparr>net_open := {7}\<rparr>)"
    and bs: "encode_frame (job_request_envelope_json sq) = Return bs"
    using open_runtime_setup by blast
  obtain r w' where run: "executor_call open_runtime sample_executor ?q (target_node_id ?q) (sample_net []) = Some (r, w')"
    using connected_returns [OF sq open_runtime_streams(1-4)] by (fastforce simp: sample_executor_def)
  have ssl: "crypto open_runtime = sample_ssl" by (simp add: open_runtime_def sample_runtime_def)
  have key: "local_private_key sample_executor = Some 7" by (simp add: sample_executor_def)
  have base64: "evp_base64 (crypto open_runtime)" and ed: "evp_ed25519 (crypto open_runtime) 7 7"
    by (simp_all only: ssl sample_ssl_base64 sample_ssl_ed25519)
  show ?thesis
    using attempt_sends_signed_request [OF sq base64 key ed open_runtime_streams(1)
        open_runtime_only_send_writes bs run] run bs
    by (fastforce simp: job_at_def sample_net_def ssl)
qed

end
