(* ===== verification/Accountability.thy ===== *)
theory Accountability
  imports Attempt_Verdict
begin

text \<open>
  Who answers for the outcome of an execution.  A result that completes one was issued by the node of the last
  attempt; a node that is excluded was reported by a notice that the local node signed or that its reporter
  issued.  The keys the resolver gives are taken to accept only what their owners signed.
\<close>

section \<open>The reasons of an exclusion\<close>

definition blames :: "'w AttemptExecutor \<Rightarrow> (JobRequest \<Rightarrow> string \<Rightarrow> FailureNotice \<Rightarrow> bool) \<Rightarrow> bool" where
  "blames executor F \<longleftrightarrow>
     (\<forall>q node w n r w'. node \<noteq> [] \<and> target_node_id q = node \<and>
        executor q node w = Some (Return \<lparr>AttemptResponse.result = r, failure = Some n\<rparr>, w') \<longrightarrow> F q node n)"

text \<open>The failures in the trace of a run are ones the executor answers for.\<close>

lemma attempts_blamed:
  assumes "attempts_made eng q start w0 log lc w" and "blames (attempt_executor eng) F"
    and "(node, response) \<in> set log" and "failure response = Some n"
  shows "F (q\<lparr>target_node_id := node\<rparr>) node n"
  using assms(1,3)
proof (induction rule: attempts_made.induct)
  case (attempt log lc w node' w1 lc1 response' w2 lc2)
  show ?case
  proof (cases "(node, response) \<in> set log")
    case False
    then have same: "node' = node" "response' = response" using attempt.prems by auto
    then have "attempt_executor eng (q\<lparr>target_node_id := node\<rparr>) node w1
        = Some (Return \<lparr>AttemptResponse.result = AttemptResponse.result response, failure = Some n\<rparr>, w2)"
      using attempt(7) assms(4) by simp
    moreover have "node \<noteq> []" using attempt(6) same by (simp add: lifecycle_step_Return)
    ultimately show ?thesis
      using assms(2) [unfolded blames_def, rule_format, of node "q\<lparr>target_node_id := node\<rparr>" w1] by simp
  qed (rule attempt.IH)
qed simp

text \<open>Executors that answer for failures too.\<close>

locale accountable_source = evidence_source exec exec_ok vouched
  for exec :: "'x \<Rightarrow> 'w AttemptExecutor" and exec_ok vouched +
  fixes blamed :: "'x \<Rightarrow> JobRequest \<Rightarrow> string \<Rightarrow> FailureNotice \<Rightarrow> bool"
  assumes blamed: "exec_ok x \<Longrightarrow> blames (exec x) (blamed x)"
begin

lemma outcome_accounted:
  assumes "exec_ok x" and "execute \<lparr>route_provider = p, attempt_executor = exec x, max_attempts = k\<rparr> q w = Some (Return oc, w')"
  obtains start log lc w1 where "orchestrator_new (JobRequest.request_id q) k = Return start"
    "attempts_made \<lparr>route_provider = p, attempt_executor = exec x, max_attempts = k\<rparr> q start w log lc w1"
    "ResilientExecutionOutcome.state oc = ExecutionFailoverOrchestrator.state lc"
    "map fst log = map node_id (attempts (ResilientExecutionOutcome.state oc))"
    "excluded_nodes (ResilientExecutionOutcome.state oc) = set (map fst (filter (\<lambda>(node, response). failure response \<noteq> None) log))"
    "\<And>node response n. (node, response) \<in> set log \<Longrightarrow> failure response = Some n \<Longrightarrow> blamed x (q\<lparr>target_node_id := node\<rparr>) node n"
proof (rule execute_attempts [OF assms(2)])
  let ?e = "\<lparr>route_provider = p, attempt_executor = exec x, max_attempts = k\<rparr>"
  fix start log lc w1
  assume run: "orchestrator_new (JobRequest.request_id q) (ResilientExecutionEngine.max_attempts ?e) = Return start"
    "attempts_made ?e q start w log lc w1" "ResilientExecutionOutcome.state oc = ExecutionFailoverOrchestrator.state lc"
  have "blames (attempt_executor ?e) (blamed x)" using blamed [OF assms(1)] by simp
  from attempts_blamed [OF run(2) this] show thesis
    using attempts_recorded [OF run(2)] orchestrator_new_fields [OF run(1)] run by (intro that) auto
qed

end

lemma executor_call_blames: "executor_valid rt ex \<Longrightarrow> blames (executor_call rt ex) (failure_backed rt ex)"
  using executor_call_backed [of rt ex] unfolding blames_def io_spec_def backed_def by fastforce

interpretation tcp_account: accountable_source "\<lambda>(rt, ex). executor_call rt ex" "\<lambda>(rt, ex). executor_valid rt ex"
  "\<lambda>(rt, ex). result_backed rt ex" "\<lambda>(rt, ex). failure_backed rt ex"
  by unfold_locales (auto intro: executor_call_blames)

section \<open>Issuers\<close>

text \<open>
  What each node has signed, and that the keys resolved for a node accept nothing else.
\<close>

record signed_by_node =
  signed_requests :: "JobRequest set"
  signed_results :: "JobResult set"
  signed_notices :: "FailureNotice set"

definition keys_of_owners ::
    "('w, 'k, 'c) runtime \<Rightarrow> ('w, 'k) AuthenticatedTcpAttemptExecutor \<Rightarrow> (string \<Rightarrow> signed_by_node) \<Rightarrow> bool" where
  "keys_of_owners rt ex by_node \<longleftrightarrow>
     (\<forall>node k w1 w2. public_key_resolver ex node w1 = Some (Return k, w2) \<longrightarrow>
        signs_only (crypto rt) k (signed_requests (by_node node)) (signed_results (by_node node))
          (signed_notices (by_node node)))"

lemma keys_of_ownersD:
  "keys_of_owners rt ex by_node \<Longrightarrow> public_key_resolver ex node w1 = Some (Return k, w2) \<Longrightarrow>
     signs_only (crypto rt) k (signed_requests (by_node node)) (signed_results (by_node node)) (signed_notices (by_node node))"
  unfolding keys_of_owners_def by blast

lemma result_backed_issued:
  assumes "keys_of_owners rt ex by_node" and "result_backed rt ex q target r"
  shows "\<exists>r' \<in> signed_results (by_node target). r\<lparr>JobResult.signature := []\<rparr> = r'\<lparr>JobResult.signature := []\<rparr>"
proof -
  obtain k w1 w2 where k: "public_key_resolver ex target w1 = Some (Return k, w2)" "verify_job_result (crypto rt) r k = Return True"
    using assms(2) by (auto simp: result_backed_def)
  show ?thesis by (rule result_issued [OF keys_of_ownersD [OF assms(1) k(1)] k(2)])
qed

lemma failure_backed_issued:
  assumes "keys_of_owners rt ex by_node" and "failure_backed rt ex q target n"
  shows "(\<exists>why now. sign_failure_notice (crypto rt) (unsigned_local_failure q target why now) (local_private_key ex) = Return n) \<or>
    (\<exists>n' \<in> signed_notices (by_node (reporting_node_id n)).
       n\<lparr>FailureNotice.signature := []\<rparr> = n'\<lparr>FailureNotice.signature := []\<rparr>)"
    (is "?local \<or> ?issued")
proof (cases ?local)
  case False
  then obtain k w1 w2 where k: "public_key_resolver ex (reporting_node_id n) w1 = Some (Return k, w2)"
      "verify_failure_notice (crypto rt) n k = Return True"
    using assms(2) by (auto simp: failure_backed_def)
  show ?thesis using failure_issued [OF keys_of_ownersD [OF assms(1) k(1)] k(2)] by blast
qed simp

section \<open>Properties\<close>

text \<open>
  Claim C1. A result that completes an execution over TCP was issued by the node of the last attempt: among the
  results that node has signed there is one for this very request, to its sender and with status \<open>OK\<close>, and
  the result of the execution equals it in every field but the signature.  No other node, and no message
  replayed from another request, can complete an execution.
\<close>

theorem completed_result_issued_by_node:
  assumes "executor_valid rt ex" and "keys_of_owners rt ex by_node"
    and "execute \<lparr>route_provider = p, attempt_executor = executor_call rt ex, max_attempts = k\<rparr> q w = Some (Return oc, w')"
    and "completed (ResilientExecutionOutcome.state oc)"
  shows "\<exists>before node r r'. attempts (ResilientExecutionOutcome.state oc) = before @ [\<lparr>node_id = node, outcome = ''OK''\<rparr>] \<and>
    ExecutionState.result (ResilientExecutionOutcome.state oc) = Some r \<and>
    r' \<in> signed_results (by_node node) \<and> r\<lparr>JobResult.signature := []\<rparr> = r'\<lparr>JobResult.signature := []\<rparr> \<and>
    JobResult.request_id r' = JobRequest.request_id q \<and> responder_node_id r' = node \<and>
    recipient_node_id r' = sender_node_id q \<and> status r' = ''OK''"
proof -
  obtain before node r where r: "attempts (ResilientExecutionOutcome.state oc) = before @ [\<lparr>node_id = node, outcome = ''OK''\<rparr>]"
      "ExecutionState.result (ResilientExecutionOutcome.state oc) = Some r"
      "result_backed rt ex (q\<lparr>target_node_id := node\<rparr>) node r"
    using tcp.completed_vouched [of "(rt, ex)" p k q w oc w'] assms(1,3,4) by (auto simp: completed_by_def)
  obtain r' where r': "r' \<in> signed_results (by_node node)" "r\<lparr>JobResult.signature := []\<rparr> = r'\<lparr>JobResult.signature := []\<rparr>"
    using result_backed_issued [OF assms(2) r(3)] by blast
  have "JobResult.request_id r' = JobResult.request_id r \<and> responder_node_id r' = responder_node_id r \<and>
      recipient_node_id r' = recipient_node_id r \<and> status r' = status r"
    using r'(2) by (cases r, cases r') simp
  then show ?thesis using r r' by (auto simp: result_backed_def)
qed

text \<open>
  Claim C14. Every exclusion is accounted for by the notice that caused it.  An execution over TCP leaves a trace: the
  attempts in their order, each with the response its own exchange brought.  The excluded nodes are exactly
  those whose response is a failure, and the notice in that very response is signed, is about this request and
  this node, and either carries the signature of the local node over a report of its own or is, in every field
  but the signature, a notice that the node it names as reporter has issued.
\<close>

theorem exclusions_accounted_for:
  assumes "executor_valid rt ex" and "keys_of_owners rt ex by_node"
    and "execute \<lparr>route_provider = p, attempt_executor = executor_call rt ex, max_attempts = k\<rparr> q w = Some (Return oc, w')"
  shows "\<exists>start log lc w1. orchestrator_new (JobRequest.request_id q) k = Return start \<and>
    attempts_made \<lparr>route_provider = p, attempt_executor = executor_call rt ex, max_attempts = k\<rparr> q start w log lc w1 \<and>
    ResilientExecutionOutcome.state oc = ExecutionFailoverOrchestrator.state lc \<and>
    map fst log = map node_id (attempts (ResilientExecutionOutcome.state oc)) \<and>
    excluded_nodes (ResilientExecutionOutcome.state oc) = set (map fst (filter (\<lambda>(node, response). failure response \<noteq> None) log)) \<and>
    (\<forall>node response n. (node, response) \<in> set log \<and> failure response = Some n \<longrightarrow>
       FailureNotice.request_id n = JobRequest.request_id q \<and> failed_node_id n = node \<and> FailureNotice.signature n \<noteq> [] \<and>
       ((\<exists>why now. sign_failure_notice (crypto rt) (unsigned_local_failure q node why now) (local_private_key ex) = Return n) \<or>
        (\<exists>n' \<in> signed_notices (by_node (reporting_node_id n)).
           n\<lparr>FailureNotice.signature := []\<rparr> = n'\<lparr>FailureNotice.signature := []\<rparr>)))"
proof -
  obtain start log lc w1 where run: "orchestrator_new (JobRequest.request_id q) k = Return start"
      "attempts_made \<lparr>route_provider = p, attempt_executor = executor_call rt ex, max_attempts = k\<rparr> q start w log lc w1"
      "ResilientExecutionOutcome.state oc = ExecutionFailoverOrchestrator.state lc"
      "map fst log = map node_id (attempts (ResilientExecutionOutcome.state oc))"
      "excluded_nodes (ResilientExecutionOutcome.state oc) = set (map fst (filter (\<lambda>(node, response). failure response \<noteq> None) log))"
    and backed: "\<And>node response n. (node, response) \<in> set log \<Longrightarrow> failure response = Some n \<Longrightarrow>
      failure_backed rt ex (q\<lparr>target_node_id := node\<rparr>) node n"
    by (rule tcp_account.outcome_accounted [of "(rt, ex)", unfolded prod.case, OF assms(1,3)]) blast
  have redirect: "unsigned_local_failure (q\<lparr>target_node_id := node\<rparr>) node why now = unsigned_local_failure q node why now" for node why now
    by (simp add: unsigned_local_failure_def)
  have "FailureNotice.request_id n = JobRequest.request_id q \<and> failed_node_id n = node \<and> FailureNotice.signature n \<noteq> [] \<and>
       ((\<exists>why now. sign_failure_notice (crypto rt) (unsigned_local_failure q node why now) (local_private_key ex) = Return n) \<or>
        (\<exists>n' \<in> signed_notices (by_node (reporting_node_id n)).
           n\<lparr>FailureNotice.signature := []\<rparr> = n'\<lparr>FailureNotice.signature := []\<rparr>))"
    if "(node, response) \<in> set log" "failure response = Some n" for node response n
    using failure_backed_issued [OF assms(2) backed [OF that]] backed [OF that] by (auto simp: failure_backed_def redirect)
  then show ?thesis using run by blast
qed

section \<open>An instance\<close>

text \<open>
  A verifier that, for the key of the other nodes, knows a single signed text: the answer of one node to one
  request.  The local key signs and verifies as before.
\<close>

definition ledger_ssl :: "(nat, nat option) openssl" where
  "ledger_ssl = sample_ssl\<lparr>EVP_DigestVerify := (\<lambda>ctx s m.
     if s = sample_signature (the ctx) m \<and> (ctx = Some 9 \<longrightarrow> m = bytes_of_string (canonical_job_result_json (answer_of [])))
     then 1 else 0)\<rparr>"

definition ledger_runtime :: "(net, nat, nat option) runtime" where
  "ledger_runtime = open_runtime\<lparr>crypto := ledger_ssl\<rparr>"

definition ledger_executor :: "(net, nat) AuthenticatedTcpAttemptExecutor" where
  "ledger_executor = sample_executor\<lparr>public_key_resolver := (\<lambda>n. io_return (Some 9))\<rparr>"

definition ledger :: "string \<Rightarrow> signed_by_node" where
  "ledger node = \<lparr>signed_requests = {}, signed_results = {answer_of []}, signed_notices = {}\<rparr>"

lemma ledger_ssl_valid: "evp_base64 ledger_ssl" "evp_ed25519 ledger_ssl 7 7"
  using sample_ssl_base64 sample_ssl_ed25519 [of 7]
  by (simp_all add: ledger_ssl_def evp_base64_def evp_ed25519_def sample_ssl_def)

lemma ledger_executor_valid: "executor_valid ledger_runtime ledger_executor"
  using ledger_ssl_valid
  by (auto simp: executor_valid_def can_sign_def never_throws_def ledger_runtime_def ledger_executor_def sample_executor_def)

lemma ledger_keys: "public_key_resolver ex = public_key_resolver ledger_executor \<Longrightarrow> keys_of_owners ledger_runtime ex ledger"
proof -
  assume k: "public_key_resolver ex = public_key_resolver ledger_executor"
  have "m = m'" if "bytes_of_string m = bytes_of_string m'" for m m'
    using that by (metis string_of_bytes_of_string)
  then have "signs_only ledger_ssl (Some 9) {} {answer_of []} {}"
    by (auto simp: signs_only_def evp_accepts_def ledger_ssl_def sample_ssl_def split: if_splits)
  then show ?thesis
    by (simp add: keys_of_owners_def k ledger_executor_def ledger_runtime_def ledger_def io_outcome_def)
qed

definition ledger_signature :: string where
  "ledger_signature = url_safe (base64 (sample_signature 9 (bytes_of_string (canonical_job_result_json (answer_of [])))))"

lemma answer_payload: "canonical_job_result_json (answer_of t) = canonical_job_result_json (answer_of [])"
  by (simp add: canonical_job_result_json_def answer_of_def)

lemma ledger_signature_length: "length ledger_signature = 88"
  by (simp add: ledger_signature_def url_safe_def replace_char_def length_base64 sample_signature_def)

lemma ledger_answer_verifies: "verify_job_result ledger_ssl (answer_of ledger_signature) (Some 9) = Return True"
proof -
  let ?s = "sample_signature 9 (bytes_of_string (canonical_job_result_json (answer_of [])))"
  have d: "base64url_decode ledger_ssl ledger_signature = Return ?s"
    unfolding ledger_signature_def by (rule base64url_decode_encoded [OF ledger_ssl_valid(1)]) (simp add: sample_signature_def)
  have "evp_accepts ledger_ssl (Some 9) m (sample_signature 9 (bytes_of_string m)) \<longleftrightarrow>
      m = canonical_job_result_json (answer_of [])" for m
    by (auto simp: evp_accepts_def ledger_ssl_def sample_ssl_def dest: arg_cong [of _ _ string_of_bytes])
  then have "ed25519_verify ledger_ssl (Some 9) (canonical_job_result_json (answer_of [])) ?s = Return True"
    by (simp add: ed25519_verify_eq_True)
  moreover have "JobResult.signature_algorithm (answer_of t) = ''Ed25519''" "JobResult.signature (answer_of t) = t" for t
    by (simp_all add: answer_of_def ok_result_def JobResult_default_def)
  moreover have "ledger_signature \<noteq> []" using ledger_signature_length by auto
  ultimately show ?thesis using d by (simp add: verify_job_result_def answer_payload [of ledger_signature])
qed

lemma ledger_call:
  "\<exists>bs w'. executor_call ledger_runtime ledger_executor (job_at ''node-b'') ''node-b'' (sample_net bs)
     = Some (Return \<lparr>AttemptResponse.result = Some (answer_of ledger_signature), failure = None\<rparr>, w')"
proof -
  let ?q = "job_at ''node-b''"
  have valid: "can_sign ledger_runtime ledger_executor" using ledger_executor_valid by (simp add: executor_valid_def)
  obtain t where t: "length t = 88" and sq: "sign_job_request (crypto ledger_runtime) ?q (local_private_key ledger_executor)
      = Return (?q\<lparr>JobRequest.signature_algorithm := ''Ed25519'', JobRequest.signature := t\<rparr>)"
    using sign_request [OF valid, of ?q] by blast
  let ?sq = "?q\<lparr>JobRequest.signature_algorithm := ''Ed25519'', JobRequest.signature := t\<rparr>"
  have con: "connected ledger_runtime ledger_executor ?q (sample_net bs) ?sq \<lparr>fd = 7\<rparr> ((sample_net bs)\<lparr>net_open := {7}\<rparr>)" for bs
    using sq
    by (simp add: connected_def job_at_def ledger_executor_def sample_executor_def ledger_runtime_def open_runtime_def
        sample_runtime_def connect_ipv4_with_timeout_def connect_socket_def set_socket_io_timeout_def ipv4_address_def
        sys_call_def io_bind_def unwind_handle_def sample_os_def sample_net_def Let_def)
  have sys: "system ledger_runtime = system open_runtime" by (simp add: ledger_runtime_def)
  obtain bs where bs: "encode_frame (job_result_envelope_json (answer_of ledger_signature)) = Return bs"
    using sample_sizes(2) [OF ledger_signature_length]
    by (simp add: encode_frame_def Let_def kMaxFrameBytes_def job_result_envelope_json_def)
  have node: "target_node_id ?q = ''node-b''" by (simp add: job_at_def)
  have "\<exists>w2. executor_call ledger_runtime ledger_executor ?q (target_node_id ?q) (sample_net bs) = Some (Return
      \<lparr>AttemptResponse.result = Some (answer_of ledger_signature), failure = None\<rparr>,
      SocketHandle_destroy (system ledger_runtime) \<lparr>fd = 7\<rparr> w2)"
  proof (rule attempt_returns_answer [OF con, where outgoing = net_out
        and incoming = net_in and pending = net_pending and rest = "[]" and k = "Some 9" and frame = bs])
    show "net_in ((sample_net bs)\<lparr>net_open := {7}\<rparr>) = bs @ []" by (simp add: sample_net_def)
    show "public_key_resolver ledger_executor (target_node_id ?q) = io_return (Some 9)"
      by (simp add: ledger_executor_def)
    show "verify_job_result (crypto ledger_runtime) (answer_of ledger_signature) (Some 9) = Return True"
      using ledger_answer_verifies by (simp add: ledger_runtime_def)
  qed (rule open_runtime_streams [folded sys] sample_sizes(1) [OF t] bs
    | simp add: answer_of_def ok_result_def JobResult_default_def job_at_def job_to_def)+
  then show ?thesis unfolding node by blast
qed

definition one_node :: "'w RouteProvider" where
  "one_node q excluded = io_return (if ''node-b'' \<in> excluded then None else Some ''node-b'')"

lemma single_attempt:
  assumes "executor (job_at ''node-b'') ''node-b'' w = Some (Return response, w')"
    and "evidence_ok (job_at ''node-b'') ''node-b'' response"
  shows "\<exists>oc. execute \<lparr>route_provider = one_node, attempt_executor = executor, max_attempts = 1\<rparr> (job_to ''job-1'') w
      = Some (Return oc, w') \<and>
    (if AttemptResponse.result response = None then excluded_nodes (ResilientExecutionOutcome.state oc) = {''node-b''}
     else completed (ResilientExecutionOutcome.state oc))"
proof -
  have job: "(job_to ''job-1'')\<lparr>target_node_id := ''node-b''\<rparr> = job_at ''node-b''" "JobRequest.request_id (job_to ''job-1'') = ''job-1''"
    "JobRequest.request_id (job_at ''node-b'') = ''job-1''"
    by (simp_all add: job_at_def job_to_def)
  show ?thesis
    using assms
    by (auto simp: execute_def execute_loop.simps orchestrator_new_def execute_round_def attempt_node_def one_node_def io_bind_def
        begin_attempt_def ensure_active_def Orchestrator.exhausted_def job evidence_ok_def accept_response_def
        accept_authenticated_result_def accept_authenticated_failure_def io_outcome_def Let_def split: option.splits)
qed

theorem completed_result_issued_by_node_witness:
  "\<exists>bs oc w' r. execute \<lparr>route_provider = one_node, attempt_executor = executor_call ledger_runtime ledger_executor,
       max_attempts = 1\<rparr> (job_to ''job-1'') (sample_net bs) = Some (Return oc, w') \<and>
     ExecutionState.result (ResilientExecutionOutcome.state oc) = Some r \<and>
     r\<lparr>JobResult.signature := []\<rparr> = answer_of []"
proof -
  let ?e = "\<lparr>route_provider = one_node, attempt_executor = executor_call ledger_runtime ledger_executor, max_attempts = 1\<rparr>"
  obtain bs w' where call: "executor_call ledger_runtime ledger_executor (job_at ''node-b'') ''node-b'' (sample_net bs)
     = Some (Return \<lparr>AttemptResponse.result = Some (answer_of ledger_signature), failure = None\<rparr>, w')"
    using ledger_call by blast
  have "evidence_ok (job_at ''node-b'') ''node-b'' \<lparr>AttemptResponse.result = Some (answer_of ledger_signature), failure = None\<rparr>"
    using ledger_signature_length
    by (auto simp: evidence_ok_def answer_of_def ok_result_def JobResult_default_def job_at_def job_to_def)
  from single_attempt [of "executor_call ledger_runtime ledger_executor", OF call this] obtain oc where run: "execute ?e (job_to ''job-1'') (sample_net bs) = Some (Return oc, w')"
      "completed (ResilientExecutionOutcome.state oc)"
    by auto
  show ?thesis
    using completed_result_issued_by_node [OF ledger_executor_valid ledger_keys run] run(1)
    by (auto simp: ledger_def answer_of_def)
qed

theorem exclusions_accounted_for_witness:
  "\<exists>oc w' start log lc w1 response n why now. execute \<lparr>route_provider = one_node, attempt_executor = executor_call ledger_runtime
       (ledger_executor\<lparr>endpoint_resolver := \<lambda>n. io_return None\<rparr>), max_attempts = 1\<rparr> (job_to ''job-1'') (sample_net [])
       = Some (Return oc, w') \<and> excluded_nodes (ResilientExecutionOutcome.state oc) = {''node-b''} \<and>
     attempts_made \<lparr>route_provider = one_node, attempt_executor = executor_call ledger_runtime
       (ledger_executor\<lparr>endpoint_resolver := \<lambda>n. io_return None\<rparr>), max_attempts = 1\<rparr> (job_to ''job-1'') start (sample_net []) log lc w1 \<and>
     (''node-b'', response) \<in> set log \<and> failure response = Some n \<and>
     sign_failure_notice ledger_ssl (unsigned_local_failure (job_to ''job-1'') ''node-b'' why now) (Some 7) = Return n"
proof -
  let ?ex = "ledger_executor\<lparr>endpoint_resolver := \<lambda>n. io_return None\<rparr>"
  let ?e = "\<lparr>route_provider = one_node, attempt_executor = executor_call ledger_runtime ?ex, max_attempts = 1\<rparr>"
  have valid: "executor_valid ledger_runtime ?ex"
    using ledger_executor_valid by (simp add: executor_valid_def can_sign_def never_throws_def)
  then obtain response w' where call: "executor_call ledger_runtime ?ex (job_at ''node-b'') ''node-b'' (sample_net [])
      = Some (Return response, w')" and loc: "local_evidence ledger_runtime ?ex (job_at ''node-b'') ''node-b'' ''endpoint_unavailable'' response"
    using local_failure_returns [of ledger_runtime ?ex "job_at ''node-b''" "''node-b''" "''endpoint_unavailable''" "sample_net []"]
    by (auto simp: executor_call_def job_at_def executor_valid_def)
  from single_attempt [of "executor_call ledger_runtime ?ex", OF call backed_evidence [OF local_evidence_backed [OF loc]]] loc
  obtain oc where run: "execute ?e (job_to ''job-1'') (sample_net []) = Some (Return oc, w')"
      "excluded_nodes (ResilientExecutionOutcome.state oc) = {''node-b''}"
    by (auto simp: local_evidence_def)
  have "keys_of_owners ledger_runtime ?ex ledger" by (rule ledger_keys) simp
  note account = exclusions_accounted_for [OF valid this run(1), unfolded run(2)]
  obtain start log lc w1 where trace: "attempts_made ?e (job_to ''job-1'') start (sample_net []) log lc w1"
      "{''node-b''} = set (map fst (filter (\<lambda>(node, response). failure response \<noteq> None) log))"
    and notices: "\<forall>node response n. (node, response) \<in> set log \<and> failure response = Some n \<longrightarrow>
      FailureNotice.request_id n = JobRequest.request_id (job_to ''job-1'') \<and> failed_node_id n = node \<and> FailureNotice.signature n \<noteq> [] \<and>
      ((\<exists>why now. sign_failure_notice (crypto ledger_runtime) (unsigned_local_failure (job_to ''job-1'') node why now)
         (local_private_key ?ex) = Return n) \<or>
       (\<exists>n' \<in> signed_notices (ledger (reporting_node_id n)). n\<lparr>FailureNotice.signature := []\<rparr> = n'\<lparr>FailureNotice.signature := []\<rparr>))"
    using account by (elim exE conjE) (rule that)
  have none: "signed_notices (ledger node) = {}" "crypto ledger_runtime = ledger_ssl" "local_private_key ?ex = Some 7" for node
    by (simp_all add: ledger_def ledger_runtime_def ledger_executor_def sample_executor_def)
  have signs: "\<exists>why now. sign_failure_notice ledger_ssl (unsigned_local_failure (job_to ''job-1'') node why now) (Some 7) = Return n"
    if "(node, response) \<in> set log" "failure response = Some n" for node response n
    using notices [rule_format, of node response n] that by (simp add: none)
  have "''node-b'' \<in> set (map fst (filter (\<lambda>(node, response). failure response \<noteq> None) log))"
    by (simp only: trace(2) [symmetric] singletonI)
  then obtain response n where n: "(''node-b'', response) \<in> set log" "failure response = Some n" by auto
  obtain why now where "sign_failure_notice ledger_ssl (unsigned_local_failure (job_to ''job-1'') ''node-b'' why now) (Some 7) = Return n"
    using signs [OF n] by (elim exE)
  then show ?thesis by (intro exI conjI) (rule run trace(1) n | assumption)+
qed

end
