(* ===== verification/Cross_Language.thy ===== *)
theory Cross_Language
  imports Python_Requests Accountability
begin

text \<open>
  Both implementations in one exchange: the executor of C++ against the server of Python, from the request that is
  signed to the result that completes the attempt.
\<close>

text \<open>A connection that delivers bytes both ways, in pieces and with interruptions.\<close>

definition reliable :: "'w posix \<Rightarrow> int \<Rightarrow> ('w \<Rightarrow> byte list) \<Rightarrow> bool" where
  "reliable os s incoming \<longleftrightarrow>
     (\<exists>outgoing pending. stream_out os s outgoing \<and> progress_out os s pending \<and> stream_in os s incoming \<and>
        progress_in os s incoming pending) \<and> (\<forall>d. keeps incoming (sys_call (sys_send os s d)))"

lemma reply_accepted:
  assumes "portable r" and "request_validate (Some now) r = None" and "0 \<le> done_at" and "int64_range done_at"
    and "res = received_result ((reply_to r reply_id done_at)\<lparr>PyJobResult.signature := sig\<rparr>)"
    and "verify_job_result (crypto rt) res (Some public_key) = Return True"
    and "public_key_resolver ex (JobRequest.target_node_id (cpp_request r)) = io_return (Some public_key)"
    and "reliable (system rt) (fd h) incoming" and "encode_frame (job_request_envelope_json sq) = Return frame"
    and "encode_frame (job_result_envelope_json res) = Return bytes"
    and "connected rt ex (cpp_request r) w sq h w1" and "incoming w1 = bytes @ rest"
  shows "\<exists>w2. executor_call rt ex (cpp_request r) (JobRequest.target_node_id (cpp_request r)) w
    = Some (Return \<lparr>AttemptResponse.result = Some res, failure = None\<rparr>, w2)"
proof -
  obtain outgoing pending where io: "stream_out (system rt) (fd h) outgoing" "progress_out (system rt) (fd h) pending"
      "stream_in (system rt) (fd h) incoming" "progress_in (system rt) (fd h) incoming pending"
      "\<And>d. keeps incoming (sys_call (sys_send (system rt) (fd h) d))"
    using assms(8) by (auto simp: reliable_def)
  have size: "length (job_request_envelope_json sq) \<le> 1048576"
    using assms(9) by (auto simp: encode_frame_eq_Return kMaxFrameBytes_def)
  have "answers (cpp_request r) res" and ok: "JobResult.status res = ''OK''"
    using reply_answers [OF assms(1-4)] assms(5) by simp_all
  then have q: "JobResult.request_id res = JobRequest.request_id (cpp_request r)"
      "JobResult.responder_node_id res = JobRequest.target_node_id (cpp_request r)"
      "JobResult.recipient_node_id res = JobRequest.sender_node_id (cpp_request r)"
    by (simp_all add: answers_def)
  have "sint (JobResult.completed_at res) = done_at"
    using assms(4,5) by (simp add: received_result_def reply_to_def sint_range)
  then have "JobResult.completed_at res \<noteq> int64_min" using assms(3) sint_int64_min by auto
  from attempt_returns_answer [OF assms(11) io size assms(10,12) this q ok assms(7,6)] show ?thesis by blast
qed

text \<open>
  Claim C6. A C++ client and a Python server: a request of ASCII strings without DEL that the C++ validation accepts, signed by the
  C++ executor and received by the Python server in whatever pieces, is read, verified and executed there.  The server
  replies with the signed result of this request, unless that is too large for a frame; and the executor that receives
  the reply accepts exactly this result, which answers the request.
\<close>

theorem python_serves_cpp:
  assumes "peers_trust (crypto rt) private_key public_key b64decode verify sign" and "portable r" and "ascii_request r"
    and "validate_job_request (cpp_request r) (word_of_int now) = Return ()" and "0 \<le> now" and "int64_range now"
    and "sign_job_request (crypto rt) (cpp_request r) (Some private_key) = Return sq"
    and "encode_frame (job_request_envelope_json sq) = Return frame" and "[] \<notin> set pieces" and "concat pieces = frame"
    and "reply_id \<noteq> []" and "\<forall>c \<in> set reply_id. c < 0x7f" and "0 \<le> done_at" and "int64_range done_at"
    and "public_key_resolver ex (JobRequest.target_node_id (cpp_request r)) = io_return (Some public_key)"
    and "reliable (system rt) (fd h) incoming"
  shows "\<exists>res. answers (cpp_request r) res \<and> JobResult.status res = ''OK'' \<and> length (JobResult.signature res) = 88 \<and>
    res\<lparr>JobResult.signature := []\<rparr> = received_result (reply_to r reply_id done_at) \<and>
    (let reply = serve_one_job (Suc (Suc depth))
           (node_handler b64decode verify sign (PyJobRequest.target_node_id r) reply_id now done_at) pieces in
     if length (job_result_envelope_json res) > MAX_FRAME_BYTES then reply = Inl (ValueError ''frame too large'')
     else \<exists>bytes. reply = Inr bytes \<and>
       (\<forall>w w1 rest. connected rt ex (cpp_request r) w sq h w1 \<and> incoming w1 = bytes @ rest \<longrightarrow>
          (\<exists>w2. executor_call rt ex (cpp_request r) (JobRequest.target_node_id (cpp_request r)) w
             = Some (Return \<lparr>AttemptResponse.result = Some res, failure = None\<rparr>, w2))))"
    (is "\<exists>res. _ \<and> _ \<and> _ \<and> _ \<and> ?served res")
proof -
  have "request_validate (Some now) r = py_outcome (validate_job_request (cpp_request r) (word_of_int now))"
    using request_validation_agrees [OF assms(2), of "Some now"] assms(5,6) by simp
  then have valid: "request_validate (Some now) r = None" by (simp add: assms(4))
  obtain s where s: "length s = 64" and served: "serve_one_job (Suc (Suc depth))
      (node_handler b64decode verify sign (PyJobRequest.target_node_id r) reply_id now done_at) pieces
      = send_frame (py_str ''JOB_RESULT'') (result_asdict ((reply_to r reply_id done_at)\<lparr>PyJobResult.signature := py_b64 s\<rparr>))"
    and body: "frame_body (py_str ''JOB_RESULT'') (result_asdict ((reply_to r reply_id done_at)\<lparr>PyJobResult.signature := py_b64 s\<rparr>))
      = job_result_envelope_json (received_result ((reply_to r reply_id done_at)\<lparr>PyJobResult.signature := py_b64 s\<rparr>))"
    and verified: "verify_job_result (crypto rt)
      (received_result ((reply_to r reply_id done_at)\<lparr>PyJobResult.signature := py_b64 s\<rparr>)) (Some public_key) = Return True"
    using request_served [OF assms(1-3) valid assms(7-14), of depth] unfolding Let_def by blast
  define reply where "reply = (reply_to r reply_id done_at)\<lparr>PyJobResult.signature := py_b64 s\<rparr>"
  define res where "res = received_result reply"
  note facts = served body verified
  show ?thesis
  proof (rule exI [of _ res], intro conjI)
    show "answers (cpp_request r) res" "JobResult.status res = ''OK''"
      using reply_answers [OF assms(2) valid assms(13,14)] by (simp_all add: res_def reply_def)
    show "length (JobResult.signature res) = 88"
      using s by (simp add: res_def reply_def received_signed length_base64)
    show "res\<lparr>JobResult.signature := []\<rparr> = received_result (reply_to r reply_id done_at)"
      by (simp add: res_def reply_def received_signed) (simp add: received_result_def reply_to_def)
    show "?served res"
    proof (cases "length (job_result_envelope_json res) > MAX_FRAME_BYTES")
      case True
      then show ?thesis using facts(1,2) by (simp add: send_frame_def Let_def res_def reply_def)
    next
      case False
      then obtain bytes where bytes: "send_frame (py_str ''JOB_RESULT'') (result_asdict reply) = Inr bytes"
        using body by (simp add: send_frame_def Let_def res_def reply_def)
      then have "encode_frame (job_result_envelope_json res) = Return bytes"
        using send_frame_encode [OF bytes] body by (simp add: res_def reply_def)
      from reply_accepted [OF assms(2) valid assms(13,14) res_def [unfolded reply_def] verified [folded reply_def res_def]
          assms(15,16,8) this] False served bytes
      show ?thesis by (auto simp: reply_def)
    qed
  qed
qed

section \<open>A concrete exchange\<close>

definition ping_request :: PyJobRequest where
  "ping_request = \<lparr>protocol_version = py_str ''0.2'', message_id = py_str ''msg-0'', request_id = py_str ''job-1'',
     sender_node_id = py_str ''node-a'', target_node_id = py_str ''node-b'', organization_id = None,
     operation = py_str ''PING'', payload = [], issued_at = 0, expires_at = 60,
     signature_algorithm = py_str ''Ed25519'', signature = []\<rparr>"

lemma ping_request_cpp: "cpp_request ping_request = job_at ''node-b''"
  by (simp add: cpp_request_def ping_request_def job_at_def job_to_def utf8_def char_of_eq_iff)

lemma ping_request_portable: "portable ping_request" "ascii_request ping_request"
  by (simp_all add: portable_def ping_request_def request_asdict_def without_signature_def py_optional_def int64_range_def
      scalar_def ascii_key_def plain_key_def json_escape_def)

lemma sample_peers_trust:
  "peers_trust sample_ssl 7 7 sample_b64decode (\<lambda>s m. s = sample_signature 7 m) (sample_signature 7)"
proof -
  have "signs_for sample_ssl 7 (sample_signature 7)"
    by (simp add: signs_for_def evp_accepts_def sample_ssl_def sample_signature_def)
  moreover have "s = sample_signature 7 (bytes_of_string m)" if "ed25519_sign sample_ssl (Some 7) m = Return s" for m s
    using that by (cases "length m \<le> 63")
      (auto simp: ed25519_sign_def sample_ssl_def sample_signature_def resized_def min_def split: if_splits)
  ultimately show ?thesis using sample_ssl_base64 sample_ssl_ed25519 [of 7] by (auto simp: peers_trust_def sample_b64decode_encoded)
qed

lemma open_runtime_reliable: "reliable (system open_runtime) 7 net_in"
  using open_runtime_streams [of 7] by (auto simp: reliable_def)

lemma ping_reply_size:
  assumes "length (JobResult.signature res) = 88"
    and "res\<lparr>JobResult.signature := []\<rparr> = received_result (reply_to ping_request (py_str ''msg-1'') 30)"
  shows "length (job_result_envelope_json res) \<le> MAX_FRAME_BYTES"
proof -
  let ?t = "JobResult.signature res"
  have "res = (received_result (reply_to ping_request (py_str ''msg-1'') 30))\<lparr>JobResult.signature := ?t\<rparr>"
    using assms(2) by (metis JobResult.surjective JobResult.update_convs(10))
  moreover have "utf8_of (py_str s) = s"
    if "s \<in> {''0.2'', ''msg-1'', ''job-1'', ''node-b'', ''node-a'', ''OK'', ''PONG'', ''Ed25519''}" for s
    using that by (intro utf8_of_ascii) auto
  ultimately have res: "res = \<lparr>JobResult.protocol_version = ''0.2'', message_id = ''msg-1'', request_id = ''job-1'',
      responder_node_id = ''node-b'', recipient_node_id = ''node-a'', status = ''OK'', payload = ''PONG'', completed_at = 30,
      signature_algorithm = ''Ed25519'', signature = ?t\<rparr>"
    by (simp add: received_result_def reply_to_def ping_request_def py_execute_reference_job_def del: list.map map_map)
  note b = length_json_string [of ?t] length_json_string [of "''node-a''"] length_json_string [of "''PONG''"]
    length_json_string [of "''node-b''"] length_json_string [of "''job-1''"] length_json_string [of "''Ed25519''"]
    length_json_string [of "''OK''"] length_json_string [of "''0.2''"] length_json_string [of "''msg-1''"]
  show ?thesis
    using b assms(1) by (subst res) (simp add: job_result_envelope_json_def signed_job_result_json_def MAX_FRAME_BYTES_def
        dec_int64_def dec_int_def dec_nat.simps)
qed

theorem python_serves_cpp_witness:
  "\<exists>sq frame bytes res w2. sign_job_request sample_ssl (job_at ''node-b'') (Some 7) = Return sq \<and>
     encode_frame (job_request_envelope_json sq) = Return frame \<and>
     serve_one_job 2 (node_handler sample_b64decode (\<lambda>s m. s = sample_signature 7 m) (sample_signature 7) (py_str ''node-b'')
       (py_str ''msg-1'') 20 30) [frame] = Inr bytes \<and>
     executor_call open_runtime sample_executor (job_at ''node-b'') ''node-b'' (sample_net bytes)
       = Some (Return \<lparr>AttemptResponse.result = Some res, failure = None\<rparr>, w2) \<and>
     answers (job_at ''node-b'') res"
proof -
  let ?q = "job_at ''node-b''" and ?verify = "\<lambda>s m. s = sample_signature 7 m"
  let ?handler = "node_handler sample_b64decode ?verify (sample_signature 7) (py_str ''node-b'') (py_str ''msg-1'') 20 30"
  have ssl: "crypto open_runtime = sample_ssl" by (simp add: open_runtime_def sample_runtime_def)
  have ex: "local_private_key sample_executor = Some 7"
      "public_key_resolver sample_executor (JobRequest.target_node_id ?q) = io_return (Some 7)"
      "JobRequest.target_node_id ?q = ''node-b''" "PyJobRequest.target_node_id ping_request = py_str ''node-b''"
    by (simp_all add: sample_executor_def job_at_def ping_request_def)
  obtain t where t: "length t = 88" and sq: "sign_job_request sample_ssl ?q (Some 7)
      = Return (?q\<lparr>JobRequest.signature_algorithm := ''Ed25519'', JobRequest.signature := t\<rparr>)" (is "_ = Return ?sq")
    using sign_request [OF open_runtime_can_sign, of ?q] unfolding ssl ex(1) by blast
  have con: "connected open_runtime sample_executor ?q (sample_net bs) ?sq \<lparr>fd = 7\<rparr> ((sample_net bs)\<lparr>net_open := {7}\<rparr>)" for bs
    using open_runtime_connected [of ?sq bs] sq by (simp only: ssl ex(1))
  obtain frame where frame: "encode_frame (job_request_envelope_json ?sq) = Return frame"
    using sample_sizes(1) [OF t]
    by (force simp: encode_frame_def Let_def kMaxFrameBytes_def job_request_envelope_json_def)
  have "validate_job_request ?q (word_of_int 20) = Return ()"
    by (simp add: validate_job_request_def job_at_def job_to_def)
  note exchange = python_serves_cpp [where depth = 0 and reply_id = "py_str ''msg-1''" and done_at = 30,
      OF sample_peers_trust [folded ssl] ping_request_portable, unfolded ping_request_cpp, OF this _ _ sq [folded ssl] frame
      _ _ _ _ _ _ ex(2), of "[frame]" "\<lparr>fd = 7\<rparr>" net_in]
  have two: "Suc (Suc 0) = 2" by simp
  obtain res where res: "answers ?q res" "length (JobResult.signature res) = 88"
      "res\<lparr>JobResult.signature := []\<rparr> = received_result (reply_to ping_request (py_str ''msg-1'') 30)"
    and served: "let reply = serve_one_job 2 ?handler [frame] in
     if length (job_result_envelope_json res) > MAX_FRAME_BYTES then reply = Inl (ValueError ''frame too large'')
     else \<exists>bytes. reply = Inr bytes \<and>
       (\<forall>w w1 rest. connected open_runtime sample_executor ?q w ?sq \<lparr>fd = 7\<rparr> w1 \<and> net_in w1 = bytes @ rest \<longrightarrow>
          (\<exists>w2. executor_call open_runtime sample_executor ?q ''node-b'' w
             = Some (Return \<lparr>AttemptResponse.result = Some res, failure = None\<rparr>, w2)))"
    using exchange open_runtime_reliable frame unfolding ex(3,4) two
    by (auto simp: int64_range_def encode_frame_eq_Return)
  then obtain bytes where bytes: "serve_one_job 2 ?handler [frame] = Inr bytes"
      "\<And>w w1. connected open_runtime sample_executor ?q w ?sq \<lparr>fd = 7\<rparr> w1 \<Longrightarrow> net_in w1 = bytes @ [] \<Longrightarrow>
        \<exists>w2. executor_call open_runtime sample_executor ?q ''node-b'' w
           = Some (Return \<lparr>AttemptResponse.result = Some res, failure = None\<rparr>, w2)"
    using ping_reply_size [OF res(2,3)] unfolding Let_def by (metis linorder_not_le)
  have "net_in ((sample_net bytes)\<lparr>net_open := {7}\<rparr>) = bytes @ []" by (simp add: sample_net_def)
  from bytes(2) [OF con this] show ?thesis using sq frame bytes(1) res(1) by blast
qed

end
