(* ===== verification/Python_Canonical.thy ===== *)
theory Python_Canonical
  imports Python_Requests
begin

text \<open>
  The canonical JSON of Python determines its object: \<open>json.loads\<close> reads back what \<open>json.dumps\<close> prints in ASCII, so
  that two objects of Unicode strings, numbers, lists and objects with one canonical form are the same object.
\<close>

lemma scan_unit_escape_py:
  assumes "n < 0x10000"
  shows "scan_string (py_str (unit_escape n) @ s) =
    py_bind (if 0xd800 \<le> n \<and> n \<le> 0xdbff
      then (case low_half s of None \<Rightarrow> Inr (n, s) | Some (l, r) \<Rightarrow> Inr (0x10000 + (n - 0xd800) * 0x400 + (l - 0xdc00), r))
      else Inr (n, s)) (\<lambda>(e, r). py_bind (scan_string r) (\<lambda>(t, r). Inr (e # t, r)))"
  using hex_unit_hex4 [OF assms, of s] by (simp add: unit_escape_def scan_unicode_def)

lemma low_half_escape:
  assumes "0xdc00 \<le> n" and "n \<le> 0xdfff"
  shows "low_half (py_str (unit_escape n) @ s) = Some (n, s)"
  using hex_unit_hex4 [of n s] assms by (simp add: low_half_def unit_escape_def)

lemma scan_python_char:
  assumes "scalar c"
  shows "scan_string (py_str (python_escape c) @ s) = py_bind (scan_string s) (\<lambda>(t, r). Inr (c # t, r))"
proof -
  consider (ascii) "c < 0x7f" | (unit) "0x7f \<le> c" "c < 0x10000" | (pair) "0x10000 \<le> c" "c \<le> 0x10ffff"
    using assms by (force simp: scalar_def)
  then show ?thesis
  proof cases
    case ascii
    then show ?thesis using scan_shown_char [of c s] by (simp add: shown_char_def python_escape_ascii(2))
  next
    case unit
    then show ?thesis using scan_unit_escape_py [of c s] assms by (auto simp: python_escape_def scalar_def)
  next
    case pair
    define h l where "h = 0xd800 + (c - 0x10000) div 0x400" and "l = 0xdc00 + (c - 0x10000) mod 0x400"
    have "(c - 0x10000) div 0x400 < 0x400" using pair by auto
    then have range: "h < 0x10000" "0xd800 \<le> h" "h \<le> 0xdbff" "0xdc00 \<le> l" "l \<le> 0xdfff" by (simp_all add: h_def l_def)
    have "0x10000 + (h - 0xd800) * 0x400 + (l - 0xdc00) = 0x10000 + ((c - 0x10000) div 0x400 * 0x400 + (c - 0x10000) mod 0x400)"
      by (simp add: h_def l_def)
    also have "\<dots> = c" using pair by (simp only: div_mult_mod_eq)
    finally have "0x10000 + (h - 0xd800) * 0x400 + (l - 0xdc00) = c" .
    moreover have "python_escape c = unit_escape h @ unit_escape l" using pair by (simp add: python_escape_def h_def l_def)
    ultimately show ?thesis
      using scan_unit_escape_py [OF range(1), of "py_str (unit_escape l) @ s"] low_half_escape [OF range(4,5), of s] range(2,3) by simp
  qed
qed

lemma scan_python_chars: "\<forall>c \<in> set t. scalar c \<Longrightarrow> scan_string (py_str (concat (map python_escape t)) @ 0x22 # r) = Inr (t, r)"
  by (induction t) (simp_all add: scan_python_char)

lemma python_json_string_points: "py_str (python_json_string s) = 0x22 # py_str (concat (map python_escape s)) @ [0x22]"
  by (simp add: python_json_string_def)

lemma reads_python_string:
  assumes "\<forall>c \<in> set s. scalar c"
  shows "reads (scan_value depth) (py_str (python_json_string s)) (JStr s)"
proof (rule reads_scalar)
  have "scan_scalar (py_str (python_json_string s) @ r) = Inr (JStr s, r)" for r
    using not_literal [of "py_str (python_json_string s) @ r"] scan_python_chars [OF assms, of r]
    unfolding python_json_string_points by (simp add: scan_scalar_def take_Suc_Cons [of 1, unfolded Suc_1])
  then show "reads scan_scalar (py_str (python_json_string s)) (JStr s)" by (simp add: reads_def python_json_string_points)
qed (simp_all add: python_json_string_points)

lemma python_key_shown:
  assumes "ascii_key k"
  shows "py_str (python_json_string (py_str k)) = shown_string (py_str k)"
proof -
  have "py_str (concat (map python_escape (py_str k))) = concat (map shown_char (py_str k))"
    using assms by (induction k) (auto simp: ascii_key_def plain_key_def shown_char_def python_escape_ascii(2))
  then show ?thesis by (simp only: python_json_string_points shown_string_def)
qed

lemma py_members_shown:
  assumes "\<forall>(k, t) \<in> set ms. ascii_key k"
  shows "py_str (py_members ms) = shown_members (map (\<lambda>(k, t). (py_str k, py_str t)) ms)"
  using assms by (induction ms rule: py_members.induct) (simp_all add: python_key_shown del: map_map)

lemma py_elements_shown: "py_str (py_elements ts) = shown_elements (map py_str ts)"
  by (induction ts rule: py_elements.induct) simp_all

lemma reads_json_dumps: "loadable depth v \<Longrightarrow> encodable v \<Longrightarrow> reads (scan_value depth) (py_str (json_dumps v)) (loaded v)"
proof (induction depth v rule: loadable.induct)
  case (3 depth s)
  then show ?case using reads_python_string [of s depth] by (simp del: scan_value.simps)
next
  case (5 depth vs)
  have "py_str (json_dumps (PyList vs)) = 0x5b # shown_elements (map (\<lambda>v. py_str (json_dumps v)) vs) @ [0x5d]"
    by (simp add: py_elements_shown comp_def)
  then show ?case using 5 by (simp only:) (intro reads_list, simp add: list_all_iff)
next
  case (7 depth kvs)
  have "\<forall>(k, t) \<in> set (map (\<lambda>(k, v). (k, json_dumps v)) (sort_key fst kvs)). ascii_key k" using "7.prems"(2) by fastforce
  from py_members_shown [OF this]
  have "py_str (json_dumps (PyDict kvs)) = shown_object (map (\<lambda>(k, v). (py_str k, py_str (json_dumps v))) (sort_key fst kvs))"
    by (simp add: shown_object_def case_prod_unfold comp_def)
  moreover have "\<forall>(k, v) \<in> set kvs. reads (scan_value depth) (py_str (json_dumps v)) (loaded v)"
    using 7 by (fastforce simp: list_all_iff)
  ultimately show ?case using "7.prems"(1) by (simp only:) (rule reads_members, simp_all)
qed (simp_all add: reads_null [simplified] reads_int del: scan_value.simps)

lemma loads_json_dumps:
  "loadable depth (PyDict kvs) \<Longrightarrow> encodable (PyDict kvs) \<Longrightarrow> json_loads depth (py_str (canonical_json kvs)) = Inr (loaded (PyDict kvs))"
  unfolding canonical_json_def by (rule loads_shown [OF reads_json_dumps]) simp_all

text \<open>What the canonical form determines.\<close>

lemma canonical_json_inject:
  assumes "canonical_json kvs = canonical_json kvs'" and "loadable depth (PyDict kvs)" and "encodable (PyDict kvs)"
    and "loadable depth (PyDict kvs')" and "encodable (PyDict kvs')"
  shows "loaded (PyDict kvs) = loaded (PyDict kvs')"
  using loads_json_dumps [OF assms(2,3)] loads_json_dumps [OF assms(4,5)] assms(1) by simp

end
