(* ===== verification/Python_Handshake.thy ===== *)
theory Python_Handshake
  imports Python_Canonical
begin

text \<open>
  The admission handshake of \<open>auth.py\<close>: certificates, challenges and \<open>HandshakeVerifier\<close>.  The keys and signatures of
  the \<open>cryptography\<close> package, \<open>base64.b64decode\<close> and the texts that \<open>secrets\<close> draws are parameters.
\<close>

section \<open>The libraries\<close>

text \<open>
  \<open>from_public_bytes\<close> and \<open>b64decode\<close> give None where they raise one of the errors that \<open>auth.py\<close> catches;
  \<open>key_verifies\<close> is whether \<open>verify(signature, data)\<close> returns.
\<close>

record 'k cryptography =
  public_bytes_raw :: "'k \<Rightarrow> byte list"
  from_public_bytes :: "byte list \<Rightarrow> 'k option"
  key_verifies :: "'k \<Rightarrow> byte list \<Rightarrow> byte list \<Rightarrow> bool"
  b64decode :: "string \<Rightarrow> byte list option"

section \<open>Certificates\<close>

record Certificate =
  version :: int
  serial :: "nat list"
  subject_id :: "nat list"
  subject_kind :: "nat list"
  subject_public_key :: "nat list"
  issuer_id :: "nat list"
  not_before :: int
  not_after :: int
  capabilities :: "nat list list"
  signature_algorithm :: "nat list"
  issuer_signature :: "nat list"

definition unsigned_payload :: "Certificate \<Rightarrow> (string \<times> py_value) list" where
  "unsigned_payload c =
     [(''version'', PyInt (version c)), (''serial'', PyStr (serial c)), (''subject_id'', PyStr (subject_id c)),
      (''subject_kind'', PyStr (subject_kind c)), (''subject_public_key'', PyStr (subject_public_key c)),
      (''issuer_id'', PyStr (issuer_id c)), (''not_before'', PyInt (not_before c)), (''not_after'', PyInt (not_after c)),
      (''capabilities'', PyList (map PyStr (capabilities c))), (''signature_algorithm'', PyStr (signature_algorithm c))]"

text \<open>\<open>sorted(set(names))\<close>\<close>

definition sorted_set :: "nat list list \<Rightarrow> nat list list" where
  "sorted_set names = sort (remdups names)"

text \<open>\<open>token\<close> is what \<open>secrets.token_hex\<close> returns.\<close>

definition issue_certificate ::
    "'k cryptography \<Rightarrow> nat list \<Rightarrow> nat list \<Rightarrow> (byte list \<Rightarrow> byte list) \<Rightarrow> nat list \<Rightarrow> nat list \<Rightarrow> 'k \<Rightarrow> int \<Rightarrow> int \<Rightarrow>
       nat list list \<Rightarrow> Certificate" where
  "issue_certificate lib token issuer sign subject kind pk from_time until names =
     (let public_raw = public_bytes_raw lib pk;
          capability_list = sorted_set names;
          unsigned = [(''version'', PyInt 1), (''serial'', PyStr token), (''subject_id'', PyStr subject),
            (''subject_kind'', PyStr kind), (''subject_public_key'', PyStr (py_b64 public_raw)),
            (''issuer_id'', PyStr issuer), (''not_before'', PyInt from_time), (''not_after'', PyInt until),
            (''capabilities'', PyList (map PyStr capability_list)), (''signature_algorithm'', PyStr (py_str ''Ed25519''))];
          sig = sign (bytes_of_string (canonical_json unsigned))
      in \<lparr>version = 1, serial = token, subject_id = subject, subject_kind = kind,
          subject_public_key = py_b64 public_raw, issuer_id = issuer, not_before = from_time, not_after = until,
          capabilities = capability_list, signature_algorithm = py_str ''Ed25519'', issuer_signature = py_b64 sig\<rparr>)"

text \<open>\<open>clock\<close> is the time that is read when the caller gives none.\<close>

definition verify_certificate :: "'k cryptography \<Rightarrow> int \<Rightarrow> Certificate \<Rightarrow> 'k \<Rightarrow> int option \<Rightarrow> bool" where
  "verify_certificate lib clock c pk now =
     (let now = (case now of None \<Rightarrow> clock | Some t \<Rightarrow> t) in
      if version c \<noteq> 1 then False
      else if signature_algorithm c \<noteq> py_str ''Ed25519'' then False
      else if \<not> (not_before c \<le> now \<and> now \<le> not_after c) then False
      else case py_unb64 (b64decode lib) (issuer_signature c) of
          None \<Rightarrow> False
        | Some sig \<Rightarrow> key_verifies lib pk sig (bytes_of_string (canonical_json (unsigned_payload c))))"

section \<open>Challenges\<close>

record Challenge =
  challenge_id :: "nat list"
  client_nonce :: "nat list"
  server_nonce :: "nat list"
  organization_id :: "nat list"
  agent_or_device_id :: "nat list"
  protocol_version :: "nat list"
  selected_capabilities :: "nat list list"
  issued_at :: int
  expires_at :: int

definition transcript_dict :: "Challenge \<Rightarrow> (string \<times> py_value) list" where
  "transcript_dict c =
     [(''challenge_id'', PyStr (challenge_id c)), (''client_nonce'', PyStr (client_nonce c)),
      (''server_nonce'', PyStr (server_nonce c)), (''organization_id'', PyStr (organization_id c)),
      (''agent_or_device_id'', PyStr (agent_or_device_id c)), (''protocol_version'', PyStr (protocol_version c)),
      (''selected_capabilities'', PyList (map PyStr (selected_capabilities c)))]"

definition transcript :: "Challenge \<Rightarrow> byte list" where
  "transcript c = bytes_of_string (canonical_json (transcript_dict c))"

definition make_challenge ::
    "nat list \<Rightarrow> nat list \<Rightarrow> nat list \<Rightarrow> nat list \<Rightarrow> nat list \<Rightarrow> nat list \<Rightarrow> nat list list \<Rightarrow> int \<Rightarrow> int \<Rightarrow> py_error + Challenge"
where
  "make_challenge token server_token organization agent nonce protocol names now ttl_seconds =
     (if ttl_seconds \<le> 0 then Inl (ValueError ''ttl_seconds must be positive'')
      else Inr \<lparr>challenge_id = token, client_nonce = nonce, server_nonce = server_token, organization_id = organization,
          agent_or_device_id = agent, protocol_version = protocol, selected_capabilities = sorted_set names,
          issued_at = now, expires_at = now + ttl_seconds\<rparr>)"

definition sign_challenge :: "(byte list \<Rightarrow> byte list) \<Rightarrow> Challenge \<Rightarrow> nat list" where
  "sign_challenge sign c = py_b64 (sign (transcript c))"

section \<open>The verifier\<close>

text \<open>
  The keyword arguments of one call of \<open>verify\<close>; the verifier keeps the identifiers it has consumed.  It gives its own
  time to \<open>verify_certificate\<close>, so that no clock is read.
\<close>

record 'k handshake_call =
  challenge :: Challenge
  signature :: "nat list"
  device_certificate :: Certificate
  organization_certificate :: Certificate
  root_public_key :: 'k
  organization_status :: "nat list"
  required_capability :: "nat list option"
  now :: int
  device_status :: "nat list"

definition handshake_verify ::
    "'k cryptography \<Rightarrow> nat list set \<Rightarrow> 'k handshake_call \<Rightarrow> (bool \<times> string) \<times> nat list set" where
  "handshake_verify lib consumed a =
     (let ch = challenge a; dev = device_certificate a; org = organization_certificate a in
      if challenge_id ch \<in> consumed then ((False, ''replay''), consumed)
      else if \<not> (issued_at ch \<le> now a \<and> now a \<le> expires_at ch) then ((False, ''expired_challenge''), consumed)
      else if organization_status a \<noteq> py_str ''ACTIVE'' then ((False, ''inactive_organization''), consumed)
      else if device_status a \<noteq> py_str ''ACTIVE'' then ((False, ''inactive_device''), consumed)
      else if subject_kind org \<noteq> py_str ''organization'' then ((False, ''invalid_organization_certificate''), consumed)
      else if subject_kind dev \<notin> {py_str ''device'', py_str ''agent''}
      then ((False, ''invalid_device_certificate''), consumed)
      else if subject_id org \<noteq> organization_id ch then ((False, ''organization_mismatch''), consumed)
      else if subject_id dev \<noteq> agent_or_device_id ch then ((False, ''subject_mismatch''), consumed)
      else if \<not> verify_certificate lib 0 org (root_public_key a) (Some (now a))
      then ((False, ''invalid_organization_certificate''), consumed)
      else case Option.bind (py_unb64 (b64decode lib) (subject_public_key org)) (from_public_bytes lib) of
          None \<Rightarrow> ((False, ''invalid_organization_certificate''), consumed)
        | Some organization_public_key \<Rightarrow>
            if issuer_id dev \<noteq> subject_id org then ((False, ''invalid_delegation''), consumed)
            else if \<not> verify_certificate lib 0 dev organization_public_key (Some (now a))
            then ((False, ''invalid_device_certificate''), consumed)
            else if (case required_capability a of None \<Rightarrow> False | Some c \<Rightarrow> c \<noteq> [] \<and> c \<notin> set (capabilities dev))
            then ((False, ''unauthorized_capability''), consumed)
            else case Option.bind (py_unb64 (b64decode lib) (subject_public_key dev)) (from_public_bytes lib) of
                None \<Rightarrow> ((False, ''invalid_signature''), consumed)
              | Some device_public_key \<Rightarrow>
                  (case py_unb64 (b64decode lib) (signature a) of
                     None \<Rightarrow> ((False, ''invalid_signature''), consumed)
                   | Some sig \<Rightarrow>
                       if key_verifies lib device_public_key sig (transcript ch)
                       then ((True, ''ok''), insert (challenge_id ch) consumed)
                       else ((False, ''invalid_signature''), consumed)))"

text \<open>The calls on one verifier in turn: the answers, and the identifiers it has consumed in the end.\<close>

primrec handshake_run ::
    "'k cryptography \<Rightarrow> nat list set \<Rightarrow> 'k handshake_call list \<Rightarrow> (bool \<times> string) list \<times> nat list set" where
  "handshake_run lib consumed [] = ([], consumed)"
| "handshake_run lib consumed (a # as) =
     (let (answer, consumed) = handshake_verify lib consumed a;
          (replies, consumed) = handshake_run lib consumed as
      in (answer # replies, consumed))"

section \<open>Admission\<close>

text \<open>What the chain of keys and signatures behind an admission is.\<close>

abbreviation key_of :: "'k cryptography \<Rightarrow> Certificate \<Rightarrow> 'k option" where
  "key_of lib c \<equiv> Option.bind (py_unb64 (b64decode lib) (subject_public_key c)) (from_public_bytes lib)"

definition admitted :: "'k cryptography \<Rightarrow> 'k handshake_call \<Rightarrow> bool" where
  "admitted lib a \<longleftrightarrow>
     (let ch = challenge a; dev = device_certificate a; org = organization_certificate a in
      issued_at ch \<le> now a \<and> now a \<le> expires_at ch \<and>
      organization_status a = py_str ''ACTIVE'' \<and> device_status a = py_str ''ACTIVE'' \<and>
      subject_kind org = py_str ''organization'' \<and> subject_kind dev \<in> {py_str ''device'', py_str ''agent''} \<and>
      subject_id org = organization_id ch \<and> subject_id dev = agent_or_device_id ch \<and> issuer_id dev = subject_id org \<and>
      (\<forall>c. required_capability a = Some c \<longrightarrow> c = [] \<or> c \<in> set (capabilities dev)) \<and>
      verify_certificate lib 0 org (root_public_key a) (Some (now a)) \<and>
      (\<exists>okey dkey sig. key_of lib org = Some okey \<and> verify_certificate lib 0 dev okey (Some (now a)) \<and>
         key_of lib dev = Some dkey \<and> py_unb64 (b64decode lib) (signature a) = Some sig \<and>
         key_verifies lib dkey sig (transcript ch)))"

lemma handshake_verify_answer:
  "fst (fst (handshake_verify lib consumed a)) \<longleftrightarrow> challenge_id (challenge a) \<notin> consumed \<and> admitted lib a"
  unfolding handshake_verify_def admitted_def Let_def by (auto split: option.splits if_splits)

lemma handshake_verify_state:
  "snd (handshake_verify lib consumed a) =
     (if fst (fst (handshake_verify lib consumed a)) then insert (challenge_id (challenge a)) consumed else consumed)"
  unfolding handshake_verify_def Let_def by (simp split: option.splits if_splits)

lemma handshake_verify_ok: "fst (fst (handshake_verify lib consumed a)) \<longrightarrow> fst (handshake_verify lib consumed a) = (True, ''ok'')"
  unfolding handshake_verify_def Let_def by (simp split: option.split)

section \<open>Single use\<close>

text \<open>The identifiers of the calls that were accepted, in their order.\<close>

definition accepted_ids :: "'k handshake_call list \<Rightarrow> (bool \<times> string) list \<Rightarrow> nat list list" where
  "accepted_ids as replies = map (\<lambda>(a, _). challenge_id (challenge a)) (filter (\<lambda>(_, accepted, _). accepted) (zip as replies))"

lemma accepted_ids_Cons:
  "accepted_ids (a # as) (r # replies) = (if fst r then [challenge_id (challenge a)] else []) @ accepted_ids as replies"
  by (simp add: accepted_ids_def case_prod_beta)

lemma handshake_run_accepted:
  "let (replies, consumed') = handshake_run lib consumed as in
   length replies = length as \<and> distinct (accepted_ids as replies) \<and> set (accepted_ids as replies) \<inter> consumed = {} \<and>
   consumed' = consumed \<union> set (accepted_ids as replies)"
proof (induction as arbitrary: consumed)
  case (Cons a as)
  obtain r c1 where v: "handshake_verify lib consumed a = (r, c1)" by (cases "handshake_verify lib consumed a")
  obtain replies c2 where run: "handshake_run lib c1 as = (replies, c2)" by (cases "handshake_run lib c1 as")
  have "c1 = (if fst r then insert (challenge_id (challenge a)) consumed else consumed)"
      "fst r \<Longrightarrow> challenge_id (challenge a) \<notin> consumed"
    using handshake_verify_state [of lib consumed a] handshake_verify_answer [of lib consumed a] v by simp_all
  then show ?case using Cons.IH [of c1] v run by (auto simp: accepted_ids_Cons)
qed (simp add: accepted_ids_def)

section \<open>What signatures say\<close>

text \<open>The statements of the protocol that Python nodes sign: certificates, replies to challenges, requests and results.\<close>

datatype py_statement =
    CertificateOf Certificate | AnswerTo Challenge | RequestOf PyJobRequest | ResultOf PyJobResult

fun statement_dict :: "py_statement \<Rightarrow> (string \<times> py_value) list" where
  "statement_dict (CertificateOf c) = unsigned_payload c"
| "statement_dict (AnswerTo c) = transcript_dict c"
| "statement_dict (RequestOf r) = without_signature (request_asdict r)"
| "statement_dict (ResultOf r) = without_signature (result_asdict r)"

definition statement_bytes :: "py_statement \<Rightarrow> byte list" where
  "statement_bytes st = bytes_of_string (canonical_json (statement_dict st))"

text \<open>Its strings are Unicode, without lone surrogates, and its numbers have at most 4300 digits.\<close>

definition plain_statement :: "py_statement \<Rightarrow> bool" where
  "plain_statement st \<longleftrightarrow> encodable (PyDict (statement_dict st)) \<and> loadable 2 (PyDict (statement_dict st))"

text \<open>The fields a signature covers: all but the signature, and the validity of a challenge is not among them.\<close>

fun covered :: "py_statement \<Rightarrow> py_statement" where
  "covered (CertificateOf c) = CertificateOf (c\<lparr>issuer_signature := []\<rparr>)"
| "covered (AnswerTo c) = AnswerTo (c\<lparr>issued_at := 0, expires_at := 0\<rparr>)"
| "covered (RequestOf r) = RequestOf (r\<lparr>PyJobRequest.signature := []\<rparr>)"
| "covered (ResultOf r) = ResultOf (r\<lparr>PyJobResult.signature := []\<rparr>)"

lemma request_unsigned_sorted:
  "sort_key fst (without_signature (request_asdict r)) = filter (\<lambda>kv. fst kv \<noteq> ''signature'') (sort_key fst (request_asdict r))"
  by (simp add: without_signature_def filter_sort)

lemma certificate_sorted:
  "sort_key fst (unsigned_payload c) =
     [(''capabilities'', PyList (map PyStr (capabilities c))), (''issuer_id'', PyStr (issuer_id c)),
      (''not_after'', PyInt (not_after c)), (''not_before'', PyInt (not_before c)), (''serial'', PyStr (serial c)),
      (''signature_algorithm'', PyStr (signature_algorithm c)), (''subject_id'', PyStr (subject_id c)),
      (''subject_kind'', PyStr (subject_kind c)), (''subject_public_key'', PyStr (subject_public_key c)),
      (''version'', PyInt (version c))]"
  by (simp add: unsigned_payload_def less_eq_char_def less_char_def)

lemma transcript_sorted:
  "sort_key fst (transcript_dict c) =
     [(''agent_or_device_id'', PyStr (agent_or_device_id c)), (''challenge_id'', PyStr (challenge_id c)),
      (''client_nonce'', PyStr (client_nonce c)), (''organization_id'', PyStr (organization_id c)),
      (''protocol_version'', PyStr (protocol_version c)),
      (''selected_capabilities'', PyList (map PyStr (selected_capabilities c))), (''server_nonce'', PyStr (server_nonce c))]"
  by (simp add: transcript_dict_def less_eq_char_def less_char_def)

lemma strings_loaded: "map (\<lambda>s. loaded (PyStr s)) names = map (\<lambda>s. loaded (PyStr s)) names' \<longleftrightarrow> names = names'"
  by (simp add: inj_map_eq_map inj_def)

lemma optional_loaded: "loaded (py_optional x) = loaded (py_optional y) \<longleftrightarrow> x = y"
  by (auto simp: py_optional_def split: option.splits)

lemma certificate_determined:
  "loaded (PyDict (unsigned_payload c)) = loaded (PyDict (unsigned_payload c')) \<longleftrightarrow>
     c\<lparr>issuer_signature := []\<rparr> = c'\<lparr>issuer_signature := []\<rparr>"
  unfolding loaded.simps certificate_sorted by (cases c; cases c') (auto simp: comp_def strings_loaded inj_map_eq_map inj_def)

lemma transcript_determined:
  "loaded (PyDict (transcript_dict c)) = loaded (PyDict (transcript_dict c')) \<longleftrightarrow>
     c\<lparr>issued_at := 0, expires_at := 0\<rparr> = c'\<lparr>issued_at := 0, expires_at := 0\<rparr>"
  unfolding loaded.simps transcript_sorted by (cases c; cases c') (auto simp: comp_def strings_loaded inj_map_eq_map inj_def)

lemma request_determined:
  "loaded (PyDict (without_signature (request_asdict r))) = loaded (PyDict (without_signature (request_asdict r'))) \<longleftrightarrow>
     r\<lparr>PyJobRequest.signature := []\<rparr> = r'\<lparr>PyJobRequest.signature := []\<rparr>"
  unfolding loaded.simps request_unsigned_sorted request_sorted by (cases r; cases r') (auto simp: optional_loaded)

lemma result_determined:
  "loaded (PyDict (without_signature (result_asdict r))) = loaded (PyDict (without_signature (result_asdict r'))) \<longleftrightarrow>
     r\<lparr>PyJobResult.signature := []\<rparr> = r'\<lparr>PyJobResult.signature := []\<rparr>"
  unfolding loaded.simps result_unsigned_sorted by (cases r; cases r') auto

lemmas statement_determined = certificate_determined transcript_determined request_determined result_determined

text \<open>Statements of different kinds have different numbers of fields.\<close>

lemma loaded_length: "loaded (PyDict kvs) = loaded (PyDict kvs') \<Longrightarrow> length kvs = length kvs'"
  by (auto dest!: arg_cong [where f = length])

lemma statement_length:
  "length (statement_dict st) = (case st of CertificateOf _ \<Rightarrow> 10 | AnswerTo _ \<Rightarrow> 7 | RequestOf _ \<Rightarrow> 11 | ResultOf _ \<Rightarrow> 9)"
  by (cases st) (simp_all add: unsigned_payload_def transcript_dict_def without_signature_def request_asdict_def result_asdict_def)

lemma statement_loaded:
  "loaded (PyDict (statement_dict st)) = loaded (PyDict (statement_dict st')) \<longleftrightarrow> covered st = covered st'"
proof (cases "length (statement_dict st) = length (statement_dict st')")
  case True
  then show ?thesis unfolding statement_length
    by (cases st; cases st') (simp_all del: loaded.simps add: statement_determined)
next
  case False
  moreover have "covered st \<noteq> covered st'" using False unfolding statement_length by (cases st; cases st') simp_all
  ultimately show ?thesis using loaded_length by blast
qed

lemma statement_dict_covered: "statement_dict (covered st) = statement_dict st"
  by (cases st) (simp_all add: unsigned_payload_def transcript_dict_def without_signature_def request_asdict_def result_asdict_def)

lemma statement_bytes_inject:
  assumes "plain_statement st" and "plain_statement st'"
  shows "statement_bytes st = statement_bytes st' \<longleftrightarrow> covered st = covered st'"
proof
  assume "statement_bytes st = statement_bytes st'"
  then have "string_of_bytes (statement_bytes st) = string_of_bytes (statement_bytes st')" by simp
  then have "canonical_json (statement_dict st) = canonical_json (statement_dict st')"
    unfolding statement_bytes_def string_of_bytes_of_string .
  from canonical_json_inject [OF this, of 2] show "covered st = covered st'"
    using assms unfolding plain_statement_def statement_loaded by blast
next
  assume "covered st = covered st'"
  then have "statement_dict st = statement_dict st'" by (metis statement_dict_covered)
  then show "statement_bytes st = statement_bytes st'" by (simp add: statement_bytes_def)
qed

text \<open>
  A key accepts only signatures of what its holder has said, and holders sign nothing but such statements:
  \<open>said\<close> gives for a key what its holder has signed.
\<close>

definition speaks_for :: "'k cryptography \<Rightarrow> ('k \<Rightarrow> py_statement set) \<Rightarrow> bool" where
  "speaks_for lib said \<longleftrightarrow>
     (\<forall>k s m. key_verifies lib k s m \<longrightarrow> m \<in> statement_bytes ` said k) \<and> (\<forall>k. \<forall>st \<in> said k. plain_statement st)"

lemma verified_said:
  assumes "speaks_for lib said" and "key_verifies lib k s (statement_bytes st)" and "plain_statement st"
  shows "covered st \<in> covered ` said k"
proof -
  have "statement_bytes st \<in> statement_bytes ` said k" using assms(1,2) by (simp add: speaks_for_def)
  then obtain st' where "st' \<in> said k" "statement_bytes st = statement_bytes st'" by blast
  moreover have "plain_statement st'" using assms(1) \<open>st' \<in> said k\<close> by (simp add: speaks_for_def)
  ultimately show ?thesis using statement_bytes_inject [OF assms(3)] by blast
qed

lemma certificate_said:
  assumes "speaks_for lib said" and "verify_certificate lib clock c k (Some t)" and "plain_statement (CertificateOf c)"
  shows "covered (CertificateOf c) \<in> covered ` said k" "not_before c \<le> t" "t \<le> not_after c"
proof -
  obtain sig where "key_verifies lib k sig (statement_bytes (CertificateOf c))"
    using assms(2) by (auto simp: verify_certificate_def statement_bytes_def Let_def split: if_splits option.splits)
  from verified_said [OF assms(1) this assms(3)] show "covered (CertificateOf c) \<in> covered ` said k" .
  show "not_before c \<le> t" "t \<le> not_after c" using assms(2) by (simp_all add: verify_certificate_def Let_def split: if_splits)
qed

section \<open>Properties\<close>

text \<open>
  Claim C24. Challenges are single-use: however often and with whatever arguments a new verifier is called, no challenge
  identifier is accepted twice, and what it has consumed in the end are exactly the identifiers of accepted challenges.
\<close>

theorem handshake_single_use:
  "let (replies, consumed) = handshake_run lib {} calls in
   length replies = length calls \<and> distinct (accepted_ids calls replies) \<and> consumed = set (accepted_ids calls replies)"
  using handshake_run_accepted [of lib "{}" calls] by (auto simp: Let_def)

text \<open>
  Claim C23. An admission is authentic down to the root.  If keys accept only what their holders signed, and holders sign
  nothing but certificates, answers, requests and results, then behind an accepted handshake there are a certificate
  that the root issued for the organization, one that the organization's key issued for the device, in force at that
  time and with the required capability, and an answer of the device's key to this challenge, equal in all fields that
  signatures cover.  No signature on a statement of another kind passes for one of these.
\<close>

theorem handshake_authentic:
  assumes "speaks_for lib said" and "handshake_verify lib consumed a = ((True, why), consumed')"
    and "plain_statement (CertificateOf (organization_certificate a))" and "plain_statement (CertificateOf (device_certificate a))"
    and "plain_statement (AnswerTo (challenge a))"
  shows "\<exists>okey dkey. covered (CertificateOf (organization_certificate a)) \<in> covered ` said (root_public_key a) \<and>
    key_of lib (organization_certificate a) = Some okey \<and>
    covered (CertificateOf (device_certificate a)) \<in> covered ` said okey \<and>
    key_of lib (device_certificate a) = Some dkey \<and> covered (AnswerTo (challenge a)) \<in> covered ` said dkey \<and>
    subject_id (organization_certificate a) = organization_id (challenge a) \<and>
    subject_id (device_certificate a) = agent_or_device_id (challenge a) \<and>
    issuer_id (device_certificate a) = subject_id (organization_certificate a) \<and>
    (\<forall>c \<in> {organization_certificate a, device_certificate a}. not_before c \<le> now a \<and> now a \<le> not_after c) \<and>
    (\<forall>c. required_capability a = Some c \<longrightarrow> c = [] \<or> c \<in> set (capabilities (device_certificate a)))"
proof -
  let ?org = "organization_certificate a" and ?dev = "device_certificate a"
  have ok: "admitted lib a" using handshake_verify_answer [of lib consumed a] assms(2) by simp
  then obtain okey dkey sig where chain: "key_of lib ?org = Some okey" "verify_certificate lib 0 ?dev okey (Some (now a))"
      "key_of lib ?dev = Some dkey" "key_verifies lib dkey sig (statement_bytes (AnswerTo (challenge a)))"
    by (auto simp: admitted_def Let_def statement_bytes_def transcript_def)
  have root: "verify_certificate lib 0 ?org (root_public_key a) (Some (now a))" using ok by (simp add: admitted_def Let_def)
  note org = certificate_said [OF assms(1) root assms(3)] and dev = certificate_said [OF assms(1) chain(2) assms(4)]
  show ?thesis
  proof (intro exI conjI)
    show "covered (AnswerTo (challenge a)) \<in> covered ` said dkey" by (rule verified_said [OF assms(1) chain(4) assms(5)])
  qed (use org dev chain(1,3) ok in \<open>auto simp: admitted_def Let_def\<close>)
qed

text \<open>
  The documented behaviour of the packages: keys and signatures of 32 and 64 bytes, keys come back from their bytes and
  Base64 from its text, and a key verifies the signatures of its private half.
\<close>

definition cryptography_laws :: "'k cryptography \<Rightarrow> ('p \<Rightarrow> byte list \<Rightarrow> byte list) \<Rightarrow> ('p \<Rightarrow> 'k) \<Rightarrow> bool" where
  "cryptography_laws lib sign pub \<longleftrightarrow>
     (\<forall>data. length data \<le> 64 \<longrightarrow> b64decode lib (url_safe (base64 data)) = Some data) \<and>
     (\<forall>k. length (public_bytes_raw lib k) = 32 \<and> from_public_bytes lib (public_bytes_raw lib k) = Some k) \<and>
     (\<forall>p m. length (sign p m) = 64 \<and> key_verifies lib (pub p) (sign p m) m)"

lemma issued_certificate:
  assumes "cryptography_laws lib sign pub"
    and "c = issue_certificate lib token issuer (sign p) subject kind k from_time until names"
  shows "key_of lib c = Some k"
    and "verify_certificate lib clock c (pub p) (Some t) \<longleftrightarrow> from_time \<le> t \<and> t \<le> until"
    and "set (capabilities c) = set names"
  using assms by (simp_all add: cryptography_laws_def issue_certificate_def sorted_set_def py_unb64_b64 verify_certificate_def
      unsigned_payload_def Let_def)

text \<open>
  Claim C25. An honest device is admitted, once.  With certificates that the root has issued for the organization and the
  organization for the device, both in force, and the device's signature on a challenge made for them that has not run
  out and was not used before, the handshake is accepted if the certificate has the required capability, whatever
  capabilities the challenge selects; every later handshake with this challenge is refused as a replay.
\<close>

theorem handshake_admits:
  assumes "cryptography_laws lib sign pub"
    and "organization_certificate a = issue_certificate lib token1 root_id (sign root) organization (py_str ''organization'')
      (pub org) from1 until1 names1"
    and "device_certificate a = issue_certificate lib token2 organization (sign org) device kind (pub dev) from2 until2 names2"
    and "kind \<in> {py_str ''device'', py_str ''agent''}"
    and "make_challenge token3 nonce3 organization device nonce protocol selected start ttl = Inr (challenge a)"
    and "signature a = sign_challenge (sign dev) (challenge a)" and "root_public_key a = pub root"
    and "organization_status a = py_str ''ACTIVE''" and "device_status a = py_str ''ACTIVE''"
    and "\<forall>c. required_capability a = Some c \<longrightarrow> c \<in> set names2"
    and "Max {from1, from2, start} \<le> now a" and "now a \<le> Min {until1, until2, start + ttl}" and "token3 \<notin> consumed"
    and "challenge_id (challenge later) = token3"
  shows "handshake_run lib consumed [a, later] = ([(True, ''ok''), (False, ''replay'')], insert token3 consumed)"
proof -
  note org = issued_certificate [OF assms(1,2)] and dev = issued_certificate [OF assms(1,3)]
  have "challenge a = \<lparr>challenge_id = token3, client_nonce = nonce, server_nonce = nonce3, organization_id = organization,
      agent_or_device_id = device, protocol_version = protocol, selected_capabilities = sorted_set selected, issued_at = start,
      expires_at = start + ttl\<rparr>"
    using assms(5) by (simp add: make_challenge_def split: if_splits)
  then have ch: "challenge_id (challenge a) = token3" "organization_id (challenge a) = organization"
      "agent_or_device_id (challenge a) = device" "issued_at (challenge a) = start" "expires_at (challenge a) = start + ttl"
    by simp_all
  have ids: "subject_id (organization_certificate a) = organization" "subject_kind (organization_certificate a) = py_str ''organization''"
      "subject_id (device_certificate a) = device" "subject_kind (device_certificate a) = kind"
      "issuer_id (device_certificate a) = organization"
    using assms(2,3) by (simp_all add: issue_certificate_def Let_def)
  have "py_unb64 (b64decode lib) (signature a) = Some (sign dev (transcript (challenge a)))"
      "key_verifies lib (pub dev) (sign dev (transcript (challenge a))) (transcript (challenge a))"
    using assms(1,6) by (simp_all add: cryptography_laws_def sign_challenge_def py_unb64_b64)
  then have "admitted lib a"
    using assms(4,7-12) org dev ch ids by (auto simp: admitted_def Let_def)
  then have "fst (fst (handshake_verify lib consumed a))" using assms(13) ch by (simp add: handshake_verify_answer)
  then have "handshake_verify lib consumed a = ((True, ''ok''), insert token3 consumed)"
    using handshake_verify_ok [of lib consumed a] handshake_verify_state [of lib consumed a] ch(1)
    by (simp add: prod_eq_iff)
  moreover have "handshake_verify lib (insert token3 consumed) later = ((False, ''replay''), insert token3 consumed)"
    using assms(14) by (simp add: handshake_verify_def)
  ultimately show ?thesis by simp
qed

section \<open>A concrete admission\<close>

definition key_lib :: "(byte \<Rightarrow> byte list \<Rightarrow> byte list \<Rightarrow> bool) \<Rightarrow> byte cryptography" where
  "key_lib verifies = \<lparr>public_bytes_raw = replicate 32, from_public_bytes = (\<lambda>bs. if length bs = 32 then Some (hd bs) else None),
     key_verifies = verifies, b64decode = sample_b64decode\<rparr>"

definition byte_sign :: "byte \<Rightarrow> byte list \<Rightarrow> byte list" where
  "byte_sign k m = sample_signature (unat k) m"

definition sample_challenge :: Challenge where
  "sample_challenge = \<lparr>challenge_id = py_str ''c1'', client_nonce = py_str ''n1'', server_nonce = py_str ''n2'',
     organization_id = py_str ''org-1'', agent_or_device_id = py_str ''dev-1'', protocol_version = py_str ''0.1'',
     selected_capabilities = [py_str ''admin''], issued_at = 10, expires_at = 40\<rparr>"

definition sample_call :: "byte handshake_call" where
  "sample_call = \<lparr>challenge = sample_challenge, signature = sign_challenge (byte_sign 3) sample_challenge,
     device_certificate = issue_certificate (key_lib (\<lambda>k s m. True)) (py_str ''s2'') (py_str ''org-1'') (byte_sign 2) (py_str ''dev-1'')
       (py_str ''device'') 3 0 100 [py_str ''job''],
     organization_certificate = issue_certificate (key_lib (\<lambda>k s m. True)) (py_str ''s1'') (py_str ''root'') (byte_sign 1)
       (py_str ''org-1'') (py_str ''organization'') 2 0 100 [],
     root_public_key = 1, organization_status = py_str ''ACTIVE'', required_capability = Some (py_str ''job''), now = 20,
     device_status = py_str ''ACTIVE''\<rparr>"

definition sample_said :: "byte \<Rightarrow> py_statement set" where
  "sample_said k =
     (if k = 1 then {CertificateOf (organization_certificate sample_call)}
      else if k = 2 then {CertificateOf (device_certificate sample_call)}
      else if k = 3 then {AnswerTo sample_challenge} else {})"

lemma issue_key_lib:
  "issue_certificate (key_lib v) = issue_certificate (key_lib v')"
  by (intro ext) (simp add: issue_certificate_def key_lib_def Let_def)

lemma key_lib_laws: "cryptography_laws (key_lib (\<lambda>k s m. s = byte_sign k m)) byte_sign id"
  by (auto simp: cryptography_laws_def key_lib_def sample_b64decode_encoded byte_sign_def sample_signature_def)

theorem handshake_admits_witness:
  "handshake_run (key_lib (\<lambda>k s m. s = byte_sign k m)) {} [sample_call, sample_call]
     = ([(True, ''ok''), (False, ''replay'')], {py_str ''c1''})"
proof -
  have "make_challenge (py_str ''c1'') (py_str ''n2'') (py_str ''org-1'') (py_str ''dev-1'') (py_str ''n1'') (py_str ''0.1'')
      [py_str ''admin''] 10 30 = Inr (challenge sample_call)"
    by (simp add: make_challenge_def sample_call_def sample_challenge_def sorted_set_def)
  from handshake_admits [OF key_lib_laws _ _ _ this, of "py_str ''s1''" "py_str ''root''" 1 2 0 100 "[]" "py_str ''s2''"
      "py_str ''device''" 3 0 100 "[py_str ''job'']" "{}" sample_call]
  show ?thesis
    using issue_key_lib [of "\<lambda>k s m. True" "\<lambda>k s m. s = byte_sign k m"]
    by (simp add: sample_call_def) (simp add: sample_challenge_def)
qed

lemma plain_certificate:
  assumes "\<forall>s \<in> {serial c, subject_id c, subject_kind c, subject_public_key c, issuer_id c, Certificate.signature_algorithm c} \<union> set (capabilities c).
      \<forall>x \<in> set s. scalar x"
    and "\<forall>i \<in> {version c, not_before c, not_after c}. length (dec_nat (nat \<bar>i\<bar>)) \<le> 4300"
  shows "plain_statement (CertificateOf c)"
proof -
  have "\<forall>(k, v) \<in> set (unsigned_payload c). ascii_key k"
    by (simp add: unsigned_payload_def ascii_key_def plain_key_def json_escape_def)
  moreover have "\<forall>(k, v) \<in> set (unsigned_payload c). encodable v" using assms(1) by (simp add: unsigned_payload_def)
  moreover have "loadable 2 (PyDict (unsigned_payload c))"
    using assms(2) by (simp add: unsigned_payload_def list_all_iff numeral_2_eq_2)
  ultimately show ?thesis by (fastforce simp: plain_statement_def)
qed

lemma plain_answer:
  assumes "\<forall>s \<in> {challenge_id c, client_nonce c, server_nonce c, Challenge.organization_id c, agent_or_device_id c,
      Challenge.protocol_version c} \<union> set (selected_capabilities c). \<forall>x \<in> set s. scalar x"
  shows "plain_statement (AnswerTo c)"
proof -
  have "\<forall>(k, v) \<in> set (transcript_dict c). ascii_key k"
    by (simp add: transcript_dict_def ascii_key_def plain_key_def json_escape_def)
  moreover have "\<forall>(k, v) \<in> set (transcript_dict c). encodable v" using assms by (simp add: transcript_dict_def)
  moreover have "loadable 2 (PyDict (transcript_dict c))" by (simp add: transcript_dict_def list_all_iff numeral_2_eq_2)
  ultimately show ?thesis by (fastforce simp: plain_statement_def)
qed

lemma sample_plain:
  "plain_statement (CertificateOf (organization_certificate sample_call))"
  "plain_statement (CertificateOf (device_certificate sample_call))" "plain_statement (AnswerTo sample_challenge)"
proof -
  have b64: "\<forall>c \<in> set (py_b64 x). scalar c" for x by (auto simp: py_b64_def scalar_def dest: url_safe_ascii)
  have digits: "length (dec_nat 0) \<le> 4300" "length (dec_nat (Suc 0)) \<le> 4300" "length (dec_nat 100) \<le> 4300"
    by (simp_all add: dec_nat.simps [of 0] dec_nat.simps [of 1] dec_nat.simps [of 10] dec_nat.simps [of 100] dec_nat.simps [of "Suc 0"])
  show "plain_statement (CertificateOf (organization_certificate sample_call))"
    "plain_statement (CertificateOf (device_certificate sample_call))"
    by (intro plain_certificate; simp add: sample_call_def issue_certificate_def Let_def sorted_set_def b64 [unfolded scalar_def] digits scalar_def)+
  show "plain_statement (AnswerTo sample_challenge)"
    by (rule plain_answer) (simp add: sample_challenge_def scalar_def)
qed

lemma sample_certificates:
  "issuer_signature (organization_certificate sample_call)
     = py_b64 (byte_sign 1 (statement_bytes (CertificateOf (organization_certificate sample_call))))"
  "issuer_signature (device_certificate sample_call)
     = py_b64 (byte_sign 2 (statement_bytes (CertificateOf (device_certificate sample_call))))"
  "subject_public_key (organization_certificate sample_call) = py_b64 (replicate 32 2)"
  "subject_public_key (device_certificate sample_call) = py_b64 (replicate 32 3)"
  "signature sample_call = py_b64 (byte_sign 3 (statement_bytes (AnswerTo sample_challenge)))"
  by (simp_all add: sample_call_def issue_certificate_def statement_bytes_def unsigned_payload_def key_lib_def Let_def
      sign_challenge_def transcript_def)

abbreviation said_lib :: "byte cryptography" where
  "said_lib \<equiv> key_lib (\<lambda>k s m. s = byte_sign k m \<and> m \<in> statement_bytes ` sample_said k)"

lemma said_lib_admits: "admitted said_lib sample_call"
proof -
  have decoded: "py_unb64 (b64decode said_lib) (py_b64 data) = Some data" if "length data \<le> 64" for data
    using sample_b64decode_encoded [OF that] by (simp add: key_lib_def py_unb64_b64)
  have lengths: "length (byte_sign k m) \<le> 64" "length (replicate 32 k) \<le> 64" for k :: byte and m
    by (simp_all add: byte_sign_def sample_signature_def)
  have certificates: "verify_certificate said_lib 0 (organization_certificate sample_call) 1 (Some 20)"
      "verify_certificate said_lib 0 (device_certificate sample_call) 2 (Some 20)"
    using sample_certificates(1,2) decoded lengths
    by (simp_all add: verify_certificate_def key_lib_def sample_said_def statement_bytes_def)
      (simp_all add: sample_call_def issue_certificate_def Let_def)
  have keys: "key_of said_lib (organization_certificate sample_call) = Some 2"
      "key_of said_lib (device_certificate sample_call) = Some 3"
    unfolding sample_certificates(3,4) decoded [OF lengths(2)] by (simp_all add: key_lib_def)
  have "key_verifies said_lib 3 (byte_sign 3 (statement_bytes (AnswerTo sample_challenge))) (transcript sample_challenge)"
    by (simp add: key_lib_def sample_said_def statement_bytes_def transcript_def)
  moreover have "challenge sample_call = sample_challenge" "now sample_call = 20" "root_public_key sample_call = 1"
    by (simp_all add: sample_call_def)
  ultimately show ?thesis
    unfolding admitted_def Let_def sample_certificates(5) decoded [OF lengths(1)]
    using certificates keys by (simp) (simp add: sample_call_def sample_challenge_def issue_certificate_def sorted_set_def Let_def)
qed

theorem handshake_authentic_witness:
  "handshake_verify said_lib {} sample_call = ((True, ''ok''), {py_str ''c1''}) \<and>
   (\<exists>okey dkey. key_of said_lib (organization_certificate sample_call) = Some okey \<and>
      covered (CertificateOf (device_certificate sample_call)) \<in> covered ` sample_said okey \<and>
      covered (AnswerTo sample_challenge) \<in> covered ` sample_said dkey)"
proof -
  have ch: "challenge sample_call = sample_challenge" "challenge_id sample_challenge = py_str ''c1''"
    by (simp_all add: sample_call_def sample_challenge_def)
  have "fst (fst (handshake_verify said_lib {} sample_call))"
    by (simp only: handshake_verify_answer said_lib_admits) simp
  then have run: "handshake_verify said_lib {} sample_call = ((True, ''ok''), {py_str ''c1''})"
    using handshake_verify_ok [of said_lib "{}" sample_call] handshake_verify_state [of said_lib "{}" sample_call] ch
    by (simp add: prod_eq_iff)
  have "speaks_for said_lib sample_said"
    using sample_plain by (auto simp: speaks_for_def key_lib_def sample_said_def split: if_splits)
  from handshake_authentic [OF this run sample_plain [folded ch(1)]] run show ?thesis unfolding ch(1) by blast
qed

end
