(* ===== verification/Python_Conflict.thy ===== *)
theory Python_Conflict
  imports Python_Interop "HOL-Library.List_Lexorder" "HOL-Library.Char_ord" "HOL-Library.Product_Lexorder"
begin

text \<open>
  The conflict resolver of \<open>conflict.py\<close>, and the convergence that \<open>spec/conflict-resolution.md\<close> states as a goal:
  replicas that see the same concurrent deltas in different orders end in the same state.
\<close>

datatype Resolution =
    ACCEPT_INCOMING | KEEP_LOCAL | REJECT_REPLAY | REJECT_STALE | REJECT_SCOPE | REJECT_UNRESOLVED

record DeltaMeta =
  base_version :: int
  new_version :: int
  logical_clock :: int
  organization_id :: "nat list"
  sender_id :: "nat list"
  message_id :: "nat list"
  scope_allowed :: bool
  replay :: bool

text \<open>\<open>str.encode("utf-8")\<close> raises \<open>UnicodeEncodeError\<close> for a surrogate; \<open>None\<close> is the exception.\<close>

definition encode_utf8 :: "nat list \<Rightarrow> string option" where
  "encode_utf8 s = (if \<forall>c \<in> set s. scalar c then Some (concat (map utf8 s)) else None)"

type_synonym ordering = "int \<times> int \<times> string \<times> string \<times> string"

definition ordering_key :: "DeltaMeta \<Rightarrow> ordering option" where
  "ordering_key d =
     Option.bind (encode_utf8 (organization_id d)) (\<lambda>org.
     Option.bind (encode_utf8 (sender_id d)) (\<lambda>sender.
     Option.bind (encode_utf8 (message_id d)) (\<lambda>msg.
     Some (new_version d, logical_clock d, org, sender, msg))))"

definition resolve :: "DeltaMeta \<Rightarrow> DeltaMeta \<Rightarrow> Resolution option" where
  "resolve local incoming =
     (if replay incoming then Some REJECT_REPLAY
      else if \<not> scope_allowed incoming then Some REJECT_SCOPE
      else if base_version incoming = new_version local then Some ACCEPT_INCOMING
      else if base_version incoming < new_version local then
        if new_version incoming = new_version local then
          Option.bind (ordering_key incoming) (\<lambda>ki.
          Option.bind (ordering_key local) (\<lambda>kl.
          Some (if ki > kl then ACCEPT_INCOMING else KEEP_LOCAL)))
        else Some REJECT_STALE
      else Some REJECT_UNRESOLVED)"

section \<open>Replicas\<close>

text \<open>A replica keeps the delta it has accepted last.\<close>

definition receive :: "DeltaMeta \<Rightarrow> DeltaMeta \<Rightarrow> DeltaMeta" where
  "receive local incoming = (if resolve local incoming = Some ACCEPT_INCOMING then incoming else local)"

text \<open>Deltas made concurrently: from one version to one later version, admissible, with encodable names.\<close>

definition concurrent :: "int \<Rightarrow> int \<Rightarrow> DeltaMeta set \<Rightarrow> bool" where
  "concurrent b v D \<longleftrightarrow> b < v \<and>
     (\<forall>d \<in> D. base_version d = b \<and> new_version d = v \<and> scope_allowed d \<and> \<not> replay d \<and> ordering_key d \<noteq> None)"

definition key_of :: "DeltaMeta \<Rightarrow> ordering" where
  "key_of d = the (ordering_key d)"

lemma receive_concurrent:
  assumes "concurrent b v D" and "local \<in> D" and "d \<in> D"
  shows "receive local d = (if key_of d > key_of local then d else local)"
proof -
  obtain kl kd where "ordering_key local = Some kl" "ordering_key d = Some kd"
    using assms unfolding concurrent_def by blast
  moreover have "base_version d < new_version local" "new_version d = new_version local" "scope_allowed d" "\<not> replay d"
    using assms by (auto simp: concurrent_def)
  ultimately show ?thesis by (simp add: receive_def resolve_def key_of_def)
qed

lemma foldl_receive_greatest:
  assumes "concurrent b v D" and "local \<in> D" and "set ds \<subseteq> D"
  shows "foldl receive local ds \<in> insert local (set ds) \<and> (\<forall>d \<in> insert local (set ds). key_of d \<le> key_of (foldl receive local ds))"
  using assms(2,3)
proof (induction ds arbitrary: local)
  case (Cons d ds)
  define best where "best = receive local d"
  have n: "best = (if key_of d > key_of local then d else local)"
    using receive_concurrent [OF assms(1), of local d] Cons.prems by (simp add: best_def)
  then have "best \<in> D" using Cons.prems by auto
  then have ih: "foldl receive best ds \<in> insert best (set ds)" "key_of best \<le> key_of (foldl receive best ds)"
      "\<forall>x \<in> set ds. key_of x \<le> key_of (foldl receive best ds)"
    using Cons.IH [of best] Cons.prems by auto
  moreover have "key_of d \<le> key_of best" "key_of local \<le> key_of best" using n by auto
  then have "key_of d \<le> key_of (foldl receive best ds)" "key_of local \<le> key_of (foldl receive best ds)"
    using ih(2) by (blast intro: order_trans)+
  moreover have "best \<in> {d, local}" using n by simp
  ultimately show ?case unfolding foldl_Cons best_def [symmetric] by auto
qed simp

lemma first_delta: "concurrent b v D \<Longrightarrow> d \<in> D \<Longrightarrow> new_version start = b \<Longrightarrow> receive start d = d"
  by (simp add: receive_def resolve_def concurrent_def)

text \<open>
  Claim C36. Convergence of replicas: replicas that start from the same version and receive the same concurrent
  deltas with distinct ordering keys, each in an order of its own and with any repetitions, end in the same
  state, the delta with the greatest key.
\<close>

theorem replicas_converge:
  assumes "concurrent b v (set ds)" and "inj_on ordering_key (set ds)" and "ds \<noteq> []" and "set ds' = set ds"
    and "new_version start = b" and "new_version start' = b"
  shows "foldl receive start ds = foldl receive start' ds' \<and> foldl receive start ds \<in> set ds \<and>
    (\<forall>d \<in> set ds. the (ordering_key d) \<le> the (ordering_key (foldl receive start ds)))"
proof -
  have greatest: "foldl receive s xs \<in> set ds \<and> (\<forall>d \<in> set ds. key_of d \<le> key_of (foldl receive s xs))"
    if "set xs = set ds" "new_version s = b" for s xs
  proof -
    have "xs \<noteq> []" using that(1) assms(3) by auto
    then obtain x ys where xs: "xs = x # ys" by (cases xs) auto
    then have "receive s x = x" using first_delta [OF assms(1)] that by auto
    moreover have "insert x (set ys) = set ds" using that(1) xs by simp
    ultimately show ?thesis using foldl_receive_greatest [OF assms(1), of x ys] xs by auto
  qed
  let ?x = "foldl receive start ds" and ?y = "foldl receive start' ds'"
  have x: "?x \<in> set ds" "\<forall>d \<in> set ds. key_of d \<le> key_of ?x" and y: "?y \<in> set ds" "\<forall>d \<in> set ds. key_of d \<le> key_of ?y"
    using greatest [of ds start] greatest [of ds' start'] assms(4-6) by auto
  then have "key_of ?x = key_of ?y" by (meson order_antisym)
  moreover have "ordering_key ?x \<noteq> None" "ordering_key ?y \<noteq> None" using assms(1) x(1) y(1) by (auto simp: concurrent_def)
  ultimately have "ordering_key ?x = ordering_key ?y" by (auto simp: key_of_def)
  then have "?x = ?y" using inj_onD [OF assms(2)] x(1) y(1) by blast
  then show ?thesis using x by (simp add: key_of_def)
qed

definition delta_from :: "nat \<Rightarrow> DeltaMeta" where
  "delta_from sender = \<lparr>base_version = 4, new_version = 5, logical_clock = 9, organization_id = [0x6f], sender_id = [sender],
     message_id = [0x6d], scope_allowed = True, replay = False\<rparr>"

theorem replicas_converge_witness:
  "foldl receive ((delta_from 0x61)\<lparr>new_version := 4\<rparr>) [delta_from 0x61, delta_from 0xe9, delta_from 0x62]
     = foldl receive ((delta_from 0x62)\<lparr>new_version := 4\<rparr>) [delta_from 0xe9, delta_from 0x62, delta_from 0x61, delta_from 0xe9]"
proof -
  let ?ds = "[delta_from 0x61, delta_from 0xe9, delta_from 0x62]"
  have "concurrent 4 5 (set ?ds)"
    by (simp add: concurrent_def delta_from_def ordering_key_def encode_utf8_def scalar_def)
  moreover have "inj_on ordering_key (set ?ds)"
    by (simp add: delta_from_def ordering_key_def encode_utf8_def scalar_def utf8_def char_of_eq_iff)
  moreover have "set [delta_from 0xe9, delta_from 0x62, delta_from 0x61, delta_from 0xe9] = set ?ds" by auto
  ultimately have "foldl receive start ?ds = foldl receive start' [delta_from 0xe9, delta_from 0x62, delta_from 0x61, delta_from 0xe9]"
    if "new_version start = 4" "new_version start' = 4" for start start'
    using replicas_converge [of 4 5 ?ds] that by blast
  then show ?thesis by simp
qed

end
