(* ===== verification/Python_Routes.thy ===== *)
theory Python_Routes
  imports Python_Canonical Python_Conflict
begin

text \<open>
  Learned routes between Python nodes: the deltas of \<open>wire.py\<close> and the route memory of \<open>rm_bridge.py\<close>.  \<open>sha256\<close>
  stands for \<open>hashlib.sha256(data).hexdigest()\<close>, and \<open>normalized\<close> for \<open>" ".join(condition.strip().lower().split())\<close>, which
  rests on the tables of Unicode.
\<close>

section \<open>Deltas\<close>

record ReferenceDelta =
  protocol_version :: "nat list"
  message_id :: "nat list"
  sender_id :: "nat list"
  organization_id :: "nat list"
  trajectory_address :: "nat list"
  base_version :: int
  new_version :: int
  operation :: "nat list"
  scope :: "nat list"
  payload_or_reference :: "nat list"
  integrity_digest :: "nat list"
  logical_clock :: int
  signature :: "nat list"

definition ALLOWED_OPERATIONS :: "nat list set" where
  "ALLOWED_OPERATIONS = {py_str ''SET'', py_str ''PATCH'', py_str ''DELETE'', py_str ''LINK'', py_str ''TOMBSTONE''}"

definition ALLOWED_SCOPES :: "nat list set" where
  "ALLOWED_SCOPES = {py_str ''private'', py_str ''user'', py_str ''shared'', py_str ''global''}"

definition MAX_REFERENCE_DELTA_BYTES :: nat where
  "MAX_REFERENCE_DELTA_BYTES = 64 * 1024"

definition delta_validate :: "ReferenceDelta \<Rightarrow> py_error option" where
  "delta_validate d =
     (if operation d \<notin> ALLOWED_OPERATIONS then Some (ValueError ''invalid operation'')
      else if scope d \<notin> ALLOWED_SCOPES then Some (ValueError ''invalid scope'')
      else if base_version d < 0 \<or> new_version d < 0 then Some (ValueError ''negative version'')
      else if logical_clock d < 0 then Some (ValueError ''negative logical clock'')
      else if message_id d = [] \<or> sender_id d = [] \<or> organization_id d = [] then Some (ValueError ''missing identity field'')
      else if trajectory_address d = [] then Some (ValueError ''missing trajectory address'')
      else None)"

definition delta_asdict :: "ReferenceDelta \<Rightarrow> (string \<times> py_value) list" where
  "delta_asdict d =
     [(''protocol_version'', PyStr (protocol_version d)), (''message_id'', PyStr (message_id d)),
      (''sender_id'', PyStr (sender_id d)), (''organization_id'', PyStr (organization_id d)),
      (''trajectory_address'', PyStr (trajectory_address d)), (''base_version'', PyInt (base_version d)),
      (''new_version'', PyInt (new_version d)), (''operation'', PyStr (operation d)), (''scope'', PyStr (scope d)),
      (''payload_or_reference'', PyStr (payload_or_reference d)), (''integrity_digest'', PyStr (integrity_digest d)),
      (''logical_clock'', PyInt (logical_clock d)), (''signature'', PyStr (signature d))]"

definition encode_reference_delta :: "ReferenceDelta \<Rightarrow> py_error + byte list" where
  "encode_reference_delta d =
     (case delta_validate d of Some e \<Rightarrow> Inl e
      | None \<Rightarrow>
          (case encode_utf8 (dumps_raw (PyDict (delta_asdict d))) of
             None \<Rightarrow> Inl UnicodeError
           | Some encoded \<Rightarrow>
               if length encoded > MAX_REFERENCE_DELTA_BYTES then Inl (ValueError ''reference delta too large'')
               else Inr (bytes_of_string encoded)))"

definition delta_fields :: "string list" where
  "delta_fields =
     [''protocol_version'', ''message_id'', ''sender_id'', ''organization_id'', ''trajectory_address'', ''base_version'',
      ''new_version'', ''operation'', ''scope'', ''payload_or_reference'', ''integrity_digest'', ''logical_clock'', ''signature'']"

text \<open>\<open>ReferenceDelta(**raw)\<close> for values of the annotated types.\<close>

definition delta_of :: "(nat list \<times> py_json) list \<Rightarrow> py_error + ReferenceDelta" where
  "delta_of kvs =
     py_bind (str_field kvs ''protocol_version'') (\<lambda>pv.
     py_bind (str_field kvs ''message_id'') (\<lambda>mid.
     py_bind (str_field kvs ''sender_id'') (\<lambda>sender.
     py_bind (str_field kvs ''organization_id'') (\<lambda>org.
     py_bind (str_field kvs ''trajectory_address'') (\<lambda>addr.
     py_bind (int_field kvs ''base_version'') (\<lambda>base.
     py_bind (int_field kvs ''new_version'') (\<lambda>new.
     py_bind (str_field kvs ''operation'') (\<lambda>op.
     py_bind (str_field kvs ''scope'') (\<lambda>sc.
     py_bind (str_field kvs ''payload_or_reference'') (\<lambda>pl.
     py_bind (str_field kvs ''integrity_digest'') (\<lambda>digest.
     py_bind (int_field kvs ''logical_clock'') (\<lambda>clock.
     py_bind (str_field kvs ''signature'') (\<lambda>sig.
     Inr \<lparr>protocol_version = pv, message_id = mid, sender_id = sender, organization_id = org, trajectory_address = addr,
        base_version = base, new_version = new, operation = op, scope = sc, payload_or_reference = pl,
        integrity_digest = digest, logical_clock = clock, signature = sig\<rparr>)))))))))))))"

definition decode_reference_delta :: "nat \<Rightarrow> byte list \<Rightarrow> py_error + ReferenceDelta" where
  "decode_reference_delta depth bytes =
     (if length bytes > MAX_REFERENCE_DELTA_BYTES then Inl (ValueError ''reference delta too large'')
      else case decode_utf8 (string_of_bytes bytes) of
          None \<Rightarrow> Inl (ValueError ''malformed reference delta'')
        | Some t \<Rightarrow>
            (case json_loads depth t of
               Inl JSONDecodeError \<Rightarrow> Inl (ValueError ''malformed reference delta'')
             | Inl e \<Rightarrow> Inl e
             | Inr (JObject kvs) \<Rightarrow>
                 if set (map fst kvs) \<noteq> py_str ` set delta_fields then Inl (ValueError ''unexpected or missing fields'')
                 else py_bind (delta_of kvs) (\<lambda>d. case delta_validate d of Some e \<Rightarrow> Inl e | None \<Rightarrow> Inr d)
             | Inr _ \<Rightarrow> Inl (ValueError ''reference delta must be an object'')))"

section \<open>Route memory\<close>

record RouteRecord =
  trajectory_address :: "nat list"
  condition_key :: "nat list"
  result :: "nat list"
  version :: int
  scope :: "nat list"

record route_memory =
  by_condition :: "nat list \<rightharpoonup> nat list"
  by_address :: "nat list \<rightharpoonup> RouteRecord"
  external_resolution_calls :: nat

definition empty_memory :: route_memory where
  "empty_memory = \<lparr>by_condition = Map.empty, by_address = Map.empty, external_resolution_calls = 0\<rparr>"

definition key_of_condition :: "(string \<Rightarrow> string) \<Rightarrow> (nat list \<Rightarrow> nat list) \<Rightarrow> nat list \<Rightarrow> py_error + nat list" where
  "key_of_condition sha256 normalized condition =
     (case encode_utf8 (normalized condition) of None \<Rightarrow> Inl UnicodeError | Some t \<Rightarrow> Inr (py_str (sha256 t)))"

definition derive_address :: "(string \<Rightarrow> string) \<Rightarrow> nat list \<Rightarrow> nat list \<Rightarrow> py_error + nat list" where
  "derive_address sha256 ckey res =
     (case encode_utf8 (py_str ''rm-route-v1|'' @ ckey @ py_str ''|'' @ res) of
        None \<Rightarrow> Inl UnicodeError
      | Some material \<Rightarrow> Inr (py_str (''rm:'' @ sha256 material)))"

text \<open>
  \<open>resolve\<close>: the result, whether it was a local hit, and the address; with the memory, which a failed call may have
  changed.  A condition that is known has a record at its address, so that \<open>self._by_address[address]\<close> raises nothing
  in memories that these operations make.
\<close>

definition route_resolve ::
    "(string \<Rightarrow> string) \<Rightarrow> (nat list \<Rightarrow> nat list) \<Rightarrow> nat list \<Rightarrow> (nat list \<Rightarrow> py_error + nat list) option \<Rightarrow> (nat list \<Rightarrow> bool) option \<Rightarrow>
       route_memory \<Rightarrow> (py_error + nat list \<times> bool \<times> nat list) \<times> route_memory" where
  "route_resolve sha256 normalized condition external_resolver validator m =
     (case key_of_condition sha256 normalized condition of
        Inl e \<Rightarrow> (Inl e, m)
      | Inr k \<Rightarrow>
          (case by_condition m k of
             Some address \<Rightarrow>
               (case by_address m address of
                  None \<Rightarrow> (Inl (KeyError ''address''), m)
                | Some r \<Rightarrow> (Inr (result r, True, RouteRecord.trajectory_address r), m))
           | None \<Rightarrow>
               (case external_resolver of
                  None \<Rightarrow> (Inl (KeyError ''unknown route and no external resolver supplied''), m)
                | Some resolver \<Rightarrow>
                    let m = m\<lparr>external_resolution_calls := external_resolution_calls m + 1\<rparr> in
                    (case resolver condition of
                       Inl e \<Rightarrow> (Inl e, m)
                     | Inr res \<Rightarrow>
                         if (case validator of None \<Rightarrow> False | Some valid \<Rightarrow> \<not> valid res)
                         then (Inl (ValueError ''external result rejected by validator''), m)
                         else (case derive_address sha256 k res of
                             Inl e \<Rightarrow> (Inl e, m)
                           | Inr address \<Rightarrow>
                               let r = \<lparr>trajectory_address = address, condition_key = k, result = res, version = 1,
                                     scope = py_str ''shared''\<rparr>
                               in (Inr (res, False, address),
                                   m\<lparr>by_condition := (by_condition m)(k \<mapsto> address), by_address := (by_address m)(address \<mapsto> r)\<rparr>))))))"

text \<open>The text a record travels as.\<close>

definition route_payload :: "RouteRecord \<Rightarrow> string" where
  "route_payload r = canonical_json
     [(''condition_key'', PyStr (condition_key r)), (''result'', PyStr (result r)), (''version'', PyInt (version r))]"

definition export_delta ::
    "(string \<Rightarrow> string) \<Rightarrow> nat list \<Rightarrow> nat list \<Rightarrow> nat list \<Rightarrow> nat list \<Rightarrow> int \<Rightarrow> route_memory \<Rightarrow> py_error + byte list" where
  "export_delta sha256 address sender org msg clock m =
     (case by_address m address of
        None \<Rightarrow> Inl (KeyError ''address'')
      | Some r \<Rightarrow>
          let content = route_payload r; digest = sha256 content in
          encode_reference_delta
            \<lparr>protocol_version = py_str ''0.1'', message_id = msg, sender_id = sender, organization_id = org,
             trajectory_address = RouteRecord.trajectory_address r, base_version = 0, new_version = version r,
             operation = py_str ''SET'', scope = RouteRecord.scope r, payload_or_reference = py_str content,
             integrity_digest = py_str digest, logical_clock = clock, signature = py_str ''reference-test-signature''\<rparr>)"

text \<open>\<open>int(raw["version"])\<close> of the values that need no parsing or rounding.\<close>

definition version_field :: "(nat list \<times> py_json) list \<Rightarrow> py_error + int" where
  "version_field kvs =
     (case map_of kvs (py_str ''version'') of
        None \<Rightarrow> Inl (KeyError ''version'')
      | Some (JInt i) \<Rightarrow> Inr i
      | Some (JBool b) \<Rightarrow> Inr (of_bool b)
      | Some _ \<Rightarrow> Inl Untyped)"

definition item_field :: "(nat list \<times> py_json) list \<Rightarrow> string \<Rightarrow> py_error + nat list" where
  "item_field kvs k = (if map_of kvs (py_str k) = None then Inl (KeyError k) else str_field kvs k)"

definition import_delta ::
    "(string \<Rightarrow> string) \<Rightarrow> nat \<Rightarrow> byte list \<Rightarrow> route_memory \<Rightarrow> (py_error + RouteRecord) \<times> route_memory" where
  "import_delta sha256 depth encoded m =
     (let imported =
        py_bind (decode_reference_delta depth encoded) (\<lambda>d.
        case encode_utf8 (payload_or_reference d) of
          None \<Rightarrow> Inl UnicodeError
        | Some payload_bytes \<Rightarrow>
            if py_str (sha256 payload_bytes) \<noteq> integrity_digest d then Inl (ValueError ''integrity mismatch'')
            else if ReferenceDelta.scope d \<notin> {py_str ''shared'', py_str ''global''}
            then Inl (ValueError ''route is not eligible for cross-agent import'')
            else py_bind (json_loads depth (payload_or_reference d)) (\<lambda>raw.
              case raw of
                JObject kvs \<Rightarrow>
                  py_bind (item_field kvs ''condition_key'') (\<lambda>k.
                  py_bind (item_field kvs ''result'') (\<lambda>res.
                  py_bind (version_field kvs) (\<lambda>v.
                  py_bind (derive_address sha256 k res) (\<lambda>expected_address.
                  if expected_address \<noteq> ReferenceDelta.trajectory_address d then Inl (ValueError ''route identity mismatch'')
                  else Inr \<lparr>trajectory_address = ReferenceDelta.trajectory_address d, condition_key = k, result = res,
                         version = v, scope = ReferenceDelta.scope d\<rparr>))))
              | _ \<Rightarrow> Inl (TypeError ''indices must be integers or slices''))) 
      in case imported of
          Inl e \<Rightarrow> (Inl e, m)
        | Inr r \<Rightarrow> (Inr r, m\<lparr>by_address := (by_address m)(RouteRecord.trajectory_address r \<mapsto> r),
            by_condition := (by_condition m)(condition_key r \<mapsto> RouteRecord.trajectory_address r)\<rparr>))"

section \<open>Deltas come back\<close>

lemma delta_sorted:
  "sort_key fst (delta_asdict d) =
     [(''base_version'', PyInt (base_version d)), (''integrity_digest'', PyStr (integrity_digest d)),
      (''logical_clock'', PyInt (logical_clock d)), (''message_id'', PyStr (message_id d)), (''new_version'', PyInt (new_version d)),
      (''operation'', PyStr (operation d)), (''organization_id'', PyStr (organization_id d)),
      (''payload_or_reference'', PyStr (payload_or_reference d)), (''protocol_version'', PyStr (protocol_version d)),
      (''scope'', PyStr (ReferenceDelta.scope d)), (''sender_id'', PyStr (sender_id d)), (''signature'', PyStr (signature d)),
      (''trajectory_address'', PyStr (ReferenceDelta.trajectory_address d))]"
  by (simp add: delta_asdict_def less_eq_char_def less_char_def)

lemma delta_loaded:
  "delta_of (map (\<lambda>(k, v). (py_str k, loaded v)) (sort_key fst (delta_asdict d))) = Inr d"
  "set (map fst (map (\<lambda>(k, v). (py_str k, loaded v)) (sort_key fst (delta_asdict d)))) = py_str ` set delta_fields"
proof -
  show "delta_of (map (\<lambda>(k, v). (py_str k, loaded v)) (sort_key fst (delta_asdict d))) = Inr d"
    unfolding delta_sorted by (simp add: delta_of_def str_field_def int_field_def)
  have "map fst (map (\<lambda>(k, v). (py_str k, loaded v)) kvs) = map py_str (map fst kvs)" for kvs by (simp add: case_prod_beta)
  moreover have "set (map fst (delta_asdict d)) = set delta_fields" by (auto simp: delta_asdict_def delta_fields_def)
  ultimately show "set (map fst (map (\<lambda>(k, v). (py_str k, loaded v)) (sort_key fst (delta_asdict d)))) = py_str ` set delta_fields"
    by (simp only: set_map set_sort)
qed

definition readable_numbers :: "ReferenceDelta \<Rightarrow> bool" where
  "readable_numbers d \<longleftrightarrow> (\<forall>i \<in> {base_version d, new_version d, logical_clock d}. length (dec_nat (nat \<bar>i\<bar>)) \<le> 4300)"

lemma delta_loadable: "readable_numbers d \<Longrightarrow> loadable (Suc depth) (PyDict (delta_asdict d))"
  by (simp add: readable_numbers_def delta_asdict_def)

lemma delta_decoded:
  assumes "encode_reference_delta d = Inr bytes" and "readable_numbers d"
  shows "decode_reference_delta (Suc depth) bytes = Inr d"
proof -
  obtain t where t: "encode_utf8 (dumps_raw (PyDict (delta_asdict d))) = Some t" and valid: "delta_validate d = None"
    and size: "length t \<le> MAX_REFERENCE_DELTA_BYTES" and bytes: "bytes = bytes_of_string t"
    using assms(1) by (auto simp: encode_reference_delta_def split: option.splits if_splits)
  have "decode_utf8 t = Some (dumps_raw (PyDict (delta_asdict d)))"
    using t decode_utf8_encoded [of "dumps_raw (PyDict (delta_asdict d))"] by (simp add: encode_utf8_def split: if_splits)
  moreover note loads_dumps_raw [OF delta_loadable [OF assms(2)], of depth]
  ultimately show ?thesis
    using delta_loaded [of d] size valid unfolding decode_reference_delta_def bytes
    by (simp del: dumps_raw.simps list.map) 
qed

text \<open>
  Claim C38. Deltas come back: what \<open>encode_reference_delta\<close> makes of a delta, with numbers of at most 4300 digits, is at most
  64 KiB, and \<open>decode_reference_delta\<close> reads it as the same delta, which is valid.  So no two such deltas share an encoding.
\<close>

theorem reference_delta_roundtrip:
  assumes "encode_reference_delta d = Inr bytes" and "readable_numbers d"
  shows "decode_reference_delta (Suc depth) bytes = Inr d \<and> length bytes \<le> MAX_REFERENCE_DELTA_BYTES \<and> delta_validate d = None \<and>
    (\<forall>d'. encode_reference_delta d' = Inr bytes \<and> readable_numbers d' \<longrightarrow> d' = d)"
proof -
  note read = delta_decoded [OF assms, of depth]
  moreover have "d' = d" if "encode_reference_delta d' = Inr bytes" "readable_numbers d'" for d'
    using delta_decoded [OF that, of depth] read by simp
  ultimately show ?thesis
    using assms(1) by (auto simp: encode_reference_delta_def split: option.splits if_splits)
qed

section \<open>Routes travel\<close>

lemma encode_utf8_ascii: "\<forall>c \<in> set t. (of_char c :: nat) < 0x7f \<Longrightarrow> encode_utf8 (py_str t) = Some t"
  using scalar_ascii [of t] utf8_of_ascii [of t] by (simp add: encode_utf8_def del: map_map)

lemma derive_address_scalar:
  "derive_address sha256 k res = Inr address \<Longrightarrow> (\<forall>c \<in> set k. scalar c) \<and> (\<forall>c \<in> set res. scalar c)"
  by (auto simp: derive_address_def encode_utf8_def split: if_splits)

lemma route_payload_loads:
  assumes "\<forall>c \<in> set (condition_key r). scalar c" and "\<forall>c \<in> set (result r). scalar c" and "length (dec_nat (nat \<bar>version r\<bar>)) \<le> 4300"
  shows "encode_utf8 (py_str (route_payload r)) = Some (route_payload r)"
    and "json_loads (Suc depth) (py_str (route_payload r)) = Inr (JObject [(py_str ''condition_key'', JStr (condition_key r)),
      (py_str ''result'', JStr (result r)), (py_str ''version'', JInt (version r))])"
proof -
  let ?kvs = "[(''condition_key'', PyStr (condition_key r)), (''result'', PyStr (result r)), (''version'', PyInt (version r))]"
  have "\<forall>c \<in> set (route_payload r). (of_char c :: nat) < 0x7f"
    by (auto simp: route_payload_def canonical_json_def dest: python_json_string_printable dec_int_ascii)
  then show "encode_utf8 (py_str (route_payload r)) = Some (route_payload r)" by (rule encode_utf8_ascii)
  have "encodable (PyDict ?kvs)" "loadable (Suc depth) (PyDict ?kvs)"
    using assms by (simp_all add: ascii_key_def plain_key_def json_escape_def)
  from loads_json_dumps [OF this(2,1)]
  show "json_loads (Suc depth) (py_str (route_payload r)) = Inr (JObject [(py_str ''condition_key'', JStr (condition_key r)),
      (py_str ''result'', JStr (result r)), (py_str ''version'', JInt (version r))])"
    by (simp add: route_payload_def less_eq_char_def less_char_def)
qed

text \<open>A record that its address identifies, of a scope that may travel.\<close>

definition transferable :: "(string \<Rightarrow> string) \<Rightarrow> RouteRecord \<Rightarrow> bool" where
  "transferable sha256 r \<longleftrightarrow>
     derive_address sha256 (condition_key r) (result r) = Inr (RouteRecord.trajectory_address r) \<and>
     RouteRecord.scope r \<in> {py_str ''shared'', py_str ''global''} \<and> length (dec_nat (nat \<bar>version r\<bar>)) \<le> 4300"

definition remember :: "RouteRecord \<Rightarrow> route_memory \<Rightarrow> route_memory" where
  "remember r m = m\<lparr>by_address := (by_address m)(RouteRecord.trajectory_address r \<mapsto> r),
     by_condition := (by_condition m)(condition_key r \<mapsto> RouteRecord.trajectory_address r)\<rparr>"

lemma one_digit: "length (dec_nat 0) \<le> 4300" "length (dec_nat 1) \<le> 4300" "length (dec_nat (Suc 0)) \<le> 4300"
  by (simp_all add: dec_nat.simps [of 0] dec_nat.simps [of 1] dec_nat.simps [of "Suc 0"])

lemma import_exported:
  assumes "export_delta sha256 address sender org msg clock p = Inr bytes" and "by_address p address = Some r"
    and "transferable sha256 r" and "length (dec_nat (nat \<bar>clock\<bar>)) \<le> 4300"
  shows "import_delta sha256 (Suc depth) bytes m = (Inr r, remember r m)"
proof -
  define d where "d = \<lparr>ReferenceDelta.protocol_version = py_str ''0.1'', message_id = msg, sender_id = sender, organization_id = org,
    trajectory_address = RouteRecord.trajectory_address r, base_version = 0, new_version = version r,
    operation = py_str ''SET'', scope = RouteRecord.scope r, payload_or_reference = py_str (route_payload r),
    integrity_digest = py_str (sha256 (route_payload r)), logical_clock = clock, signature = py_str ''reference-test-signature''\<rparr>"
  have enc: "encode_reference_delta d = Inr bytes" using assms(1,2) by (simp add: export_delta_def d_def Let_def)
  have v: "length (dec_nat (nat \<bar>version r\<bar>)) \<le> 4300" using assms(3) by (simp add: transferable_def)
  have "readable_numbers d" using v assms(4) by (simp add: readable_numbers_def d_def one_digit)
  note read = delta_decoded [OF enc this, of depth]
  have "\<forall>c \<in> set (condition_key r). scalar c" "\<forall>c \<in> set (result r). scalar c"
    using assms(3) derive_address_scalar by (auto simp: transferable_def)
  note payload = route_payload_loads [OF this v]
  have fields: "payload_or_reference d = py_str (route_payload r)" "integrity_digest d = py_str (sha256 (route_payload r))"
      "ReferenceDelta.scope d = RouteRecord.scope r" "ReferenceDelta.trajectory_address d = RouteRecord.trajectory_address r"
    by (simp_all add: d_def)
  show ?thesis
    unfolding import_delta_def read py_bind_simps fields payload option.case Let_def
    using assms(3) by (cases r) (simp add: transferable_def remember_def item_field_def str_field_def version_field_def)
qed

lemma resolve_remembered:
  assumes "key_of_condition sha256 normalized condition = Inr k" and "by_condition m k = Some (RouteRecord.trajectory_address r)"
    and "by_address m (RouteRecord.trajectory_address r) = Some r"
  shows "route_resolve sha256 normalized condition resolver validator m = (Inr (result r, True, RouteRecord.trajectory_address r), m)"
  using assms by (simp add: route_resolve_def)

lemma resolve_learns:
  assumes "route_resolve sha256 normalized condition resolver validator m = (Inr (res, False, address), m')"
  shows "\<exists>k r. key_of_condition sha256 normalized condition = Inr k \<and> by_address m' address = Some r \<and> result r = res \<and>
    RouteRecord.trajectory_address r = address \<and> condition_key r = k \<and> transferable sha256 r"
  using assms
  by (auto simp: route_resolve_def transferable_def Let_def one_digit split: sum.splits option.splits if_splits)

text \<open>
  Claim C37. A learned route travels: if a node learns the result of a condition from its resolver and exports the route,
  then every node that imports the bytes, whatever it remembers, has the same record, and resolves the same condition
  locally to the same result and the same address, without calling its resolver and without changing its memory.
\<close>

theorem learned_route_travels:
  assumes "route_resolve sha256 normalized condition resolver validator m = (Inr (res, False, address), m')"
    and "export_delta sha256 address sender org msg clock m' = Inr bytes" and "length (dec_nat (nat \<bar>clock\<bar>)) \<le> 4300"
  shows "\<exists>r n'. by_address m' address = Some r \<and> import_delta sha256 (Suc depth) bytes n = (Inr r, n') \<and>
    external_resolution_calls n' = external_resolution_calls n \<and>
    route_resolve sha256 normalized condition resolver' validator' n' = (Inr (res, True, address), n')"
proof -
  obtain k r where r: "key_of_condition sha256 normalized condition = Inr k" "by_address m' address = Some r" "result r = res"
      "RouteRecord.trajectory_address r = address" "condition_key r = k" "transferable sha256 r"
    using resolve_learns [OF assms(1)] by blast
  have "route_resolve sha256 normalized condition resolver' validator' (remember r n) = (Inr (res, True, address), remember r n)"
    using resolve_remembered [OF r(1), of "remember r n" r] r(3-5) by (simp add: remember_def)
  then show ?thesis
    using import_exported [OF assms(2) r(2,6) assms(3), of depth n] r(2) by (intro exI [of _ r] exI [of _ "remember r n"]) (simp add: remember_def)
qed

text \<open>
  Addresses do not identify routes: the material that is hashed joins the condition and the result with a bar that either
  may contain.  An import under the address of a known route, with a bar moved from the result to the condition, passes
  every check and changes the result of the known condition.
\<close>

lemma moved_bar_same_address:
  "derive_address sha256 (k @ py_str ''|'' @ x) y = derive_address sha256 k (x @ py_str ''|'' @ y)"
  by (simp add: derive_address_def)

lemma import_changes_known_route:
  assumes "key_of_condition sha256 normalized condition = Inr k" and "by_condition m k = Some address"
    and "by_address m address = Some known" and "result known = x @ py_str ''|'' @ y"
    and "derive_address sha256 k (result known) = Inr address" and "length (dec_nat (nat \<bar>clock\<bar>)) \<le> 4300"
    and "forged = \<lparr>trajectory_address = address, condition_key = k @ py_str ''|'' @ x, result = y, version = 1, scope = py_str ''shared''\<rparr>"
    and "by_address p address = Some forged" and "export_delta sha256 address sender org msg clock p = Inr bytes"
  shows "\<exists>m'. import_delta sha256 (Suc depth) bytes m = (Inr forged, m') \<and>
    route_resolve sha256 normalized condition resolver validator m' = (Inr (y, True, address), m') \<and> y \<noteq> result known"
proof -
  have "transferable sha256 forged"
    using assms(4,5) by (simp add: assms(7) transferable_def moved_bar_same_address [simplified] one_digit)
  note imported = import_exported [OF assms(9,8) this assms(6), of depth m]
  moreover have "route_resolve sha256 normalized condition resolver validator (remember forged m) = (Inr (y, True, address), remember forged m)"
    using resolve_remembered [OF assms(1), of "remember forged m" forged] assms(2) by (simp add: remember_def assms(7))
  moreover have "y \<noteq> result known" using assms(4) by simp
  ultimately show ?thesis by blast
qed

section \<open>A concrete route\<close>

definition sample_sha256 :: "string \<Rightarrow> string" where
  "sample_sha256 t = ''d1''"

definition sample_route :: RouteRecord where
  "sample_route = \<lparr>trajectory_address = py_str ''rm:d1'', condition_key = py_str ''d1'', result = py_str ''reduce'', version = 1,
     scope = py_str ''shared''\<rparr>"

definition sample_delta :: ReferenceDelta where
  "sample_delta = \<lparr>protocol_version = py_str ''0.1'', message_id = py_str ''m1'', sender_id = py_str ''a'', organization_id = py_str ''o'',
     trajectory_address = py_str ''rm:d1'', base_version = 0, new_version = 1, operation = py_str ''SET'', scope = py_str ''shared'',
     payload_or_reference = py_str (route_payload sample_route), integrity_digest = py_str ''d1'', logical_clock = 1,
     signature = py_str ''reference-test-signature''\<rparr>"

lemma plain_char: "0x20 \<le> c \<Longrightarrow> c < 0x7f \<Longrightarrow> c \<noteq> 0x22 \<Longrightarrow> c \<noteq> 0x5c \<Longrightarrow> shown_char c = [c] \<and> python_escape c = [char_of c]"
  by (auto simp: shown_char_def python_escape_def json_escape_def char_of_is)

lemma sample_payload: "py_str (route_payload sample_route) = py_str (''{'' @ [CHR 0x22] @ ''condition_key'' @ [CHR 0x22] @ '':'' @ [CHR 0x22] @ ''d1'' @ [CHR 0x22] @ '',''
    @ [CHR 0x22] @ ''result'' @ [CHR 0x22] @ '':'' @ [CHR 0x22] @ ''reduce'' @ [CHR 0x22] @ '','' @ [CHR 0x22] @ ''version'' @ [CHR 0x22] @ '':1}'')"
  by (simp add: route_payload_def sample_route_def canonical_json_def python_json_string_def plain_char less_eq_char_def less_char_def
      dec_int_def dec_nat.simps)

lemma sample_delta_encodes: "\<exists>bytes. encode_reference_delta sample_delta = Inr bytes"
proof -
  have u: "length (utf8 c) = 1" if "c < 0x80" for c using that by (simp add: utf8_def)
  have q: "shown_char 0x22 = [0x5c, 0x22]" by (simp add: shown_char_def json_escape_def)
  have "length (utf8_of (dumps_raw (PyDict (delta_asdict sample_delta)))) \<le> MAX_REFERENCE_DELTA_BYTES"
    by (simp add: delta_sorted sample_delta_def sample_payload shown_object_def shown_string_def plain_char u q dec_int_def dec_nat.simps
        MAX_REFERENCE_DELTA_BYTES_def)
  moreover have "encodable (PyDict (delta_asdict sample_delta))"
    unfolding sample_delta_def sample_payload by (simp add: delta_asdict_def ascii_key_def plain_key_def json_escape_def scalar_def)
  from encodable_dumps_raw [OF this]
  have "encode_utf8 (dumps_raw (PyDict (delta_asdict sample_delta))) = Some (utf8_of (dumps_raw (PyDict (delta_asdict sample_delta))))"
    by (simp add: encode_utf8_def del: dumps_raw.simps)
  moreover have "delta_validate sample_delta = None"
    by (simp add: delta_validate_def sample_delta_def ALLOWED_OPERATIONS_def ALLOWED_SCOPES_def)
  ultimately show ?thesis by (simp add: encode_reference_delta_def del: dumps_raw.simps)
qed

theorem reference_delta_roundtrip_witness:
  "\<exists>bytes. encode_reference_delta sample_delta = Inr bytes \<and> decode_reference_delta 1 bytes = Inr sample_delta"
proof -
  obtain bytes where bytes: "encode_reference_delta sample_delta = Inr bytes" using sample_delta_encodes by blast
  have "readable_numbers sample_delta" by (simp add: readable_numbers_def sample_delta_def one_digit)
  from reference_delta_roundtrip [OF bytes this, of 0] bytes show ?thesis by simp
qed

theorem learned_route_travels_witness:
  "\<exists>m' bytes n'.
     route_resolve sample_sha256 id (py_str ''hot'') (Some (\<lambda>c. Inr (py_str ''reduce''))) None empty_memory
       = (Inr (py_str ''reduce'', False, py_str ''rm:d1''), m') \<and>
     export_delta sample_sha256 (py_str ''rm:d1'') (py_str ''a'') (py_str ''o'') (py_str ''m1'') 1 m' = Inr bytes \<and>
     import_delta sample_sha256 1 bytes empty_memory = (Inr sample_route, n') \<and>
     route_resolve sample_sha256 id (py_str ''hot'') None None n' = (Inr (py_str ''reduce'', True, py_str ''rm:d1''), n')"
proof -
  define m' where "m' = \<lparr>by_condition = [py_str ''d1'' \<mapsto> py_str ''rm:d1''], by_address = [py_str ''rm:d1'' \<mapsto> sample_route],
    external_resolution_calls = 1\<rparr>"
  have learn: "route_resolve sample_sha256 id (py_str ''hot'') (Some (\<lambda>c. Inr (py_str ''reduce''))) None empty_memory
      = (Inr (py_str ''reduce'', False, py_str ''rm:d1''), m')"
    by (simp add: route_resolve_def key_of_condition_def derive_address_def encode_utf8_def scalar_def sample_sha256_def
        empty_memory_def m'_def sample_route_def)
  have "export_delta sample_sha256 (py_str ''rm:d1'') (py_str ''a'') (py_str ''o'') (py_str ''m1'') 1 m'
      = encode_reference_delta sample_delta"
    by (simp add: export_delta_def m'_def sample_delta_def sample_sha256_def Let_def) (simp add: sample_route_def)
  then obtain bytes where bytes: "export_delta sample_sha256 (py_str ''rm:d1'') (py_str ''a'') (py_str ''o'') (py_str ''m1'') 1 m' = Inr bytes"
    using sample_delta_encodes by metis
  have at: "by_address m' (py_str ''rm:d1'') = Some sample_route" by (simp add: m'_def)
  have "length (dec_nat (nat \<bar>1\<bar>)) \<le> 4300" by (simp add: one_digit)
  from learned_route_travels [OF learn bytes this, of 0 empty_memory None None] learn bytes at
  show ?thesis by (simp del: list.map) blast
qed

end
