(* ===== verification/Spec2Isabelle.thy ===== *)
theory Spec2Isabelle
  imports Wire_Properties Wire_Grammar Job Engine_Refinement Handles Cross_Language Python_Handshake Python_Routes
begin

text \<open>
  A verification development for MA2A: the C++ library, the headers under \<open>src/cpp/include/ma2a\<close>, and the Python
  reference implementation under \<open>src/reference/python/ma2a\<close> that nodes in C++ talk to.

  \<^bold>\<open>The program.\<close>  A node that wants a job done asks a router for a target, signs a request for it, sends it
  over TCP and waits for an answer: a signed result, or a signed notice that the node failed.  Whatever goes
  wrong is turned into a failure notice signed by the node itself, the target is excluded, and the next one is
  tried, up to a number of attempts.  The parts, and how they call each other:
  \<^item> messages: \<open>contracts.hpp\<close>, \<open>canonical.hpp\<close> (the payloads that are signed), \<open>wire.hpp\<close> and \<open>failure_notice.hpp\<close>
    (envelopes), \<open>wire_parse.hpp\<close> (reading them back), \<open>framing.hpp\<close> (frames of at most one MiB), \<open>job.hpp\<close>
    (validation and the reference operations);
  \<^item> signatures: \<open>crypto.hpp\<close> over OpenSSL, \<open>job_auth.hpp\<close>, \<open>failure_notice.hpp\<close>;
  \<^item> transport: \<open>tcp.hpp\<close> over POSIX sockets;
  \<^item> execution: \<open>execution_orchestrator.hpp\<close> (the lifecycle of one request), \<open>resilient_execution.hpp\<close> (the loop
    over a route provider and an attempt executor), \<open>authenticated_tcp_executor.hpp\<close> (the executor) and
    \<open>resolutive_routing_adapter.hpp\<close> (the provider);
  \<^item> in Python: \<open>job.py\<close> and \<open>transport.py\<close> (jobs, frames, a server), \<open>auth.py\<close> (the admission handshake with its
    certificates), \<open>wire.py\<close> and \<open>rm_bridge.py\<close> (deltas and the routes they carry), \<open>conflict.py\<close> (which delta wins).

  \<^bold>\<open>How code is modelled.\<close>  A call gives an \<open>outcome\<close>: a value, an exception with its message, or undefined
  behaviour (signed overflow, writing beyond a buffer).  A call with effects is a function on an environment
  \<open>'w\<close> that gives an outcome and the next environment, or \<open>None\<close> when it does not come back (\<open>io\<close>); a retry loop
  is \<open>io_loop\<close>, which may run forever, and that it ends is proved.  The other loops are functions
  with a termination proof; two loops of \<open>json.loads\<close> are bounded by the length of the text, and the locale \<open>value_scanner\<close>
  shows that a larger bound changes nothing.  The nesting that the stack of Python allows is a parameter, and
  going beyond it is the error it is there.  \<open>std::string\<close> is a list of bytes, the fixed-size integers are
  words, signed 64-bit arithmetic is checked for overflow, \<open>std::size_t\<close> is a natural number except where it can
  wrap around.  Code outside of the repository is a parameter: OpenSSL (record \<open>openssl\<close>), the operating
  system (\<open>posix\<close>), the router library (\<open>resolutive_routing\<close>), the resolvers and the clock; what is relied on is
  stated by the predicates \<open>evp_base64\<close>, \<open>evp_decode_bounded\<close>, \<open>evp_ed25519\<close>, \<open>stream_out\<close>, \<open>stream_in\<close>,
  \<open>progress_out\<close>, \<open>progress_in\<close>, \<open>tracks\<close>, \<open>options_view\<close>, \<open>deadlines_kept\<close>, \<open>selects_candidate\<close>, \<open>signs_only\<close>,
  \<open>keys_of_owners\<close> and \<open>signs_for\<close>, each with an instance.  For Python these are the \<open>cryptography\<close> package,
  \<open>base64.b64decode\<close>, the random texts of \<open>secrets\<close>, SHA-256 and the Unicode normalisation of conditions, with
  the predicates \<open>peers_trust\<close>, \<open>reliable\<close>, \<open>cryptography_laws\<close> and \<open>speaks_for\<close>; a Python call gives an error or a value,
  strings are lists of code points and integers are unbounded.

  \<^bold>\<open>The theories.\<close>
  \<^item> \<open>MA2A_Prelude\<close>: outcomes, effectful calls with their judgements (\<open>returns\<close>, \<open>io_spec\<close>, \<open>io_ensures\<close>, \<open>keeps\<close>)
    and loop rules, checked arithmetic, decimal numbers, bytes.
  \<^item> \<open>Contracts\<close>, \<open>Canonical\<close>, \<open>Wire\<close>, \<open>Wire_Parse\<close>: the structures and functions of the headers of the same
    names, one definition per function, loop and switch.
  \<^item> \<open>Reader_Spec\<close>, \<open>Codec\<close>, \<open>Flat_Object\<close>, \<open>Envelope\<close>, \<open>Messages\<close>: the reader with its text and position refines a
    reader of lists; printing and reading are inverse (locales \<open>prefix_code\<close>, \<open>codec\<close>, \<open>total_codec\<close> for values,
    \<open>value_codec\<close>, \<open>quiet_values\<close>, \<open>message_codec\<close> for objects and envelopes over any printer of values, \<open>wire_message\<close> for
    the two messages); \<open>Wire_Properties\<close> states the results: round trips, what a payload binds, the overflow of the
    integer reader.  \<open>Wire_Grammar\<close>: the texts of strings, numbers, objects and envelopes as inductive predicates that
    mention no function of the code, and that the parsers accept exactly these.
  \<^item> \<open>Python_Interop\<close>, \<open>Python_Messages\<close>: what a Python node sends.  UTF-8, \<open>json.dumps\<close> (an instance of
    \<open>message_codec\<close>), the results and failure notices of \<open>reference/python/ma2a\<close>, their signing and framing; C++ reads
    them all, and verifies them exactly when their strings are ASCII.  \<open>Python_Conflict\<close>: the conflict resolver, and
    the convergence of replicas.
  \<^item> \<open>Python_Loads\<close>, \<open>Python_Reading\<close>, \<open>Python_Canonical\<close>: UTF-8 decoding and \<open>json.loads\<close>, and that they invert
    \<open>json.dumps\<close> in both its modes, so that canonical JSON determines its object.
  \<^item> \<open>Python_Requests\<close>, \<open>Cross_Language\<close>: requests, \<open>recv_frame\<close> and \<open>serve_one_job\<close>; both languages judge jobs alike, and
    a C++ executor that asks a Python server accepts its answer.
  \<^item> \<open>Python_Handshake\<close>: certificates, challenges and the verifier; admissions are authentic down to the root, honest
    devices are admitted, challenges are used once.  \<open>Python_Routes\<close>: deltas come back as they were, learned routes
    travel, and addresses do not identify routes whose texts contain a bar.
  \<^item> \<open>Framing\<close>, \<open>Job\<close>: \<open>framing.hpp\<close> and \<open>job.hpp\<close> with their properties.
  \<^item> \<open>Base64\<close>, \<open>Crypto\<close>, \<open>Job_Auth\<close>: reference base64, \<open>crypto.hpp\<close>, and signing and verification with the
    locales \<open>signable\<close> and \<open>verifiable\<close> for the three messages: signed messages verify, verified results are
    authentic, verification never throws.
  \<^item> \<open>Orchestrator\<close>: the lifecycle, a transition system with its invariant, and the laws a client relies on
    (locale \<open>failover_laws\<close>).  \<open>Engine\<close>, \<open>Engine_Properties\<close>, \<open>Engine_Refinement\<close>: the loop; its outcome is
    truthful, it ends, it does not throw while the callbacks keep their contracts (locales \<open>route_source\<close>,
    \<open>evidence_source\<close>, \<open>execution_stack\<close>), it reaches the first live node, and it refines a pure failover function;
    \<open>attempts_made\<close> is the trace of a run, the attempts with the responses they brought.
  \<^item> \<open>Tcp\<close>, \<open>Tcp_Stream\<close>, \<open>Tcp_Properties\<close>: sockets; whole messages whatever the fragmentation, bounded reads, no
    descriptor left open, what becomes of long timeouts.  \<open>Handles\<close>: a process that connects, moves, assigns and
    destroys handles in any order, as a step relation, with the invariant that every descriptor has one owner.
  \<^item> \<open>Executor\<close>, \<open>Executor_Evidence\<close>, \<open>Routing\<close>, \<open>Executor_Properties\<close>: one attempt and the whole stack.  Evidence is
    backed by signatures, nothing leaks.  \<open>Deadlines\<close>: the options of sockets; connecting restores the flags of the
    socket, every call that could block is given a limit first, and so no peer can block an execution.
    \<open>Attempt_Verdict\<close>: answers are judged as specified, one whose time stamp overflows included, requests on the wire are signed for their target.
    \<open>Accountability\<close> (locale \<open>accountable_source\<close>): a result that completes an execution was issued by the node of
    the last attempt, and the notice that caused an exclusion is one somebody answers for.

  \<^bold>\<open>Bounds.\<close>  A frame body has 1 to \<open>2 ^ 20\<close> bytes; time stamps are 64-bit, the smallest of which is printed but not
  read back; base64 texts are below \<open>2 ^ 31\<close> characters, the limit of the \<open>int\<close> lengths of OpenSSL.  Python
  reads numbers of at most 4300 digits and deltas of at most 64 KiB.  The brace depth of \<open>split_envelope\<close> is an
  unbounded integer: an \<open>int\<close> holds it for every text below \<open>2 ^ 31\<close> bytes, and frames are far shorter.

  \<^bold>\<open>Not modelled.\<close>  Memory allocation by containers is taken to succeed, and the reference counts of OpenSSL
  objects are left to their owners.  Time does not pass in the model: that a limit is given to the system before a
  call that could block is shown, that the system keeps it is the assumption \<open>deadlines_kept\<close>.  Of the Python
  implementation, the client of \<open>transport.py\<close> and the opening of sockets are left out, and so are capability
  advertisements, which carry and print floating-point numbers; where Python would go on with a value of another type
  than the source annotates, the model stops with the error \<open>Untyped\<close>.
  The tests, the documents and the build files are outside of this development.
\<close>

end
